(* ===== verification/Prelude.thy ===== *)
theory Prelude
  imports Main
begin

text \<open>
  Shared vocabulary of the development.

  \<^item> The fact collections the component theories extend.
  \<^item> The values of JavaScript that TypeScript's optional and nullable properties can take,
    and the standard-library functions the program uses (\<open>Array.from(new Set(xs))\<close>).
  \<^item> \<open>prog\<close>: an asynchronous function of the program as a sequence of atomic statements.
    Every \<open>await\<close> of a database statement or a queue call is one \<open>Stmt\<close>; between two of them
    other requests may run.  \<open>run\<close> is the function running alone; \<open>sched\<close> interleaves several.
\<close>

named_theorems inv_intros \<open>statements that keep the invariant of the store\<close>
named_theorems table_simps \<open>what a statement does to the other tables\<close>

named_theorems queries \<open>what a query answers\<close>

section \<open>JavaScript values\<close>

text \<open>
  A property of type \<open>T | null\<close> that may be left out: \<open>undefined\<close>, \<open>null\<close> or a value.
  On INSERT both absent values store the column's default (NULL); on UPDATE an \<open>undefined\<close>
  property is not part of the SET list.
\<close>

datatype 'a js = Undefined | Null | Given 'a

fun to_nullable :: "'a js \<Rightarrow> 'a option" where
  "to_nullable (Given x) = Some x"
| "to_nullable Undefined = None"
| "to_nullable Null = None"

fun of_nullable :: "'a option \<Rightarrow> 'a js" where
  "of_nullable (Some x) = Given x"
| "of_nullable None = Null"

fun patch_nullable :: "'a option \<Rightarrow> 'a js \<Rightarrow> 'a option" where
  "patch_nullable old Undefined = old"
| "patch_nullable old Null = None"
| "patch_nullable old (Given x) = Some x"

fun patch_col :: "'a \<Rightarrow> 'a option \<Rightarrow> 'a" where
  "patch_col old None = old"
| "patch_col old (Some x) = x"

lemma to_nullable_of_nullable [simp]: "to_nullable (of_nullable x) = x"
  by (cases x) simp_all

lemma patch_nullable_of_nullable [simp]: "patch_nullable old (of_nullable x) = x"
  by (cases x) simp_all

text \<open>\<open>Array.from(new Set(xs))\<close>: one copy of each element, in the order of first insertion.\<close>

fun array_from_set :: "'a list \<Rightarrow> 'a list" where
  "array_from_set [] = []"
| "array_from_set (x # xs) = x # removeAll x (array_from_set xs)"

lemma set_array_from_set [simp]: "set (array_from_set xs) = set xs"
  by (induction xs) auto

lemma distinct_array_from_set [simp]: "distinct (array_from_set xs)"
  by (induction xs) (auto simp: distinct_removeAll)

lemma array_from_set_id [simp]: "distinct xs \<Longrightarrow> array_from_set xs = xs"
  by (induction xs) (auto simp: removeAll_id)

lemma length_array_from_set_le: "length (array_from_set xs) \<le> length xs"
  by (metis card_length distinct_array_from_set distinct_card set_array_from_set)

section \<open>Lists of rows\<close>

text \<open>The row update every UPDATE statement performs: rows outside the WHERE clause stay.\<close>

definition update_where :: "('r \<Rightarrow> bool) \<Rightarrow> ('r \<Rightarrow> 'r) \<Rightarrow> 'r list \<Rightarrow> 'r list" where
  "update_where P f rows = map (\<lambda>r. if P r then f r else r) rows"

lemma length_update_where [simp]: "length (update_where P f rows) = length rows"
  by (simp add: update_where_def)

lemma update_where_Nil [simp]: "update_where P f [] = []"
  by (simp add: update_where_def)

lemma update_where_Cons [simp]:
  "update_where P f (r # rows) = (if P r then f r else r) # update_where P f rows"
  by (simp add: update_where_def)

lemma set_update_where:
  "set (update_where P f rows) = {f r | r. r \<in> set rows \<and> P r} \<union> {r \<in> set rows. \<not> P r}"
  by (auto simp: update_where_def)

lemma update_where_member:
  "r \<in> set rows \<Longrightarrow> (if P r then f r else r) \<in> set (update_where P f rows)"
  by (auto simp: set_update_where)

lemma map_update_where_key:
  assumes "\<And>r. key (f r) = key r"
  shows "map key (update_where P f rows) = map key rows"
  using assms by (simp add: update_where_def)

lemma image_key_update_where:
  assumes "\<And>r. key (f r) = key r"
  shows "key ` set (update_where P f rows) = key ` set rows"
  using map_update_where_key [of key f P rows, OF assms] by (metis set_map)

lemma list_all_update_where:
  assumes "list_all Q rows" and "\<And>r. r \<in> set rows \<Longrightarrow> P r \<Longrightarrow> Q r \<Longrightarrow> Q (f r)"
  shows "list_all Q (update_where P f rows)"
  using assms by (auto simp: list_all_iff set_update_where)

lemma update_where_cong:
  "(\<And>r. r \<in> set rows \<Longrightarrow> P r \<longleftrightarrow> Q r) \<Longrightarrow> update_where P f rows = update_where Q f rows"
  by (simp add: update_where_def)

lemma update_where_none: "(\<And>r. r \<in> set rows \<Longrightarrow> \<not> P r) \<Longrightarrow> update_where P f rows = rows"
  by (induction rows) auto

lemma filter_update_where_commute:
  assumes "\<And>r. Q (f r) = Q r"
  shows "filter Q (update_where P f rows) = update_where P f (filter Q rows)"
  using assms by (induction rows) auto

lemma update_where_commute:
  assumes "\<And>r. r \<in> set rows \<Longrightarrow> P r \<Longrightarrow> \<not> Q r"
    and "\<And>r. P r \<Longrightarrow> Q (f r) = Q r" and "\<And>r. Q r \<Longrightarrow> P (g r) = P r"
  shows "update_where Q g (update_where P f rows) = update_where P f (update_where Q g rows)"
  using assms by (induction rows) auto

lemma distinct_map_filter_le_one:
  assumes "distinct (map key rows)"
  shows "length (filter (\<lambda>r. key r = k) rows) \<le> 1"
  using assms by (induction rows) (auto simp: filter_empty_conv, metis image_eqI)

lemma distinct_key_eq:
  assumes "distinct (map key rows)" and "r \<in> set rows" and "r' \<in> set rows" and "key r = key r'"
  shows "r = r'"
  using assms by (simp add: distinct_map inj_on_def)

lemma distinct_mapD: "distinct (map key rows) \<Longrightarrow> distinct rows"
  by (simp add: distinct_map)

lemma filter_eq_distinct: "r \<in> set rows \<Longrightarrow> distinct rows \<Longrightarrow> filter (\<lambda>x. x = r) rows = [r]"
  by (induction rows) (auto simp: filter_empty_conv)

lemma in_concat_map: "x \<in> set xs \<Longrightarrow> y \<in> set (g x) \<Longrightarrow> y \<in> set (concat (map g xs))"
  by auto

lemma keys_disjoint: "\<forall>r \<in> A. key r \<notin> K \<Longrightarrow> K \<inter> key ` A = {}"
  by blast

lemma image_keys_in: "f ` {x \<in> A. f x \<in> B} = B \<inter> f ` A"
  by blast

text \<open>Membership in the sets the joins of the raw SQL compute.\<close>

lemma bex_Int: "(\<exists>x \<in> A \<inter> B. P x) \<longleftrightarrow> (\<exists>x \<in> A. x \<in> B \<and> P x)"
  by blast

lemma Int_Collect_empty: "A \<inter> {x. P x} = {} \<longleftrightarrow> (\<forall>x \<in> A. \<not> P x)"
  by blast

lemmas join_simps = bex_Int Int_Collect_empty list_ex_iff

section \<open>Asynchronous functions\<close>

datatype (dead 'e, dead 's, dead 'a) prog =
    Done "'e + 'a"
  | Stmt "'s \<Rightarrow> ('e, 's, 'a) prog \<times> 's"

type_synonym ('e, 's, 'a) stmt = "'s \<Rightarrow> ('e + 'a) \<times> 's"

text \<open>\<open>return\<close>, \<open>throw\<close>, and \<open>const x = await m; k(x)\<close> outside any \<open>try\<close>.\<close>

definition return :: "'a \<Rightarrow> ('e, 's, 'a) prog" where
  "return x = Done (Inr x)"

definition throw :: "'e \<Rightarrow> ('e, 's, 'a) prog" where
  "throw e = Done (Inl e)"

definition await :: "('e, 's, 'b) stmt \<Rightarrow> ('b \<Rightarrow> ('e, 's, 'a) prog) \<Rightarrow> ('e, 's, 'a) prog" where
  "await m k = Stmt (\<lambda>s. case m s of (Inl e, t) \<Rightarrow> (throw e, t) | (Inr x, t) \<Rightarrow> (k x, t))"

text \<open>The function running alone.\<close>

primrec run :: "('e, 's, 'a) prog \<Rightarrow> 's \<Rightarrow> ('e + 'a) \<times> 's" where
  "run (Done r) = (\<lambda>s. (r, s))"
| "run (Stmt k) = (\<lambda>s. case map_prod run id (k s) of (g, t) \<Rightarrow> g t)"

lemma run_Stmt: "run (Stmt k) s = (case k s of (p, t) \<Rightarrow> run p t)"
  by (simp split: prod.splits)

declare run.simps(2) [simp del]

lemma run_return [simp]: "run (return x) s = (Inr x, s)"
  by (simp add: return_def)

lemma run_throw [simp]: "run (throw e) s = (Inl e, s)"
  by (simp add: throw_def)

lemma run_await [simp]:
  "run (await m k) s = (case m s of (Inl e, t) \<Rightarrow> (Inl e, t) | (Inr x, t) \<Rightarrow> run (k x) t)"
  by (simp add: await_def run_Stmt split: prod.splits sum.splits)

lemma run_await_ok: "m s = (Inr x, t) \<Longrightarrow> run (await m k) s = run (k x) t"
  by simp

lemma run_await_InrE:
  assumes "run (await m k) s = (Inr y, u)"
  obtains x t where "m s = (Inr x, t)" "run (k x) t = (Inr y, u)"
  using assms by (auto split: prod.splits sum.splits)

text \<open>\<open>try { r = await m } catch (e) { ... }\<close> around one statement: \<open>h\<close> gets its result or its error.\<close>

definition attempt :: "('e, 's, 'b) stmt \<Rightarrow> ('e + 'b \<Rightarrow> ('e, 's, 'a) prog) \<Rightarrow> ('e, 's, 'a) prog" where
  "attempt m h = Stmt (\<lambda>s. case m s of (r, t) \<Rightarrow> (h r, t))"

lemma run_attempt [simp]: "run (attempt m h) s = (case m s of (r, t) \<Rightarrow> run (h r) t)"
  by (simp add: attempt_def run_Stmt split: prod.splits)

text \<open>
  \<open>try { p } catch (e) { h(e) }\<close> around a whole function, and a function of its result.
\<close>

primrec settle :: "('e + 'a \<Rightarrow> ('e, 's, 'b) prog) \<Rightarrow> ('e, 's, 'a) prog \<Rightarrow> ('e, 's, 'b) prog" where
  "settle h (Done r) = h r"
| "settle h (Stmt k) = Stmt (\<lambda>s. map_prod (settle h) id (k s))"

lemma run_settle: "run (settle h p) s = (case run p s of (r, t) \<Rightarrow> run (h r) t)"
proof (induction p arbitrary: s)
  case (Done r)
  then show ?case by simp
next
  case (Stmt k)
  obtain p t where k: "k s = (p, t)" by (cases "k s")
  with Stmt [of "(p, t)" p t] show ?case
    by (simp add: run_Stmt) (metis rangeI)
qed

section \<open>Invariants of asynchronous functions\<close>

text \<open>
  \<open>keeps I p\<close>: every statement that \<open>p\<close> may execute, whatever ran in between, keeps \<open>I\<close>.
\<close>

inductive keeps :: "('s \<Rightarrow> bool) \<Rightarrow> ('e, 's, 'a) prog \<Rightarrow> bool" for I where
  keeps_Done: "keeps I (Done r)"
| keeps_Stmt: "(\<And>s. I s \<Longrightarrow> I (snd (k s)) \<and> keeps I (fst (k s))) \<Longrightarrow> keeps I (Stmt k)"

inductive_simps keeps_Done_iff [simp]: "keeps I (Done r)"
inductive_simps keeps_Stmt_iff: "keeps I (Stmt k)"
inductive_cases keeps_StmtE: "keeps I (Stmt k)"

lemma keeps_return [simp, inv_intros]: "keeps I (return x)"
  by (simp add: return_def)

lemma keeps_throw [simp, inv_intros]: "keeps I (throw e)"
  by (simp add: throw_def)

lemma keeps_await [inv_intros]:
  assumes "\<And>s. I s \<Longrightarrow> I (snd (m s))" and "\<And>x. keeps I (k x)"
  shows "keeps I (await m k)"
  unfolding await_def
proof (rule keeps_Stmt)
  fix s
  assume "I s"
  with assms(1) have "I (snd (m s))" .
  then show "I (snd (case m s of (Inl e, t) \<Rightarrow> (throw e, t) | (Inr x, t) \<Rightarrow> (k x, t))) \<and>
    keeps I (fst (case m s of (Inl e, t) \<Rightarrow> (throw e, t) | (Inr x, t) \<Rightarrow> (k x, t)))"
    using assms(2) by (auto split: prod.splits sum.splits)
qed

lemma keeps_attempt [inv_intros]:
  assumes "\<And>s. I s \<Longrightarrow> I (snd (m s))" and "\<And>r. keeps I (h r)"
  shows "keeps I (attempt m h)"
  unfolding attempt_def by (rule keeps_Stmt) (use assms in \<open>auto split: prod.splits, metis snd_conv\<close>)

lemma keeps_if [inv_intros]: "(b \<Longrightarrow> keeps I p) \<Longrightarrow> (\<not> b \<Longrightarrow> keeps I q) \<Longrightarrow> keeps I (if b then p else q)"
  by simp

lemma keeps_case_option [inv_intros]:
  "(x = None \<Longrightarrow> keeps I p) \<Longrightarrow> (\<And>y. x = Some y \<Longrightarrow> keeps I (q y)) \<Longrightarrow>
    keeps I (case x of None \<Rightarrow> p | Some y \<Rightarrow> q y)"
  by (cases x) simp_all

lemma keeps_run: "keeps I p \<Longrightarrow> I s \<Longrightarrow> I (snd (run p s))"
proof (induction arbitrary: s rule: keeps.induct)
  case (keeps_Done r)
  then show ?case by simp
next
  case (keeps_Stmt k)
  then show ?case by (auto simp: run_Stmt split: prod.splits) (metis fst_conv snd_conv)
qed

lemma keeps_settle [inv_intros]:
  "keeps I p \<Longrightarrow> (\<And>r. keeps I (h r)) \<Longrightarrow> keeps I (settle h p)"
proof (induction rule: keeps.induct)
  case (keeps_Done r)
  then show ?case by simp
next
  case (keeps_Stmt k)
  then show ?case
    by (auto intro!: keeps.keeps_Stmt simp: map_prod_def split: prod.splits) (metis fst_conv snd_conv)+
qed

end
