(* ===== verification/Domain.thy ===== *)
theory Domain
  imports Prelude
begin

text \<open>
  The vocabulary of \<^verbatim>\<open>src/src/common/enums.ts\<close>, the exceptions of every component
  (\<^verbatim>\<open>common/errors.ts\<close> and the four \<^verbatim>\<open>models/errors.ts\<close>), and what an express handler
  answers.  An exception's constructor carries the values its message interpolates; the wording
  of the messages is not modelled.
\<close>

section \<open>Enumerations\<close>

datatype status = IN_PROGRESS | COMPLETED | FAILED

datatype action_type = CREATE | MODIFY | DELTE

datatype entity_status = E_IN_PROGRESS | E_COMPLETED | E_NOT_SYNCED | E_FAILED | E_IN_RERUN

datatype geometry_type = POINT | LINESTRING | POLYGON

text \<open>The stored values, which the raw SQL of the repositories spells as literals.\<close>

fun status_value :: "status \<Rightarrow> string" where
  "status_value IN_PROGRESS = ''inprogress''"
| "status_value COMPLETED = ''completed''"
| "status_value FAILED = ''failed''"

fun entity_status_value :: "entity_status \<Rightarrow> string" where
  "entity_status_value E_IN_PROGRESS = ''inprogress''"
| "entity_status_value E_COMPLETED = ''completed''"
| "entity_status_value E_NOT_SYNCED = ''not_synced''"
| "entity_status_value E_FAILED = ''failed''"
| "entity_status_value E_IN_RERUN = ''inrerun''"

lemma status_value_eq [simp]:
  "status_value s = ''inprogress'' \<longleftrightarrow> s = IN_PROGRESS"
  "status_value s = ''completed'' \<longleftrightarrow> s = COMPLETED"
  "status_value s = ''failed'' \<longleftrightarrow> s = FAILED"
  by (cases s; simp)+

lemma entity_status_value_eq [simp]:
  "entity_status_value s = ''completed'' \<longleftrightarrow> s = E_COMPLETED"
  "entity_status_value s = ''not_synced'' \<longleftrightarrow> s = E_NOT_SYNCED"
  "entity_status_value s = ''inrerun'' \<longleftrightarrow> s = E_IN_RERUN"
  by (cases s; simp)+

section \<open>Exceptions\<close>

text \<open>
  \<open>QueryFailedError\<close> is the exception TypeORM raises for a failed statement, with the code of
  the database; \<open>OtherError\<close> is any exception of a library the sources do not contain.
\<close>

datatype js_error =
    QueryFailedError "string option"
  | OtherError string
  | TypeError
  | TransactionFailureError
  | ExceededNumberOfRetriesError string int
  | SyncAlreadyExistsError string
  | FullSyncAlreadyExistsError int geometry_type string
  | RerunAlreadyExistsError string
  | SyncNotFoundError string
  | LatestSyncNotFoundError int geometry_type
  | InvalidSyncForRerunError string "(status \<times> string) option"
  | FileAlreadyExistsError "string list"
  | DuplicateFilesError "string list"
  | FileNotFoundError string
  | ConflictingRerunFileError string
  | EntityAlreadyExistsError "string list"
  | DuplicateEntityError "string list"
  | EntityNotFoundError "string option"
  | ChangesetAlreadyExistsError string
  | ChangesetNotFoundError string
  | DelayedError
  | TimeoutError nat

text \<open>\<open>LatestSyncNotFoundError\<close> is the second use of the class \<open>SyncNotFoundError\<close>.\<close>

fun is_sync_not_found :: "js_error \<Rightarrow> bool" where
  "is_sync_not_found (SyncNotFoundError _) = True"
| "is_sync_not_found (LatestSyncNotFoundError _ _) = True"
| "is_sync_not_found _ = False"

section \<open>Answers of the request handlers\<close>

text \<open>
  A handler either sends a status with a body, or passes the error, possibly with a status it
  attached, to the error middleware.
\<close>

datatype 'b response = Send int 'b | Next js_error "int option"

definition OK :: int where "OK = 200"
definition CREATED :: int where "CREATED = 201"
definition NOT_FOUND :: int where "NOT_FOUND = 404"
definition CONFLICT :: int where "CONFLICT = 409"

lemmas http_codes = OK_def CREATED_def NOT_FOUND_def CONFLICT_def

text \<open>Dates are milliseconds since the epoch.\<close>

type_synonym date = int

section \<open>JSON values of \<open>sync.metadata\<close>\<close>

datatype json = JNull | JBool bool | JNum int | JStr string | JArr "json list"
  | JObj "(string \<times> json) list"

type_synonym json_object = "(string \<times> json) list"

text \<open>
  Object spread \<open>{ ...a, ...b }\<close>: the properties of \<open>a\<close>, then each property of \<open>b\<close> assigned.
  An assignment overwrites in place or appends; spreading \<open>null\<close> or \<open>undefined\<close> adds nothing.
\<close>

fun set_property :: "string \<Rightarrow> 'v \<Rightarrow> (string \<times> 'v) list \<Rightarrow> (string \<times> 'v) list" where
  "set_property k v [] = [(k, v)]"
| "set_property k v ((k', v') # ps) =
     (if k' = k then (k, v) # ps else (k', v') # set_property k v ps)"

definition spread :: "(string \<times> 'v) list \<Rightarrow> (string \<times> 'v) list \<Rightarrow> (string \<times> 'v) list" where
  "spread a b = fold (\<lambda>(k, v). set_property k v) b a"

lemma map_of_set_property [simp]: "map_of (set_property k v ps) = (map_of ps)(k \<mapsto> v)"
  by (induction ps) (auto simp: fun_eq_iff)

lemma map_of_spread:
  "map_of (spread a b) = map_of a ++ map_of (rev b)"
proof (induction b arbitrary: a)
  case Nil
  then show ?case by (simp add: spread_def)
next
  case (Cons p b)
  obtain k v where "p = (k, v)" by (cases p)
  with Cons [of "set_property k v a"] show ?case
    by (simp add: spread_def map_add_def fun_eq_iff split: option.splits)
qed

lemma map_of_rev_distinct: "distinct (map fst b) \<Longrightarrow> map_of (rev b) = map_of b"
  by (rule map_of_eqI) (auto simp: rev_map [symmetric] map_of_eq_Some_iff)

lemma keys_set_property: "fst ` set (set_property k v ps) = insert k (fst ` set ps)"
proof (induction ps)
  case Nil
  then show ?case by simp
next
  case (Cons p ps)
  then show ?case by (cases p) (simp add: insert_commute)
qed

lemma distinct_set_property:
  "distinct (map fst ps) \<Longrightarrow> distinct (map fst (set_property k v ps))"
proof (induction ps)
  case Nil
  then show ?case by simp
next
  case (Cons p ps)
  then show ?case by (cases p) (auto simp: keys_set_property)
qed

end
