(* ===== verification/Utils.thy ===== *)
theory Utils
  imports Complex_Main Domain "HOL-Library.Multiset" "HOL-Library.Char_ord" "HOL-Library.List_Lexorder"
begin

text \<open>
  \<^verbatim>\<open>src/src/common/utils\<close>.
\<close>

section \<open>retryFunctionWrapper.ts\<close>

text \<open>
  The loop \<open>for (let i = 0; i <= numberOfRetries; i++)\<close>.  \<open>retryable e\<close> is
  \<open>error instanceof retryErrorType\<close>; each call of \<open>func\<close> is one statement.
\<close>

function retry_from ::
  "int \<Rightarrow> (js_error \<Rightarrow> bool) \<Rightarrow> string \<Rightarrow> (js_error, 's, 'a) stmt \<Rightarrow> int \<Rightarrow> (js_error, 's, 'a) prog" where
  "retry_from numberOfRetries retryable name func i =
     (if i \<le> numberOfRetries
      then attempt func (\<lambda>r. case r of
             Inr x \<Rightarrow> return x
           | Inl e \<Rightarrow> if \<not> retryable e then throw e
               else retry_from numberOfRetries retryable name func (i + 1))
      else throw (ExceededNumberOfRetriesError name numberOfRetries))"
  by pat_completeness auto
termination
  by (relation "measure (\<lambda>(n, _, _, _, i). nat (n + 1 - i))") auto

declare retry_from.simps [simp del]

definition retryFunctionWrapper ::
  "int \<Rightarrow> (js_error \<Rightarrow> bool) \<Rightarrow> string \<Rightarrow> (js_error, 's, 'a) stmt \<Rightarrow> (js_error, 's, 'a) prog" where
  "retryFunctionWrapper numberOfRetries retryable name func =
     retry_from numberOfRetries retryable name func 0"

text \<open>The state after \<open>k\<close> calls, and whether the next call is followed by another.\<close>

definition after_calls :: "(js_error, 's, 'a) stmt \<Rightarrow> nat \<Rightarrow> 's \<Rightarrow> 's" where
  "after_calls func k = ((\<lambda>s. snd (func s)) ^^ k)"

fun retried :: "(js_error \<Rightarrow> bool) \<Rightarrow> js_error + 'a \<Rightarrow> bool" where
  "retried retryable (Inl e) = retryable e"
| "retried retryable (Inr x) = False"

lemma after_calls_0 [simp]: "after_calls func 0 s = s"
  by (simp add: after_calls_def)

lemma after_calls_Suc: "after_calls func (Suc k) s = after_calls func k (snd (func s))"
  by (simp add: after_calls_def funpow_Suc_right del: funpow.simps)

lemma run_retry_from:
  "run (retry_from n retryable name func i) s =
    (case find (\<lambda>m. \<not> retried retryable (fst (func (after_calls func m s)))) [0..<nat (n + 1 - i)] of
       Some m \<Rightarrow> func (after_calls func m s)
     | None \<Rightarrow> (Inl (ExceededNumberOfRetriesError name n), after_calls func (nat (n + 1 - i)) s))"
proof (induction "nat (n + 1 - i)" arbitrary: i s)
  case 0
  then show ?case by (simp add: retry_from.simps)
next
  case (Suc k)
  then have le: "i \<le> n" and k: "k = nat (n + 1 - (i + 1))" and n: "nat (n + 1 - i) = Suc k" by simp_all
  obtain r t where f: "func s = (r, t)" by fastforce
  have shift: "find P [0..<Suc k] = (if P 0 then Some 0 else map_option Suc (find (P \<circ> Suc) [0..<k]))"
    for P :: "nat \<Rightarrow> bool"
  proof -
    have "[0..<Suc k] = 0 # map Suc [0..<k]" by (simp add: upt_conv_Cons map_Suc_upt del: upt_Suc)
    moreover have "find P (map Suc xs) = map_option Suc (find (P \<circ> Suc) xs)" for xs
      by (induction xs) simp_all
    ultimately show ?thesis by simp
  qed
  show ?case
  proof (cases "retried retryable r")
    case False
    then show ?thesis
      using le f by (subst retry_from.simps) (auto simp: n shift simp del: upt_Suc split: sum.splits)
  next
    case True
    then obtain e where r: "r = Inl e" "retryable e" by (cases r) auto
    show ?thesis
      using Suc.hyps(1) [OF k, of t, folded k] le f r
      by (subst retry_from.simps)
        (auto simp: n shift comp_def after_calls_Suc simp del: upt_Suc split: option.splits)
  qed
qed

section \<open>index.ts\<close>

text \<open>
  \<open>convertObjectToCased\<close>: \<open>transform\<close> and the two case functions are lodash's.
\<close>

definition convertObjectToCased ::
  "((string \<times> 'v) list \<Rightarrow> ((string \<times> 'v) list \<Rightarrow> 'v \<Rightarrow> string \<Rightarrow> (string \<times> 'v) list) \<Rightarrow>
      (string \<times> 'v) list \<Rightarrow> (string \<times> 'v) list) \<Rightarrow>
    (string \<Rightarrow> string) \<Rightarrow> (string \<times> 'v) list \<Rightarrow> (string \<times> 'v) list" where
  "convertObjectToCased transform fn obj =
     transform obj (\<lambda>result value key. set_property (fn key) value result) []"

text \<open>\<open>transform\<close> passes every property of the object, in order, to the function.\<close>

definition transform_ok ::
  "((string \<times> 'v) list \<Rightarrow> ((string \<times> 'v) list \<Rightarrow> 'v \<Rightarrow> string \<Rightarrow> (string \<times> 'v) list) \<Rightarrow>
      (string \<times> 'v) list \<Rightarrow> (string \<times> 'v) list) \<Rightarrow> bool" where
  "transform_ok transform \<longleftrightarrow> (\<forall>obj f acc. transform obj f acc = fold (\<lambda>(k, v) a. f a v k) obj acc)"

lemma convertObjectToCased_eq:
  assumes "transform_ok transform"
  shows "convertObjectToCased transform fn obj = spread [] (map (\<lambda>(k, v). (fn k, v)) obj)"
proof -
  have "fold (\<lambda>(k, v) a. set_property (fn k) v a) obj acc =
      fold (\<lambda>(k, v). set_property k v) (map (\<lambda>(k, v). (fn k, v)) obj) acc" for acc
    by (induction obj arbitrary: acc) auto
  with assms show ?thesis
    by (simp add: convertObjectToCased_def transform_ok_def spread_def)
qed

text \<open>
  \<open>input.sort(...)\<close> sorts the array in place, so the caller's array is sorted too: \<open>hashBatch\<close>
  returns the digest and the array as it is left.  The comparison and the digest are library
  functions; the sort is stable.
\<close>

fun insert_by :: "('a \<Rightarrow> 'a \<Rightarrow> int) \<Rightarrow> 'a \<Rightarrow> 'a list \<Rightarrow> 'a list" where
  "insert_by cmp x [] = [x]"
| "insert_by cmp x (y # ys) = (if cmp x y \<le> 0 then x # y # ys else y # insert_by cmp x ys)"

definition js_sort :: "('a \<Rightarrow> 'a \<Rightarrow> int) \<Rightarrow> 'a list \<Rightarrow> 'a list" where
  "js_sort cmp xs = foldr (insert_by cmp) xs []"

definition hashBatch ::
  "(string \<Rightarrow> string \<Rightarrow> int) \<Rightarrow> (string \<Rightarrow> string) \<Rightarrow> string list \<Rightarrow> string \<times> string list" where
  "hashBatch localeCompare sha256 input =
     (let sorted = js_sort localeCompare input in (sha256 (concat sorted), sorted))"

text \<open>A comparison that orders the strings: what the sort needs to depend on the elements only.\<close>

definition total_comparison :: "('a \<Rightarrow> 'a \<Rightarrow> int) \<Rightarrow> bool" where
  "total_comparison cmp \<longleftrightarrow>
     (\<forall>x y. cmp x y \<le> 0 \<or> cmp y x \<le> 0) \<and>
     (\<forall>x y z. cmp x y \<le> 0 \<longrightarrow> cmp y z \<le> 0 \<longrightarrow> cmp x z \<le> 0) \<and>
     (\<forall>x y. cmp x y \<le> 0 \<longrightarrow> cmp y x \<le> 0 \<longrightarrow> x = y)"

lemma set_insert_by [simp]: "set (insert_by cmp x ys) = insert x (set ys)"
  by (induction ys) auto

lemma length_insert_by [simp]: "length (insert_by cmp x ys) = Suc (length ys)"
  by (induction ys) auto

lemma js_sort_simps [simp]: "js_sort cmp [] = []" "js_sort cmp (x # xs) = insert_by cmp x (js_sort cmp xs)"
  by (simp_all add: js_sort_def)

lemma set_js_sort [simp]: "set (js_sort cmp xs) = set xs"
  by (induction xs) simp_all

lemma length_js_sort [simp]: "length (js_sort cmp xs) = length xs"
  by (induction xs) simp_all

lemma sorted_insert_by:
  assumes "total_comparison cmp" and "sorted_wrt (\<lambda>x y. cmp x y \<le> 0) ys"
  shows "sorted_wrt (\<lambda>x y. cmp x y \<le> 0) (insert_by cmp x ys)"
  using assms(2)
proof (induction ys)
  case Nil
  then show ?case by simp
next
  case (Cons y ys)
  from assms(1) have "cmp x y \<le> 0 \<or> cmp y x \<le> 0"
    and "\<And>z. cmp x y \<le> 0 \<Longrightarrow> cmp y z \<le> 0 \<Longrightarrow> cmp x z \<le> 0"
    unfolding total_comparison_def by blast+
  with Cons show ?case by auto
qed

lemma sorted_js_sort:
  "total_comparison cmp \<Longrightarrow> sorted_wrt (\<lambda>x y. cmp x y \<le> 0) (js_sort cmp xs)"
  by (induction xs) (simp_all add: sorted_insert_by)

lemma mset_js_sort [simp]: "mset (js_sort cmp xs) = mset xs"
proof -
  have "mset (insert_by cmp x ys) = add_mset x (mset ys)" for x ys
    by (induction ys) auto
  then show ?thesis by (induction xs) simp_all
qed

lemma insert_by_commute:
  assumes "total_comparison cmp"
  shows "insert_by cmp x (insert_by cmp y zs) = insert_by cmp y (insert_by cmp x zs)"
proof (induction zs)
  case Nil
  show ?case using assms unfolding total_comparison_def by auto
next
  case (Cons z zs)
  from assms have total: "\<And>a b. cmp a b \<le> 0 \<or> cmp b a \<le> 0"
    and trans: "\<And>a b c. cmp a b \<le> 0 \<Longrightarrow> cmp b c \<le> 0 \<Longrightarrow> cmp a c \<le> 0"
    and antisym: "\<And>a b. cmp a b \<le> 0 \<Longrightarrow> cmp b a \<le> 0 \<Longrightarrow> a = b"
    unfolding total_comparison_def by blast+
  show ?case
    using total [of x y] total [of x z] total [of y z] trans [of x y z] trans [of y x z]
      antisym [of x y] Cons.IH
    by auto
qed

lemma js_sort_perm:
  assumes "total_comparison cmp" and "mset xs = mset ys"
  shows "js_sort cmp xs = js_sort cmp ys"
proof -
  have "fold (insert_by cmp) (rev xs) = fold (insert_by cmp) (rev ys)"
    by (rule fold_multiset_equiv)
      (use assms in \<open>auto simp: fun_eq_iff insert_by_commute\<close>)
  then show ?thesis by (simp add: js_sort_def foldr_conv_fold)
qed

text \<open>The order of JavaScript's strings by code units is such a comparison.\<close>

definition compare_code_units :: "string \<Rightarrow> string \<Rightarrow> int" where
  "compare_code_units x y = (if x < y then -1 else if x = y then 0 else 1)"

lemma compare_code_units_total: "total_comparison compare_code_units"
  by (auto simp: total_comparison_def compare_code_units_def split: if_splits)

text \<open>Strings of one length can be read off their concatenation.\<close>

lemma concat_fixed_length:
  assumes "concat xs = concat ys" and "0 < n" and "\<forall>x \<in> set xs \<union> set ys. length x = n"
  shows "xs = ys"
  using assms
proof (induction xs arbitrary: ys)
  case Nil
  then show ?case by (cases ys) auto
next
  case (Cons x xs)
  then obtain y ys' where "ys = y # ys'" by (cases ys) auto
  with Cons show ?case by auto
qed

text \<open>A random integer between \<open>lo\<close> and \<open>hi\<close>; \<open>rnd\<close> is the value of \<open>Math.random()\<close>, at least 0 and less than 1.\<close>

definition randomIntFromInterval :: "real \<Rightarrow> int \<Rightarrow> int \<Rightarrow> int" where
  "randomIntFromInterval rnd lo hi =
     (if lo \<noteq> hi then \<lfloor>rnd * of_int (hi - lo + 1)\<rfloor> + lo else lo)"

lemma random_bounds:
  assumes "0 \<le> rnd" and "rnd < 1" and "lo \<le> hi"
  shows "lo \<le> randomIntFromInterval rnd lo hi \<and> randomIntFromInterval rnd lo hi \<le> hi"
proof -
  let ?n = "of_int (hi - lo + 1) :: real"
  have n: "0 < ?n" using assms(3) by (simp only: of_int_0_less_iff)
  then have "0 \<le> rnd * ?n" and "rnd * ?n < ?n" using assms by (simp_all add: less_le)
  then have "0 \<le> \<lfloor>rnd * ?n\<rfloor>" and "\<lfloor>rnd * ?n\<rfloor> \<le> hi - lo"
    by (simp_all add: floor_le_iff)
  then show ?thesis by (simp add: randomIntFromInterval_def)
qed

lemma random_attained:
  assumes "lo \<le> k" and "k \<le> hi"
  shows "\<exists>rnd. 0 \<le> rnd \<and> rnd < 1 \<and> randomIntFromInterval rnd lo hi = k"
proof (intro exI conjI)
  let ?n = "of_int (hi - lo + 1) :: real"
  have n: "0 < ?n" using assms by (simp only: of_int_0_less_iff)
  let ?rnd = "of_int (k - lo) / ?n"
  show "0 \<le> ?rnd" using assms n by simp
  show "?rnd < 1" using assms n by (simp add: divide_less_eq_1)
  show "randomIntFromInterval ?rnd lo hi = k"
    using n assms by (simp add: randomIntFromInterval_def)
qed

section \<open>Properties\<close>

text \<open>
  C31: the retry wrapper calls the function until it returns, or throws an error that is not
  to be retried, and passes that outcome on; after \<open>numberOfRetries + 1\<close> calls without either it
  throws.  It always ends, and calls the function on the state the previous call left.
\<close>

theorem retryFunctionWrapper_outcome:
  fixes func :: "(js_error, 's, 'a) stmt"
  defines "after k s \<equiv> ((\<lambda>s. snd (func s)) ^^ k) s"
  shows "run (retryFunctionWrapper n retryable name func) s =
    (case find (\<lambda>k. case fst (func (after k s)) of Inr x \<Rightarrow> True | Inl e \<Rightarrow> \<not> retryable e)
        [0..<nat (n + 1)] of
       Some k \<Rightarrow> func (after k s)
     | None \<Rightarrow> (Inl (ExceededNumberOfRetriesError name n), after (nat (n + 1)) s))"
proof -
  have stops: "(\<not> retried retryable r) = (case r of Inr x \<Rightarrow> True | Inl e \<Rightarrow> \<not> retryable e)" for r :: "js_error + 'a"
    by (cases r) simp_all
  show ?thesis
    unfolding retryFunctionWrapper_def run_retry_from after_calls_def after_def stops
    by (simp only: diff_zero)
qed

text \<open>
  C32: the identifier of a batch.  It does not depend on the order of the identifiers in the
  batch, and for identifiers of one length (uuids) two batches have the same identifier exactly
  when they hold the same identifiers, as long as the digest tells the two concatenations apart.
\<close>

theorem hashBatch_identifies:
  assumes cmp: "total_comparison cmp"
    and len: "0 < n" "\<forall>x \<in> set xs \<union> set ys. length x = n"
    and digest: "inj_on sha {concat (snd (hashBatch cmp sha xs)), concat (snd (hashBatch cmp sha ys))}"
  shows "fst (hashBatch cmp sha xs) = fst (hashBatch cmp sha ys) \<longleftrightarrow> mset xs = mset ys"
proof
  assume "mset xs = mset ys"
  from js_sort_perm [OF cmp this] show "fst (hashBatch cmp sha xs) = fst (hashBatch cmp sha ys)"
    by (simp add: hashBatch_def Let_def)
next
  have parts: "fst (hashBatch cmp sha zs) = sha (concat (js_sort cmp zs))"
    "snd (hashBatch cmp sha zs) = js_sort cmp zs" for zs
    by (simp_all add: hashBatch_def Let_def)
  assume "fst (hashBatch cmp sha xs) = fst (hashBatch cmp sha ys)"
  then have "sha (concat (js_sort cmp xs)) = sha (concat (js_sort cmp ys))"
    unfolding parts .
  then have "concat (js_sort cmp xs) = concat (js_sort cmp ys)"
    by (rule inj_onD [OF digest [unfolded parts]]) simp_all
  then have "js_sort cmp xs = js_sort cmp ys"
    using len by (intro concat_fixed_length [of _ _ n]) auto
  then show "mset xs = mset ys" by (metis mset_js_sort)
qed

theorem hashBatch_identifies_witness:
  "fst (hashBatch compare_code_units id [''b1'', ''a1'']) = fst (hashBatch compare_code_units id [''a1'', ''b1'']) \<and>
   fst (hashBatch compare_code_units id [''b1'', ''a1'']) \<noteq> fst (hashBatch compare_code_units id [''a1'', ''a1''])"
proof
  have len: "(0::nat) < 2" "\<forall>x \<in> set [''b1'', ''a1''] \<union> set [''a1'', ''b1'']. length x = 2"
    "\<forall>x \<in> set [''b1'', ''a1''] \<union> set [''a1'', ''a1'']. length x = 2" by simp_all
  note same = hashBatch_identifies [OF compare_code_units_total len(1) len(2) inj_on_id]
  note other = hashBatch_identifies [OF compare_code_units_total len(1) len(3) inj_on_id]
  show "fst (hashBatch compare_code_units id [''b1'', ''a1'']) = fst (hashBatch compare_code_units id [''a1'', ''b1''])"
    unfolding same by (simp add: add_mset_commute)
  show "fst (hashBatch compare_code_units id [''b1'', ''a1'']) \<noteq> fst (hashBatch compare_code_units id [''a1'', ''a1''])"
    unfolding other by simp
qed

end
