(* ===== verification/Queue_Provider.thy ===== *)
theory Queue_Provider
  imports Utils
begin

text \<open>
  \<^verbatim>\<open>src/src/queueProvider\<close>: the data of a job (\<^verbatim>\<open>types.ts\<close>, \<^verbatim>\<open>helpers.ts\<close>), the provider of a
  queue (\<^verbatim>\<open>queues/bullQueueProvider.ts\<close>) and the interface \<open>JobQueueProvider\<close> its clients use.
  BullMQ is not part of the sources: the record \<open>bullmq\<close> holds the functions that are called, each
  one a statement on the state of the queue.
\<close>

section \<open>Jobs\<close>

datatype closure_kind = ChangesetClosure | FileClosure | SyncClosure

record job_data =
  j_id :: string
  j_kind :: closure_kind
  j_batchIds :: "string list option"
  j_counters :: "(string \<times> int) list"

definition closure_job :: "closure_kind \<Rightarrow> string \<Rightarrow> job_data" where
  "closure_job kind i = \<lparr>j_id = i, j_kind = kind, j_batchIds = None, j_counters = []\<rparr>"

datatype counter_kind = Deduplication | TransactionFailure

fun getCounterKey :: "counter_kind \<Rightarrow> string" where
  "getCounterKey Deduplication = ''deduplicationCount''"
| "getCounterKey TransactionFailure = ''transactionFailureCount''"

definition incrementJobCounter :: "job_data \<Rightarrow> counter_kind \<Rightarrow> job_data" where
  "incrementJobCounter data counterKind =
     (let key = getCounterKey counterKind;
          previousCount = (case map_of (j_counters data) key of Some n \<Rightarrow> n | None \<Rightarrow> 0)
      in data\<lparr>j_counters := set_property key (previousCount + 1) (j_counters data)\<rparr>)"

section \<open>Options, and the functions of BullMQ\<close>

record queue_options =
  enabledBatchJobs :: bool
  maxBatchSize :: "int option"

record job_options =
  deduplicationDelay :: "int option"
  deduplicationTtl :: "int option"
  otherOptions :: "(string \<times> json) list"

text \<open>What is handed to \<open>queue.add\<close>: the name, the data and the options with the deduplication.\<close>

record added_job =
  a_name :: string
  a_data :: job_data
  a_options :: job_options
  a_deduplicationId :: string
  a_deduplicationTtl :: "int option"

record 'q bullmq =
  bq_add :: "added_job \<Rightarrow> (js_error, 'q, unit) stmt"
  bq_addBulk :: "added_job list \<Rightarrow> (js_error, 'q, unit) stmt"
  bq_getJob :: "string \<Rightarrow> (js_error, 'q, job_data option) stmt"
  bq_isDelayed :: "string \<Rightarrow> (js_error, 'q, bool) stmt"
  bq_changeDelay :: "string \<Rightarrow> int \<Rightarrow> (js_error, 'q, unit) stmt"
  bq_updateData :: "string \<Rightarrow> job_data \<Rightarrow> (js_error, 'q, unit) stmt"
  bq_moveToDelayed :: "string \<Rightarrow> int \<Rightarrow> (js_error, 'q, unit) stmt"

text \<open>A provider: its options and the library functions \<open>hashBatch\<close> uses.\<close>

record provider =
  queueOptions :: queue_options
  jobOptions :: job_options
  compareIds :: "string \<Rightarrow> string \<Rightarrow> int"
  sha256 :: "string \<Rightarrow> string"

section \<open>The provider\<close>

definition added :: "provider \<Rightarrow> job_data \<Rightarrow> added_job" where
  "added p job = \<lparr>a_name = j_id job, a_data = job, a_options = jobOptions p,
     a_deduplicationId = j_id job, a_deduplicationTtl = deduplicationTtl (jobOptions p)\<rparr>"

definition addJob :: "'q bullmq \<Rightarrow> provider \<Rightarrow> job_data \<Rightarrow> (js_error, 'q, unit) stmt" where
  "addJob bq p job = bq_add bq (added p job)"

definition addBulk :: "'q bullmq \<Rightarrow> provider \<Rightarrow> job_data list \<Rightarrow> (js_error, 'q, unit) stmt" where
  "addBulk bq p bulk = bq_addBulk bq (map (added p) bulk)"

text \<open>\<open>slice(i, j)\<close> of JavaScript: negative bounds count from the end.\<close>

definition slice_index :: "int \<Rightarrow> int \<Rightarrow> nat" where
  "slice_index len i = nat (if i < 0 then max (len + i) 0 else min i len)"

definition js_slice :: "'a list \<Rightarrow> int \<Rightarrow> int \<Rightarrow> 'a list" where
  "js_slice xs i j = (let len = int (length xs); a = slice_index len i; b = slice_index len j
     in take (b - a) (drop a xs))"

text \<open>
  One iteration of the loop in \<open>push\<close>: the batch job has the properties of the first job of the
  whole request, and the identifiers as \<open>hashBatch\<close> leaves them.
\<close>

definition batch_job :: "provider \<Rightarrow> job_data list \<Rightarrow> string list \<Rightarrow> job_data" where
  "batch_job p jobs batchIds =
     (case hashBatch (compareIds p) (sha256 p) batchIds of
        (batchId, sortedIds) \<Rightarrow> (hd jobs)\<lparr>j_id := batchId, j_batchIds := Some sortedIds\<rparr>)"

text \<open>\<open>for (let i = 0; i < jobs.length; i += maxBatchSize)\<close>; \<open>None\<close> when it does not end.\<close>

partial_function (option) batches ::
  "provider \<Rightarrow> int \<Rightarrow> job_data list \<Rightarrow> int \<Rightarrow> job_data list option" where
  "batches p m jobs i =
     (if i < int (length jobs)
      then Option.bind (batches p m jobs (i + m)) (\<lambda>rest.
        Some (batch_job p jobs (map j_id (js_slice jobs i (i + m))) # rest))
      else Some [])"

text \<open>
  When \<open>maxBatchSize\<close> is undefined, \<open>i + maxBatchSize\<close> is not a number: the slice is empty and the
  loop ends after its first iteration.
\<close>

definition bulk_of :: "provider \<Rightarrow> job_data list \<Rightarrow> job_data list option" where
  "bulk_of p jobs =
     (case maxBatchSize (queueOptions p) of
        Some m \<Rightarrow> batches p m jobs 0
      | None \<Rightarrow> Some (if jobs = [] then [] else [batch_job p jobs []]))"

definition push ::
  "'q bullmq \<Rightarrow> provider \<Rightarrow> job_data list \<Rightarrow> (js_error, 'q, unit) prog option" where
  "push bq p jobs =
     (if length jobs = 1 then Some (await (addJob bq p (hd jobs)) (\<lambda>_. return ()))
      else if \<not> enabledBatchJobs (queueOptions p)
      then Some (await (addBulk bq p jobs) (\<lambda>_. return ()))
      else map_option (\<lambda>bulk. await (addBulk bq p bulk) (\<lambda>_. return ())) (bulk_of p jobs))"

text \<open>
  \<open>changeJobDelay\<close>: every error is caught; a job that is no longer delayed is added again.
\<close>

definition changeJobDelay ::
  "'q bullmq \<Rightarrow> provider \<Rightarrow> string \<Rightarrow> int \<Rightarrow> (js_error, 'q, unit) prog" where
  "changeJobDelay bq p jobId delay =
     (let readd = (\<lambda>job. attempt (addJob bq p job) (\<lambda>_. return ()))
      in attempt (bq_getJob bq jobId) (\<lambda>r. case r of
           Inl _ \<Rightarrow> return ()
         | Inr None \<Rightarrow> return ()
         | Inr (Some job) \<Rightarrow> attempt (bq_isDelayed bq jobId) (\<lambda>r. case r of
             Inl _ \<Rightarrow> readd job
           | Inr isDelayed \<Rightarrow>
               if \<not> isDelayed then readd job
               else attempt (bq_changeDelay bq jobId delay) (\<lambda>r. case r of
                   Inl _ \<Rightarrow> readd job
                 | Inr _ \<Rightarrow> attempt (bq_updateData bq jobId (incrementJobCounter job Deduplication))
                     (\<lambda>_. return ())))))"

section \<open>Batches\<close>

text \<open>The partition of a list in pieces of \<open>m\<close> elements, the last one shorter.\<close>

function chunks :: "nat \<Rightarrow> 'a list \<Rightarrow> 'a list list" where
  "chunks m xs = (if xs = [] \<or> m = 0 then [] else take m xs # chunks m (drop m xs))"
  by pat_completeness auto
termination by (relation "measure (length \<circ> snd)") auto

declare chunks.simps [simp del]

lemma concat_chunks: "0 < m \<Longrightarrow> concat (chunks m xs) = xs"
  by (induction m xs rule: chunks.induct) (subst chunks.simps, simp)

lemma chunks_size:
  assumes "c \<in> set (chunks m xs)"
  shows "c \<noteq> [] \<and> length c \<le> m"
  using assms
proof (induction m xs rule: chunks.induct)
  case (1 m xs)
  then show ?case by (subst (asm) (2) chunks.simps) (auto split: if_splits)
qed

lemma slice_step:
  assumes "0 < m" and "0 \<le> i" and "i < int (length xs)"
  shows "js_slice xs i (i + m) = take (nat m) (drop (nat i) xs)"
proof -
  have "slice_index (int (length xs)) i = nat i"
    using assms by (simp add: slice_index_def)
  moreover have "slice_index (int (length xs)) (i + m) = min (nat i + nat m) (length xs)"
    using assms by (auto simp: slice_index_def min_def nat_add_distrib)
  moreover have "take (min (nat i + nat m) (length xs) - nat i) (drop (nat i) xs) =
      take (nat m) (drop (nat i) xs)"
    by (cases "nat i + nat m \<le> length xs") (simp_all add: min_def)
  ultimately show ?thesis by (simp add: js_slice_def)
qed

lemma batches_chunks:
  assumes "0 < m" and "0 \<le> i"
  shows "batches p m jobs i =
    Some (map (\<lambda>c. batch_job p jobs (map j_id c)) (chunks (nat m) (drop (nat i) jobs)))"
  using assms(2)
proof (induction "nat (int (length jobs) - i)" arbitrary: i rule: less_induct)
  case less
  show ?case
  proof (cases "i < int (length jobs)")
    case False
    then show ?thesis by (simp add: batches.simps chunks.simps)
  next
    case True
    have "batches p m jobs (i + m) =
        Some (map (\<lambda>c. batch_job p jobs (map j_id c)) (chunks (nat m) (drop (nat (i + m)) jobs)))"
      using less True assms(1) by (intro less.hyps) auto
    moreover have "drop (nat (i + m)) jobs = drop (nat m) (drop (nat i) jobs)"
      using less.prems assms(1) by (simp add: nat_add_distrib add.commute)
    moreover have "drop (nat i) jobs \<noteq> []" using True less.prems by simp
    ultimately show ?thesis
      using True assms(1) less.prems
      by (subst batches.simps, subst chunks.simps) (simp add: slice_step)
  qed
qed

lemma batches_diverge:
  assumes "m \<le> 0" and "i < int (length jobs)"
  shows "batches p m jobs i = None"
proof -
  have "\<not> (m \<le> 0 \<and> i < int (length jobs))" if "batches p m jobs i = Some r" for p m jobs i r
    by (rule batches.raw_induct [where P = "\<lambda>p m jobs i r. \<not> (m \<le> 0 \<and> i < int (length jobs))",
          OF _ that])
      (fastforce split: if_splits Option.bind_splits)
  with assms show ?thesis by (cases "batches p m jobs i") auto
qed

section \<open>Properties\<close>

lemma length_chunks: "0 < m \<Longrightarrow> length (chunks m xs) = (length xs + m - 1) div m"
proof (induction m xs rule: chunks.induct)
  case (1 m xs)
  show ?case
  proof (cases "xs = []")
    case True
    then show ?thesis using "1.prems" by (simp add: chunks.simps [of m "[]"])
  next
    case False
    then have "chunks m xs = take m xs # chunks m (drop m xs)"
      using "1.prems" by (subst chunks.simps) simp
    then have step: "length (chunks m xs) = Suc ((length (drop m xs) + m - 1) div m)"
      using "1.IH" "1.prems" False by simp
    show ?thesis
    proof (cases "length xs \<le> m")
      case True
      moreover have "(length xs + m - 1) div m = 1"
      proof (rule div_nat_eqI)
        show "m * 1 \<le> length xs + m - 1" using False by (cases xs) simp_all
        show "length xs + m - 1 < m * Suc 1" using True "1.prems" by simp
      qed
      ultimately show ?thesis using step "1.prems" by simp
    next
      case False
      have "length xs + m - 1 = (length (drop m xs) + m - 1) + m"
        using False "1.prems" by (simp only: length_drop)
      then have "(length xs + m - 1) div m = Suc ((length (drop m xs) + m - 1) div m)"
        using "1.prems" div_add_self2 [of m] by (metis Suc_eq_plus1 not_gr_zero)
      then show ?thesis using step by (simp only:)
    qed
  qed
qed

text \<open>
  C24: with batching enabled and a positive batch size, a push of several jobs adds one bulk: the
  identifiers are cut, in order, in as few groups of at most \<open>maxBatchSize\<close> as there can be, and
  each group is one job that carries its identifiers, sorted, under the hash of the group.
\<close>

theorem push_batches:
  assumes "enabledBatchJobs (queueOptions p)" and "maxBatchSize (queueOptions p) = Some m" and "0 < m"
    and "length jobs \<noteq> 1"
  shows "\<exists>groups bulk. push bq p jobs = Some (await (addBulk bq p bulk) (\<lambda>_. return ())) \<and>
    concat groups = map j_id jobs \<and>
    length groups = (length jobs + nat m - 1) div nat m \<and>
    (\<forall>g \<in> set groups. g \<noteq> [] \<and> length g \<le> nat m) \<and>
    map j_batchIds bulk = map (\<lambda>g. Some (js_sort (compareIds p) g)) groups \<and>
    map j_id bulk = map (\<lambda>g. sha256 p (concat (js_sort (compareIds p) g))) groups \<and>
    (\<forall>job \<in> set bulk. j_kind job = j_kind (hd jobs))"
proof -
  let ?cs = "chunks (nat m) jobs"
  let ?bulk = "map (\<lambda>c. batch_job p jobs (map j_id c)) ?cs"
  have m: "0 < nat m" using assms(3) by simp
  have "bulk_of p jobs = Some ?bulk"
    using assms(2,3) by (simp add: bulk_of_def batches_chunks)
  then have "push bq p jobs = Some (await (addBulk bq p ?bulk) (\<lambda>_. return ()))"
    using assms(1,4) by (simp add: push_def)
  moreover have "concat (map (map j_id) ?cs) = map j_id jobs"
    using concat_chunks [OF m, of jobs] by (metis map_concat)
  moreover have "\<forall>g \<in> set (map (map j_id) ?cs). g \<noteq> [] \<and> length g \<le> nat m"
    using chunks_size [of _ "nat m" jobs] by auto
  moreover have "length (map (map j_id) ?cs) = (length jobs + nat m - 1) div nat m"
    using length_chunks [OF m] by simp
  moreover have "map j_batchIds ?bulk = map (\<lambda>g. Some (js_sort (compareIds p) g)) (map (map j_id) ?cs)"
    "map j_id ?bulk = map (\<lambda>g. sha256 p (concat (js_sort (compareIds p) g))) (map (map j_id) ?cs)"
    "\<forall>job \<in> set ?bulk. j_kind job = j_kind (hd jobs)"
    by (auto simp: batch_job_def hashBatch_def Let_def)
  ultimately show ?thesis by blast
qed

definition example_provider :: "bool \<Rightarrow> int option \<Rightarrow> provider" where
  "example_provider batching m =
     \<lparr>queueOptions = \<lparr>enabledBatchJobs = batching, maxBatchSize = m\<rparr>,
      jobOptions = \<lparr>deduplicationDelay = None, deduplicationTtl = None, otherOptions = []\<rparr>,
      compareIds = compare_code_units, sha256 = id\<rparr>"

theorem push_batches_witness:
  "\<forall>bq :: unit bullmq. \<exists>groups bulk.
    push bq (example_provider True (Some 2)) (map (closure_job FileClosure) [''b'', ''a'', ''c'']) =
      Some (await (addBulk bq (example_provider True (Some 2)) bulk) (\<lambda>_. return ())) \<and>
    concat groups = [''b'', ''a'', ''c''] \<and> length groups = 2 \<and>
    map j_batchIds bulk = map (\<lambda>g. Some (js_sort compare_code_units g)) groups"
proof
  fix bq :: "unit bullmq"
  let ?p = "example_provider True (Some 2)" and ?jobs = "map (closure_job FileClosure) [''b'', ''a'', ''c'']"
  have "enabledBatchJobs (queueOptions ?p)" "maxBatchSize (queueOptions ?p) = Some 2"
    "(0::int) < 2" "length ?jobs \<noteq> 1"
    by (simp_all add: example_provider_def)
  from push_batches [OF this, of bq] obtain groups bulk where
    "push bq ?p ?jobs = Some (await (addBulk bq ?p bulk) (\<lambda>_. return ()))"
    "concat groups = map j_id ?jobs" "length groups = (length ?jobs + nat 2 - 1) div nat 2"
    "map j_batchIds bulk = map (\<lambda>g. Some (js_sort (compareIds ?p) g)) groups"
    by blast
  then show "\<exists>groups bulk. push bq ?p ?jobs = Some (await (addBulk bq ?p bulk) (\<lambda>_. return ())) \<and>
    concat groups = [''b'', ''a'', ''c''] \<and> length groups = 2 \<and>
    map j_batchIds bulk = map (\<lambda>g. Some (js_sort compare_code_units g)) groups"
    by (intro exI conjI) (simp_all add: example_provider_def closure_job_def)
qed

text \<open>
  C25: \<open>push\<close> fails to return for exactly these options and jobs: batching is enabled, the
  batch size is zero or negative, and there are at least two jobs.
\<close>

theorem push_returns_iff:
  "push bq p jobs = None \<longleftrightarrow> enabledBatchJobs (queueOptions p) \<and> 2 \<le> length jobs \<and>
    (\<exists>m. maxBatchSize (queueOptions p) = Some m \<and> m \<le> 0)"
proof (cases "enabledBatchJobs (queueOptions p) \<and> length jobs \<noteq> 1")
  case False
  then show ?thesis by (auto simp: push_def)
next
  case True
  show ?thesis
  proof (cases "maxBatchSize (queueOptions p)")
    case None
    with True show ?thesis by (simp add: push_def bulk_of_def)
  next
    case (Some m)
    have len: "2 \<le> length jobs \<longleftrightarrow> jobs \<noteq> []" using True by (cases jobs) (auto simp: neq_Nil_conv)
    have "batches p m jobs 0 = None \<longleftrightarrow> m \<le> 0 \<and> jobs \<noteq> []"
    proof (cases "0 < m")
      case True
      then show ?thesis by (simp add: batches_chunks)
    next
      case False
      then show ?thesis
        using batches_diverge [of m 0 jobs p] by (cases "jobs = []") (simp_all add: batches.simps)
    qed
    with True Some len show ?thesis by (auto simp: push_def bulk_of_def)
  qed
qed

text \<open>
  With batching enabled and no batch size, a push of several jobs adds one job without any
  of their identifiers.
\<close>

lemma push_without_size:
  assumes "enabledBatchJobs (queueOptions p)" and "maxBatchSize (queueOptions p) = None"
    and "2 \<le> length jobs"
  shows "\<exists>job. push bq p jobs = Some (await (addBulk bq p [job]) (\<lambda>_. return ())) \<and>
    j_batchIds job = Some [] \<and> j_id job = sha256 p []"
proof -
  from assms have "jobs \<noteq> []" "length jobs \<noteq> 1" by auto
  with assms(1,2) have "push bq p jobs = Some (await (addBulk bq p [batch_job p jobs []]) (\<lambda>_. return ()))"
    by (simp add: push_def bulk_of_def)
  then show ?thesis
    by (intro exI [of _ "batch_job p jobs []"]) (simp add: batch_job_def hashBatch_def Let_def)
qed

end
