(* ===== verification/Job_Queue.thy ===== *)
theory Job_Queue
  imports Queue_Provider
begin

text \<open>
  The interface \<open>JobQueueProvider\<close> as its clients see it: a pushed list of single jobs requests
  the work of every one of them, whether it is added alone, in a bulk or in batches.
\<close>

locale job_queue =
  fixes push_jobs :: "'j list \<Rightarrow> (js_error, 'q, unit) stmt"
    and single :: "'i \<Rightarrow> 'j"
    and requested :: "'q \<Rightarrow> 'i set"
    and ready :: bool
  assumes push_requests: "ready \<Longrightarrow> push_jobs (map single ks) s = (Inr u, t) \<Longrightarrow>
      requested t = requested s \<union> set ks"
    and push_fails: "ready \<Longrightarrow> push_jobs (map single ks) s = (Inl e, t) \<Longrightarrow>
      requested t = requested s"
begin

lemma push_keeps:
  assumes ready
  shows "requested s \<subseteq> requested (snd (push_jobs (map single ks) s))"
  using push_requests [OF assms, of ks s] push_fails [OF assms, of ks s]
  by (cases "push_jobs (map single ks) s"; cases "fst (push_jobs (map single ks) s)") auto

lemma push_unique:
  assumes ready and "push_jobs (map single (array_from_set ks)) s = (Inr u, t)"
  shows "requested t = requested s \<union> set ks"
  using push_requests [OF assms] by simp

lemma push_no_more:
  assumes ready
  shows "requested (snd (push_jobs (map single ks) s)) \<subseteq> requested s \<union> set ks"
  using push_requests [OF assms, of ks s] push_fails [OF assms, of ks s]
  by (cases "push_jobs (map single ks) s"; cases "fst (push_jobs (map single ks) s)") auto

end

section \<open>The provider satisfies the interface\<close>

text \<open>The identifiers a job stands for.\<close>

definition job_ids :: "job_data \<Rightarrow> string set" where
  "job_ids data = (case j_batchIds data of None \<Rightarrow> {j_id data} | Some ids \<Rightarrow> set ids)"

text \<open>
  What BullMQ promises of \<open>add\<close> and \<open>addBulk\<close>: a job that is accepted is known to the queue afterwards (a
  deduplicated one repeats a job it knows), a failed call adds nothing.
\<close>

definition requests ::
  "('q \<Rightarrow> string set) \<Rightarrow> string set \<Rightarrow> 'q \<Rightarrow> (js_error + unit) \<times> 'q \<Rightarrow> bool" where
  "requests requested ids s result \<longleftrightarrow>
     (case result of (r, t) \<Rightarrow> requested t = (case r of Inr _ \<Rightarrow> requested s \<union> ids | Inl _ \<Rightarrow> requested s))"

definition bullmq_ok :: "'q bullmq \<Rightarrow> ('q \<Rightarrow> string set) \<Rightarrow> bool" where
  "bullmq_ok bq requested \<longleftrightarrow>
     (\<forall>a s. requests requested (job_ids (a_data a)) s (bq_add bq a s)) \<and>
     (\<forall>as s. requests requested (\<Union>a \<in> set as. job_ids (a_data a)) s (bq_addBulk bq as s))"

text \<open>Options with which \<open>push\<close> returns and loses no identifier.\<close>

definition usable :: "provider \<Rightarrow> bool" where
  "usable p \<longleftrightarrow> \<not> enabledBatchJobs (queueOptions p) \<or>
     (case maxBatchSize (queueOptions p) of None \<Rightarrow> False | Some m \<Rightarrow> 0 < m)"

definition pushes :: "'q bullmq \<Rightarrow> provider \<Rightarrow> job_data list \<Rightarrow> (js_error, 'q, unit) stmt" where
  "pushes bq p jobs = run (the (push bq p jobs))"

lemma push_usable:
  assumes "usable p"
  shows "\<exists>prog. push bq p jobs = Some prog"
proof (cases "enabledBatchJobs (queueOptions p)")
  case True
  with assms obtain m where "maxBatchSize (queueOptions p) = Some m" "0 < m"
    by (auto simp: usable_def split: option.splits)
  then show ?thesis by (simp add: push_def bulk_of_def batches_chunks)
qed (simp add: push_def)

lemma job_ids_closure_job [simp]: "job_ids (closure_job kind i) = {i}"
  by (simp add: job_ids_def closure_job_def)

lemma job_ids_batch_job [simp]: "job_ids (batch_job p jobs ids) = set ids"
  by (simp add: job_ids_def batch_job_def hashBatch_def Let_def)

lemma a_data_added [simp]: "a_data (added p job) = job"
  by (simp add: added_def)

lemma requests_run:
  "requests requested ids s (m s) \<Longrightarrow> requests requested ids s (run (await m (\<lambda>_. return ())) s)"
  by (auto simp: requests_def split: prod.splits sum.splits)

lemma addBulk_requests:
  assumes "bullmq_ok bq requested"
  shows "requests requested (\<Union>job \<in> set bulk. job_ids job) s (addBulk bq p bulk s)"
proof -
  from assms have "requests requested (\<Union>a \<in> set (map (added p) bulk). job_ids (a_data a)) s
      (bq_addBulk bq (map (added p) bulk) s)"
    unfolding bullmq_ok_def by blast
  then show ?thesis by (simp add: addBulk_def)
qed

lemma addJob_requests:
  assumes "bullmq_ok bq requested"
  shows "requests requested (job_ids job) s (addJob bq p job s)"
proof -
  from assms have "requests requested (job_ids (a_data (added p job))) s (bq_add bq (added p job) s)"
    unfolding bullmq_ok_def by blast
  then show ?thesis by (simp add: addJob_def)
qed

lemma bulk_ids:
  assumes "usable p" and "enabledBatchJobs (queueOptions p)" and "bulk_of p jobs = Some bulk"
  shows "(\<Union>job \<in> set bulk. job_ids job) = j_id ` set jobs"
proof -
  from assms obtain m where m: "maxBatchSize (queueOptions p) = Some m" "0 < m"
    by (auto simp: usable_def split: option.splits)
  with assms(3) have bulk: "bulk = map (\<lambda>c. batch_job p jobs (map j_id c)) (chunks (nat m) jobs)"
    by (simp add: bulk_of_def batches_chunks)
  have "(\<Union>c \<in> set (chunks (nat m) jobs). set c) = set jobs"
    using concat_chunks [of "nat m" jobs] m(2) by (metis set_concat zero_less_nat_eq)
  then show ?thesis by (auto simp: bulk)
qed

lemma pushes_requests:
  assumes p: "usable p" and bq: "bullmq_ok bq requested"
    and single: "\<forall>job \<in> set jobs. job_ids job = {j_id job}"
  shows "requests requested (j_id ` set jobs) s (pushes bq p jobs s)"
proof (cases "length jobs = 1")
  case True
  then obtain job where "jobs = [job]" by (cases jobs) auto
  with single requests_run [where m = "addJob bq p job", OF addJob_requests [OF bq]] show ?thesis
    by (simp add: pushes_def push_def del: run_await)
next
  case len: False
  show ?thesis
  proof (cases "enabledBatchJobs (queueOptions p)")
    case False
    have "(\<Union>job \<in> set jobs. job_ids job) = j_id ` set jobs" using single by auto
    with len False requests_run [where m = "addBulk bq p jobs", OF addBulk_requests [OF bq]] show ?thesis
      by (simp add: pushes_def push_def del: run_await)
  next
    case True
    from push_usable [OF p, of bq jobs] True len obtain bulk where bulk: "bulk_of p jobs = Some bulk"
      by (auto simp: push_def)
    with len True requests_run [where m = "addBulk bq p bulk", OF addBulk_requests [OF bq]] bulk_ids [OF p True bulk]
    show ?thesis by (simp add: pushes_def push_def del: run_await)
  qed
qed

interpretation bull_queue: job_queue "pushes bq p" "closure_job kind" requested
  "usable p \<and> bullmq_ok bq requested" for bq p kind requested
proof unfold_locales
  fix ks s u t
  have "\<forall>job \<in> set (map (closure_job kind) ks). job_ids job = {j_id job}"
    by (auto simp: closure_job_def job_ids_def)
  moreover have "j_id ` set (map (closure_job kind) ks) = set ks"
    by (force simp: closure_job_def)
  moreover assume "usable p \<and> bullmq_ok bq requested"
  ultimately have pushed: "requests requested (set ks) s (pushes bq p (map (closure_job kind) ks) s)"
    using pushes_requests by metis
  from pushed show "requested t = requested s \<union> set ks"
    if "pushes bq p (map (closure_job kind) ks) s = (Inr u, t)"
    using that by (simp add: requests_def)
  from pushed show "requested t = requested s"
    if "pushes bq p (map (closure_job kind) ks) s = (Inl e, t)" for e
    using that by (simp add: requests_def)
qed

section \<open>The closures the managers request\<close>

text \<open>
  \<open>createClosures\<close> of \<^verbatim>\<open>changesetManager.ts\<close>, \<^verbatim>\<open>fileManager.ts\<close> and \<^verbatim>\<open>syncManager.ts\<close>, each a
  client of its queue.
\<close>

definition createChangesetClosures ::
  "(job_data list \<Rightarrow> (js_error, 'q, unit) stmt) \<Rightarrow> string list \<Rightarrow> (js_error, 'q, unit) prog" where
  "createChangesetClosures changesetsQueue changesetIds =
     (let uniqueChangesetIds = array_from_set changesetIds;
          jobs = map (closure_job ChangesetClosure) uniqueChangesetIds
      in await (changesetsQueue jobs) (\<lambda>_. return ()))"

definition createFileClosures ::
  "(job_data list \<Rightarrow> (js_error, 'q, unit) stmt) \<Rightarrow> string list \<Rightarrow> (js_error, 'q, unit) prog" where
  "createFileClosures filesQueue fileIds =
     (let uniqueFileIds = array_from_set fileIds;
          jobs = map (closure_job FileClosure) uniqueFileIds
      in await (filesQueue jobs) (\<lambda>_. return ()))"

definition createSyncClosures ::
  "(job_data list \<Rightarrow> (js_error, 'q, unit) stmt) \<Rightarrow> string list \<Rightarrow> (js_error, 'q, unit) prog" where
  "createSyncClosures syncsQueue syncIds =
     (let uniqueFileIds = array_from_set syncIds;
          jobs = map (closure_job SyncClosure) uniqueFileIds
      in await (syncsQueue jobs) (\<lambda>_. return ()))"

lemmas createClosures_defs =
  createChangesetClosures_def createFileClosures_def createSyncClosures_def

lemma createClosures_requests:
  assumes "usable p" and "bullmq_ok bq requested"
  shows "run (createChangesetClosures (pushes bq p) ks) s = (Inr u, t) \<Longrightarrow> requested t = requested s \<union> set ks"
    and "run (createFileClosures (pushes bq p) ks) s = (Inr u, t) \<Longrightarrow> requested t = requested s \<union> set ks"
    and "run (createSyncClosures (pushes bq p) ks) s = (Inr u, t) \<Longrightarrow> requested t = requested s \<union> set ks"
  using bull_queue.push_unique [of p bq requested _ ks s] assms
  by (auto simp: createClosures_defs Let_def split: prod.splits sum.splits)

section \<open>A queue that remembers what it was given\<close>

text \<open>
  An instance of \<open>bullmq\<close> for concrete runs: the state lists the jobs that were accepted, and
  \<open>fault\<close> makes every call fail.
\<close>

definition remembering :: "js_error option \<Rightarrow> added_job list bullmq" where
  "remembering fault =
     \<lparr>bq_add = (\<lambda>a q. case fault of None \<Rightarrow> (Inr (), q @ [a]) | Some e \<Rightarrow> (Inl e, q)),
      bq_addBulk = (\<lambda>as q. case fault of None \<Rightarrow> (Inr (), q @ as) | Some e \<Rightarrow> (Inl e, q)),
      bq_getJob = (\<lambda>k q. (Inr (map_option a_data (find (\<lambda>a. a_name a = k) q)), q)),
      bq_isDelayed = (\<lambda>k q. (Inr True, q)),
      bq_changeDelay = (\<lambda>k d q. case fault of None \<Rightarrow> (Inr (), q) | Some e \<Rightarrow> (Inl e, q)),
      bq_updateData = (\<lambda>k x q. (Inr (), map (\<lambda>a. if a_name a = k then a\<lparr>a_data := x\<rparr> else a) q)),
      bq_moveToDelayed = (\<lambda>k d q. (Inr (), q))\<rparr>"

definition remembered :: "added_job list \<Rightarrow> string set" where
  "remembered q = (\<Union>a \<in> set q. job_ids (a_data a))"

lemma remembering_ok: "bullmq_ok (remembering fault) remembered"
  by (cases fault) (auto simp: bullmq_ok_def requests_def remembering_def remembered_def)

section \<open>Properties\<close>

lemma createClosures_run:
  "run (createChangesetClosures f ks) s = f (map (closure_job ChangesetClosure) (array_from_set ks)) s"
  "run (createFileClosures f ks) s = f (map (closure_job FileClosure) (array_from_set ks)) s"
  "run (createSyncClosures f ks) s = f (map (closure_job SyncClosure) (array_from_set ks)) s"
  by (auto simp: createClosures_defs Let_def split: prod.splits sum.splits)

lemma pushed_closures:
  assumes "usable p" and "bullmq_ok bq requested"
  shows "requests requested (set ks) s (pushes bq p (map (closure_job kind) (array_from_set ks)) s)"
  using bull_queue.push_requests [of p bq requested kind "array_from_set ks" s]
    bull_queue.push_fails [of p bq requested kind "array_from_set ks" s] assms
  by (auto simp: requests_def split: prod.splits sum.splits)

text \<open>
  Each of the three closure requests asks for exactly the identifiers of its body, however
  often they are repeated there and whether the jobs travel alone, in a bulk or in batches; a
  request that fails asks for none of them.
\<close>

lemma createClosures_exact:
  assumes "usable p" and "bullmq_ok bq requested"
  shows "requests requested (set ks) s (run (createChangesetClosures (pushes bq p) ks) s) \<and>
    requests requested (set ks) s (run (createFileClosures (pushes bq p) ks) s) \<and>
    requests requested (set ks) s (run (createSyncClosures (pushes bq p) ks) s)"
  unfolding createClosures_run using pushed_closures [OF assms] by blast

lemma createClosures_exact_example:
  "\<exists>t. run (createFileClosures (pushes (remembering None) (example_provider True (Some 2)))
      [''b'', ''a'', ''b'', ''c'']) [] = (Inr (), t) \<and> remembered t = {''a'', ''b'', ''c''}"
proof -
  let ?p = "example_provider True (Some 2)" and ?ks = "[''b'', ''a'', ''b'', ''c'']"
  have p: "usable ?p" by (simp add: usable_def example_provider_def)
  obtain r t where run: "run (createFileClosures (pushes (remembering None) ?p) ?ks) [] = (r, t)"
    by fastforce
  from createClosures_exact [OF p remembering_ok, of "?ks" "[]" None] run
  have t: "requests remembered (set ?ks) [] (r, t)" by (simp del: list.set)
  obtain bulk where "push (remembering None) ?p (map (closure_job FileClosure) (array_from_set ?ks)) =
      Some (await (addBulk (remembering None) ?p bulk) (\<lambda>_. return ()))"
    by (auto simp: push_def example_provider_def bulk_of_def batches_chunks)
  then have "r = Inr ()"
    using run unfolding createClosures_run by (auto simp: pushes_def addBulk_def remembering_def)
  with run t show ?thesis
    by (auto simp: requests_def remembered_def)
qed

end
