(* ===== verification/Worker_Provider.thy ===== *)
theory Worker_Provider
  imports Job_Queue
begin

text \<open>
  \<^verbatim>\<open>src/src/queueProvider/workers/bullWorkerProvider.ts\<close>: what surrounds the processing of a job,
  and the life cycle of a worker.  The state of a running worker is the database it works on and
  the queue its job comes from; \<open>rnd\<close> and \<open>clock\<close> are \<open>Math.random()\<close> and \<open>Date.now()\<close>.
\<close>

record worker_options =
  transactionIsolationLevel :: string
  delay_minimum :: int
  delay_maximum :: int

text \<open>A job as the library hands it over: its own key, and the data that was added.\<close>

record job =
  job_key :: string
  payload :: job_data

definition on_own_queue :: "(js_error, 'q, 'a) stmt \<Rightarrow> (js_error, 's \<times> 'q, 'a) stmt" where
  "on_own_queue m s = (case s of (d, q) \<Rightarrow> case m q of (r, q') \<Rightarrow> (r, (d, q')))"

definition updateJobCounter ::
  "'q bullmq \<Rightarrow> job \<Rightarrow> counter_kind \<Rightarrow> (js_error, 'q, unit) stmt" where
  "updateJobCounter bq job counterKind =
     (let incremented = incrementJobCounter (payload job) counterKind
      in bq_updateData bq (job_key job) incremented)"

definition delayJob :: "'q bullmq \<Rightarrow> int \<Rightarrow> job \<Rightarrow> int \<Rightarrow> (js_error, 'q, unit) stmt" where
  "delayJob bq clock job delay = bq_moveToDelayed bq (job_key job) (clock + delay)"

definition processJobWrapper ::
  "'q bullmq \<Rightarrow> worker_options \<Rightarrow> real \<Rightarrow> int \<Rightarrow> (job \<Rightarrow> (js_error, 's \<times> 'q, 'r) prog) \<Rightarrow>
    job \<Rightarrow> (js_error, 's \<times> 'q, 'r) prog" where
  "processJobWrapper bq wo rnd clock processJob job =
     settle (\<lambda>r. case r of
         Inr result \<Rightarrow> return result
       | Inl e \<Rightarrow>
           let delay = randomIntFromInterval rnd (delay_minimum wo) (delay_maximum wo)
           in if e = TransactionFailureError
              then await (on_own_queue (updateJobCounter bq job TransactionFailure)) (\<lambda>_.
                   await (on_own_queue (delayJob bq clock job delay)) (\<lambda>_.
                   throw DelayedError))
              else throw e)
       (processJob job)"

section \<open>The life cycle of a worker\<close>

text \<open>
  The handle a provider holds: none, or a worker that runs or not.  \<open>run_worker\<close> and
  \<open>close_worker\<close> are the calls of the library.
\<close>

datatype worker_handle = Running | Idle

record 'w worker_calls =
  run_worker :: "(js_error, 'w, unit) stmt"
  close_worker :: "(js_error, 'w, unit) stmt"

text \<open>\<open>createWorker\<close>: with \<open>autorun: false\<close>.\<close>

definition createWorker :: worker_handle where
  "createWorker = Idle"

definition start ::
  "'w worker_calls \<Rightarrow> (js_error, worker_handle option \<times> 'w, unit) stmt" where
  "start calls s =
     (case s of (handle, w) \<Rightarrow>
        let created = (case handle of None \<Rightarrow> createWorker | Some h \<Rightarrow> h)
        in case run_worker calls w of
             (Inl e, w') \<Rightarrow> (Inl e, (Some created, w'))
           | (Inr _, w') \<Rightarrow> (Inr (), (Some Running, w')))"

definition close ::
  "'w worker_calls \<Rightarrow> (js_error, worker_handle option \<times> 'w, unit) stmt" where
  "close calls s =
     (case s of (handle, w) \<Rightarrow>
        case handle of
          None \<Rightarrow> (Inr (), (None, w))
        | Some _ \<Rightarrow> (case close_worker calls w of (r, w') \<Rightarrow> (r, (None, w'))))"

lemma close_drops_handle: "fst (snd (close calls s)) = None"
  by (auto simp: close_def split: prod.splits option.splits)

lemma close_twice: "close calls (snd (close calls s)) = (Inr (), snd (close calls s))"
  by (auto simp: close_def split: prod.splits option.splits)

section \<open>Results of the wrapper\<close>

lemma processJobWrapper_run:
  "run (processJobWrapper bq wo rnd clock processJob job) s =
    (case run (processJob job) s of
       (Inr x, t) \<Rightarrow> (Inr x, t)
     | (Inl e, (d, q)) \<Rightarrow>
         if e \<noteq> TransactionFailureError then (Inl e, (d, q))
         else (case updateJobCounter bq job TransactionFailure q of
             (Inl e', q') \<Rightarrow> (Inl e', (d, q'))
           | (Inr _, q') \<Rightarrow>
               (case delayJob bq clock job
                   (randomIntFromInterval rnd (delay_minimum wo) (delay_maximum wo)) q' of
                  (Inl e', q'') \<Rightarrow> (Inl e', (d, q''))
                | (Inr _, q'') \<Rightarrow> (Inl DelayedError, (d, q'')))))"
  by (auto simp: processJobWrapper_def run_settle on_own_queue_def Let_def
      split: prod.splits sum.splits)

text \<open>The wrapper touches the database only through the processing of the job.\<close>

lemma processJobWrapper_db:
  "fst (snd (run (processJobWrapper bq wo rnd clock processJob job) s)) =
    fst (snd (run (processJob job) s))"
  by (auto simp: processJobWrapper_run split: prod.splits sum.splits)

text \<open>In particular it keeps every invariant of the database that the processing keeps.\<close>

lemma on_own_queue_inv: "J (fst s) \<Longrightarrow> J (fst (snd (on_own_queue m s)))"
  by (cases s) (auto simp: on_own_queue_def split: prod.splits)

lemma processJobWrapper_keeps:
  assumes "keeps (\<lambda>s. J (fst s)) (processJob job)"
  shows "keeps (\<lambda>s. J (fst s)) (processJobWrapper bq wo rnd clock processJob job)"
  unfolding processJobWrapper_def
proof (rule keeps_settle [OF assms], goal_cases)
  case (1 r)
  show ?case
    by (cases r) (auto simp: Let_def intro!: keeps_await on_own_queue_inv [where J = J])
qed

lemma map_of_incrementJobCounter:
  "map_of (j_counters (incrementJobCounter data k)) (getCounterKey k) =
    Some (case map_of (j_counters data) (getCounterKey k) of Some n \<Rightarrow> n + 1 | None \<Rightarrow> 1)"
  by (auto simp: incrementJobCounter_def Let_def split: option.splits)

lemma incrementJobCounter_other:
  "k' \<noteq> getCounterKey k \<Longrightarrow>
    map_of (j_counters (incrementJobCounter data k)) k' = map_of (j_counters data) k'"
  by (simp add: incrementJobCounter_def Let_def)

section \<open>Properties\<close>

text \<open>
  C23: the outcome of a job.  A result, and any error but a transaction failure, leave the wrapper
  as they are.  On a transaction failure the counter of such failures of the job is raised by one
  and stored, the job is delayed to a moment between the configured minimum and maximum from now,
  and the wrapper throws the error that tells the library so; the first of the two calls of the
  queue that fails gives the error instead.
\<close>

theorem processJobWrapper_outcome:
  assumes "0 \<le> rnd" and "rnd < 1" and "delay_minimum wo \<le> delay_maximum wo"
  shows "\<exists>delay data. delay_minimum wo \<le> delay \<and> delay \<le> delay_maximum wo \<and>
    map_of (j_counters data) ''transactionFailureCount'' =
      Some (case map_of (j_counters (payload job)) ''transactionFailureCount'' of Some n \<Rightarrow> n + 1 | None \<Rightarrow> 1) \<and>
    j_id data = j_id (payload job) \<and> j_batchIds data = j_batchIds (payload job) \<and>
    run (processJobWrapper bq wo rnd clock processJob job) s =
      (case run (processJob job) s of
         (Inr x, t) \<Rightarrow> (Inr x, t)
       | (Inl e, (d, q)) \<Rightarrow>
           if e \<noteq> TransactionFailureError then (Inl e, (d, q))
           else (case bq_updateData bq (job_key job) data q of
               (Inl e', q') \<Rightarrow> (Inl e', (d, q'))
             | (Inr _, q') \<Rightarrow>
                 (case bq_moveToDelayed bq (job_key job) (clock + delay) q' of
                    (Inl e', q'') \<Rightarrow> (Inl e', (d, q''))
                  | (Inr _, q'') \<Rightarrow> (Inl DelayedError, (d, q'')))))"
proof (intro exI conjI)
  let ?delay = "randomIntFromInterval rnd (delay_minimum wo) (delay_maximum wo)"
  let ?data = "incrementJobCounter (payload job) TransactionFailure"
  show "delay_minimum wo \<le> ?delay" and "?delay \<le> delay_maximum wo"
    using random_bounds [OF assms] by simp_all
  show "map_of (j_counters ?data) ''transactionFailureCount'' =
      Some (case map_of (j_counters (payload job)) ''transactionFailureCount'' of Some n \<Rightarrow> n + 1 | None \<Rightarrow> 1)"
    using map_of_incrementJobCounter [of "payload job" TransactionFailure] by simp
  show "j_id ?data = j_id (payload job)" and "j_batchIds ?data = j_batchIds (payload job)"
    by (simp_all add: incrementJobCounter_def Let_def)
qed (unfold processJobWrapper_run updateJobCounter_def delayJob_def Let_def, rule refl)

theorem processJobWrapper_outcome_witness:
  fixes a :: added_job
  defines "a \<equiv> added (example_provider False None) (closure_job FileClosure ''f1'')"
  shows "\<exists>data. map_of (j_counters data) ''transactionFailureCount'' = Some 1 \<and>
    run (processJobWrapper (remembering None)
        \<lparr>transactionIsolationLevel = ''SERIALIZABLE'', delay_minimum = 5, delay_maximum = 7\<rparr> (1 / 2) 100
        (\<lambda>_. throw TransactionFailureError) \<lparr>job_key = a_name a, payload = closure_job FileClosure ''f1''\<rparr>)
      ((), [a]) = (Inl DelayedError :: js_error + nat, ((), [a\<lparr>a_data := data\<rparr>]))"
  using processJobWrapper_outcome [of "1 / 2"
      "\<lparr>transactionIsolationLevel = ''SERIALIZABLE'', delay_minimum = 5, delay_maximum = 7\<rparr>"
      "\<lparr>job_key = a_name a, payload = closure_job FileClosure ''f1''\<rparr>" "remembering None" 100
      "\<lambda>_. throw TransactionFailureError :: (js_error, unit \<times> added_job list, nat) prog" "((), [a])"]
  by (auto simp: remembering_def closure_job_def)

end
