(* ===== verification/Sql.thy ===== *)
theory Sql
  imports Domain
begin

text \<open>
  The SQL statements the sources issue, on one table.  A table is the list of its rows; a
  statement is atomic, and a failed one leaves the table as it was.  What a statement checks
  (the types of the columns, the primary key, the foreign keys) is what
  \<^verbatim>\<open>db/migrations\<close> declares; \<open>Schema\<close> instantiates the checks for the five tables.
\<close>

section \<open>Error codes\<close>

definition unique_violation :: js_error where
  "unique_violation = QueryFailedError (Some ''23505'')"

definition foreign_key_violation :: js_error where
  "foreign_key_violation = QueryFailedError (Some ''23503'')"

definition numeric_out_of_range :: js_error where
  "numeric_out_of_range = QueryFailedError (Some ''22003'')"

definition not_null_violation :: js_error where
  "not_null_violation = QueryFailedError (Some ''23502'')"

definition undefined_table :: js_error where
  "undefined_table = QueryFailedError (Some ''42P01'')"

lemmas sql_errors = unique_violation_def foreign_key_violation_def numeric_out_of_range_def
  not_null_violation_def undefined_table_def

text \<open>The range of the type \<open>integer\<close>, and of a nullable column of that type.\<close>

definition int4 :: "int \<Rightarrow> bool" where
  "int4 x \<longleftrightarrow> -(2 ^ 31) \<le> x \<and> x < 2 ^ 31"

definition int4_null :: "int option \<Rightarrow> bool" where
  "int4_null x = (case x of None \<Rightarrow> True | Some n \<Rightarrow> int4 n)"

lemma int4_null_simps [simp]: "int4_null None" "int4_null (Some n) = int4 n"
  by (simp_all add: int4_null_def)

section \<open>INSERT and UPDATE\<close>

text \<open>
  \<open>sql_insert pk typed fk new rows\<close>: INSERT of the rows \<open>new\<close>.  The values are converted to
  the column types first, the primary key is checked as rows are added, and the foreign keys at
  the end of the statement, on the table as it then is.
\<close>

definition sql_insert ::
  "('r \<Rightarrow> 'k) \<Rightarrow> ('r \<Rightarrow> bool) \<Rightarrow> ('r list \<Rightarrow> 'r \<Rightarrow> bool) \<Rightarrow> 'r list \<Rightarrow> 'r list \<Rightarrow> js_error + 'r list"
where
  "sql_insert pk typed fk new rows =
     (if \<not> list_all typed new then Inl numeric_out_of_range
      else if \<not> distinct (map pk new) \<or> list_ex (\<lambda>r. pk r \<in> set (map pk rows)) new
      then Inl unique_violation
      else if \<not> list_all (fk (rows @ new)) new then Inl foreign_key_violation
      else Inr (rows @ new))"

text \<open>
  \<open>sql_update typed fk P f rows\<close>: UPDATE SET \<open>f\<close> WHERE \<open>P\<close>; \<open>typed\<close> says that the assigned
  values are in range and \<open>fk\<close> that an updated row's assigned references exist.
\<close>

definition sql_update ::
  "bool \<Rightarrow> ('r list \<Rightarrow> 'r \<Rightarrow> bool) \<Rightarrow> ('r \<Rightarrow> bool) \<Rightarrow> ('r \<Rightarrow> 'r) \<Rightarrow> 'r list \<Rightarrow> js_error + 'r list"
where
  "sql_update typed fk P f rows =
     (let rows' = update_where P f rows
      in if \<not> typed then Inl numeric_out_of_range
         else if \<not> list_all (fk rows') (map f (filter P rows)) then Inl foreign_key_violation
         else Inr rows')"

text \<open>\<open>SELECT ... EXCEPT SELECT ...\<close>: the distinct rows of the first query not in the second.\<close>

definition sql_except :: "'r list \<Rightarrow> 'r list \<Rightarrow> 'r list" where
  "sql_except q1 q2 = filter (\<lambda>r. r \<notin> set q2) (remdups q1)"

lemma set_sql_except [simp]: "set (sql_except q1 q2) = set q1 - set q2"
  by (auto simp: sql_except_def)

lemma distinct_sql_except [simp]: "distinct (sql_except q1 q2)"
  by (simp add: sql_except_def)

lemma sql_insert_Inr_iff:
  "sql_insert pk typed fk new rows = Inr rows' \<longleftrightarrow>
     (\<forall>r \<in> set new. typed r) \<and> distinct (map pk new) \<and> pk ` set new \<inter> pk ` set rows = {} \<and>
     (\<forall>r \<in> set new. fk (rows @ new) r) \<and> rows' = rows @ new"
  by (auto simp: sql_insert_def list_all_iff list_ex_iff)

lemma sql_insert_distinct:
  assumes "sql_insert pk typed fk new rows = Inr rows'" and "distinct (map pk rows)"
  shows "distinct (map pk rows')"
  using assms by (auto simp: sql_insert_Inr_iff)

lemma sql_insert_existing:
  assumes "r \<in> set new" and "\<forall>r \<in> set new. typed r" and "pk r \<in> pk ` set rows"
  shows "sql_insert pk typed fk new rows = Inl unique_violation"
  using assms by (auto simp: sql_insert_def list_all_iff list_ex_iff)

lemma sql_update_Inr_iff:
  "sql_update typed fk P f rows = Inr rows' \<longleftrightarrow>
     typed \<and> (\<forall>r \<in> set rows. P r \<longrightarrow> fk rows' (f r)) \<and> rows' = update_where P f rows"
  by (auto simp: sql_update_def Let_def list_all_iff)

section \<open>SELECT\<close>

text \<open>\<open>findOne({ where })\<close>: the first matching row, or \<open>null\<close>.\<close>

definition select_one :: "('r \<Rightarrow> bool) \<Rightarrow> 'r list \<Rightarrow> 'r option" where
  "select_one P rows = find P rows"

lemma select_one_None [simp]: "select_one P rows = None \<longleftrightarrow> (\<forall>r \<in> set rows. \<not> P r)"
  by (auto simp: select_one_def find_None_iff)

lemma select_one_filter: "select_one P rows = (case filter P rows of [] \<Rightarrow> None | r # _ \<Rightarrow> Some r)"
  by (induction rows) (simp_all add: select_one_def)

lemma select_one_SomeD: "select_one P rows = Some r \<Longrightarrow> r \<in> set rows \<and> P r"
  by (auto simp: select_one_def find_Some_iff)

lemma select_one_key:
  assumes "distinct (map pk rows)"
  shows "select_one (\<lambda>r. pk r = k) rows = Some r \<longleftrightarrow> r \<in> set rows \<and> pk r = k"
proof
  assume "select_one (\<lambda>r. pk r = k) rows = Some r"
  then show "r \<in> set rows \<and> pk r = k" by (rule select_one_SomeD)
next
  assume r: "r \<in> set rows \<and> pk r = k"
  then obtain r' where r': "select_one (\<lambda>r. pk r = k) rows = Some r'"
    by (cases "select_one (\<lambda>r. pk r = k) rows") auto
  have "r' = r"
    using select_one_SomeD [OF r'] r by (intro distinct_key_eq [OF assms]) auto
  with r' show "select_one (\<lambda>r. pk r = k) rows = Some r" by simp
qed

text \<open>A table with a primary key, seen as a map from keys to rows.\<close>

definition table_map :: "('r \<Rightarrow> 'k) \<Rightarrow> 'r list \<Rightarrow> 'k \<Rightarrow> 'r option" where
  "table_map pk rows k = select_one (\<lambda>r. pk r = k) rows"

lemma table_map_Some:
  "distinct (map pk rows) \<Longrightarrow> table_map pk rows k = Some r \<longleftrightarrow> r \<in> set rows \<and> pk r = k"
  by (simp add: table_map_def select_one_key)

lemma table_map_None_iff: "table_map pk rows k = None \<longleftrightarrow> k \<notin> pk ` set rows"
  by (auto simp: table_map_def)

lemma table_map_SomeD: "table_map pk rows k = Some r \<Longrightarrow> r \<in> set rows \<and> pk r = k"
  by (auto simp: table_map_def dest: select_one_SomeD)

lemma table_map_Some_key: "table_map pk rows k = Some r \<Longrightarrow> k \<in> pk ` set rows"
  by (auto dest: table_map_SomeD)

lemma in_keys_iff: "k \<in> pk ` set rows \<longleftrightarrow> table_map pk rows k \<noteq> None"
  by (simp add: table_map_None_iff)

lemma table_map_append: "table_map pk (rows @ new) = table_map pk new ++ table_map pk rows"
proof
  fix k
  show "table_map pk (rows @ new) k = (table_map pk new ++ table_map pk rows) k"
    by (induction rows) (simp_all add: table_map_def select_one_def map_add_def)
qed

lemma table_map_update_where:
  assumes "\<And>r. pk (f r) = pk r"
  shows "table_map pk (update_where (\<lambda>r. pk r = k) f rows) =
    (table_map pk rows)(k := map_option f (table_map pk rows k))"
proof
  fix k'
  show "table_map pk (update_where (\<lambda>r. pk r = k) f rows) k' =
    ((table_map pk rows)(k := map_option f (table_map pk rows k))) k'"
    by (induction rows) (auto simp: table_map_def select_one_def assms)
qed

end
