(* ===== verification/Schema.thy ===== *)
theory Schema
  imports Sql
begin

text \<open>
  The five tables of the database: their columns (the classes under \<^verbatim>\<open>src/src/*/DAL\<close>), their
  primary and foreign keys with ON DELETE CASCADE, and the well-formedness of a database.
  Identifiers are uuids in canonical form, so equality of strings is equality of uuids.
\<close>

section \<open>Rows\<close>

record sync_row =
  s_id :: string
  s_dumpDate :: date
  s_startDate :: date
  s_endDate :: "date option"
  s_status :: status
  s_layerId :: int
  s_isFull :: bool
  s_totalFiles :: "int option"
  s_geometryType :: geometry_type
  s_baseSyncId :: "string option"
  s_runNumber :: int
  s_metadata :: "json_object option"

record file_row =
  f_fileId :: string
  f_syncId :: string
  f_startDate :: date
  f_endDate :: "date option"
  f_status :: status
  f_totalEntities :: "int option"

record entity_row =
  e_entityId :: string
  e_fileId :: string
  e_changesetId :: "string option"
  e_status :: entity_status
  e_action :: "action_type option"
  e_failReason :: "string option"

record changeset_row =
  c_changesetId :: string
  c_osmId :: "int option"

record history_row =
  h_syncId :: string
  h_baseSyncId :: "string option"
  h_entityId :: string
  h_fileId :: string
  h_changesetId :: "string option"
  h_status :: entity_status
  h_action :: "action_type option"
  h_failReason :: "string option"

record store =
  syncs :: "sync_row list"
  files :: "file_row list"
  entities :: "entity_row list"
  changesets :: "changeset_row list"
  history :: "history_row list"

definition empty_store :: store where
  "empty_store = \<lparr>syncs = [], files = [], entities = [], changesets = [], history = []\<rparr>"

section \<open>Keys and column types\<close>

definition e_key :: "entity_row \<Rightarrow> string \<times> string" where
  "e_key e = (e_entityId e, e_fileId e)"

definition h_key :: "history_row \<Rightarrow> string \<times> string \<times> string" where
  "h_key h = (h_entityId h, h_fileId h, h_syncId h)"

definition sync_typed :: "sync_row \<Rightarrow> bool" where
  "sync_typed r \<longleftrightarrow> int4 (s_layerId r) \<and> int4_null (s_totalFiles r) \<and> int4 (s_runNumber r)"

definition file_typed :: "file_row \<Rightarrow> bool" where
  "file_typed r \<longleftrightarrow> int4_null (f_totalEntities r)"

definition changeset_typed :: "changeset_row \<Rightarrow> bool" where
  "changeset_typed r \<longleftrightarrow> int4_null (c_osmId r)"

text \<open>A nullable reference to the keys of a table.\<close>

definition ref_ok :: "('r \<Rightarrow> string) \<Rightarrow> 'r list \<Rightarrow> string option \<Rightarrow> bool" where
  "ref_ok pk rows x = (case x of None \<Rightarrow> True | Some k \<Rightarrow> k \<in> set (map pk rows))"

lemma ref_ok_simps [simp]:
  "ref_ok pk rows None" "ref_ok pk rows (Some k) \<longleftrightarrow> k \<in> pk ` set rows"
  by (simp_all add: ref_ok_def)

lemma ref_ok_mono: "pk ` set rows \<subseteq> pk ` set rows' \<Longrightarrow> ref_ok pk rows x \<Longrightarrow> ref_ok pk rows' x"
  by (cases x) auto

definition sync_fk :: "sync_row list \<Rightarrow> sync_row \<Rightarrow> bool" where
  "sync_fk ss r = ref_ok s_id ss (s_baseSyncId r)"

definition file_fk :: "store \<Rightarrow> file_row \<Rightarrow> bool" where
  "file_fk d r = ref_ok s_id (syncs d) (Some (f_syncId r))"

definition entity_fk :: "store \<Rightarrow> entity_row \<Rightarrow> bool" where
  "entity_fk d r \<longleftrightarrow> ref_ok f_fileId (files d) (Some (e_fileId r)) \<and>
     ref_ok c_changesetId (changesets d) (e_changesetId r)"

definition history_fk :: "store \<Rightarrow> history_row \<Rightarrow> bool" where
  "history_fk d r \<longleftrightarrow> ref_ok s_id (syncs d) (Some (h_syncId r)) \<and>
     ref_ok s_id (syncs d) (h_baseSyncId r) \<and>
     ref_ok f_fileId (files d) (Some (h_fileId r)) \<and>
     ref_ok c_changesetId (changesets d) (h_changesetId r)"

lemmas fk_defs = sync_fk_def file_fk_def entity_fk_def history_fk_def
lemmas typed_defs = sync_typed_def file_typed_def changeset_typed_def

text \<open>DELETE from the file table, with the cascade to the tables that reference it.\<close>

definition delete_files :: "(file_row \<Rightarrow> bool) \<Rightarrow> store \<Rightarrow> store" where
  "delete_files P d =
     (let gone = map f_fileId (filter P (files d))
      in d\<lparr>files := filter (\<lambda>r. \<not> P r) (files d),
           entities := filter (\<lambda>e. e_fileId e \<notin> set gone) (entities d),
           history := filter (\<lambda>h. h_fileId h \<notin> set gone) (history d)\<rparr>)"

section \<open>Well-formed databases\<close>

definition keys_unique :: "store \<Rightarrow> bool" where
  "keys_unique d \<longleftrightarrow> distinct (map s_id (syncs d)) \<and> distinct (map f_fileId (files d)) \<and>
     distinct (map e_key (entities d)) \<and> distinct (map c_changesetId (changesets d)) \<and>
     distinct (map h_key (history d))"

definition refs_ok :: "store \<Rightarrow> bool" where
  "refs_ok d \<longleftrightarrow> list_all (sync_fk (syncs d)) (syncs d) \<and> list_all (file_fk d) (files d) \<and>
     list_all (entity_fk d) (entities d) \<and> list_all (history_fk d) (history d)"

definition columns_typed :: "store \<Rightarrow> bool" where
  "columns_typed d \<longleftrightarrow> list_all sync_typed (syncs d) \<and> list_all file_typed (files d) \<and>
     list_all changeset_typed (changesets d)"

definition db_wf :: "store \<Rightarrow> bool" where
  "db_wf d \<longleftrightarrow> keys_unique d \<and> refs_ok d \<and> columns_typed d"

lemma db_wf_empty [simp]: "db_wf empty_store"
  by (simp add: db_wf_def keys_unique_def refs_ok_def columns_typed_def empty_store_def)

lemma db_wfD:
  assumes "db_wf d"
  shows "distinct (map s_id (syncs d))" "distinct (map f_fileId (files d))"
    "distinct (map e_key (entities d))" "distinct (map c_changesetId (changesets d))"
    "distinct (map h_key (history d))"
  using assms by (simp_all add: db_wf_def keys_unique_def)

lemma db_wf_fkD:
  assumes "db_wf d"
  shows "s \<in> set (syncs d) \<Longrightarrow> sync_fk (syncs d) s"
    "f \<in> set (files d) \<Longrightarrow> file_fk d f"
    "e \<in> set (entities d) \<Longrightarrow> entity_fk d e"
    "h \<in> set (history d) \<Longrightarrow> history_fk d h"
  using assms by (simp_all add: db_wf_def refs_ok_def list_all_iff)

lemma db_wf_refD:
  assumes "db_wf d"
  shows "f \<in> set (files d) \<Longrightarrow> f_syncId f \<in> s_id ` set (syncs d)"
    "e \<in> set (entities d) \<Longrightarrow> e_fileId e \<in> f_fileId ` set (files d)"
    "s \<in> set (syncs d) \<Longrightarrow> s_baseSyncId s = Some b \<Longrightarrow> b \<in> s_id ` set (syncs d)"
  using assms by (auto simp: db_wf_def refs_ok_def list_all_iff fk_defs ref_ok_def)

text \<open>
  Replacing one table keeps a database well-formed when the new table is well-formed by itself
  and no key that another table may reference is lost.
\<close>

lemma db_wf_syncs:
  assumes "db_wf d" and "distinct (map s_id ss)" and "list_all (sync_fk ss) ss"
    and "list_all sync_typed ss" and "s_id ` set (syncs d) \<subseteq> s_id ` set ss"
  shows "db_wf (d\<lparr>syncs := ss\<rparr>)"
  using assms unfolding db_wf_def keys_unique_def refs_ok_def columns_typed_def list_all_iff fk_defs
  by simp (blast intro: ref_ok_mono)

lemma db_wf_files:
  assumes "db_wf d" and "distinct (map f_fileId fs)" and "list_all (file_fk d) fs"
    and "list_all file_typed fs" and "f_fileId ` set (files d) \<subseteq> f_fileId ` set fs"
  shows "db_wf (d\<lparr>files := fs\<rparr>)"
  using assms unfolding db_wf_def keys_unique_def refs_ok_def columns_typed_def list_all_iff fk_defs
  by simp blast

lemma db_wf_entities:
  assumes "db_wf d" and "distinct (map e_key es)" and "list_all (entity_fk d) es"
  shows "db_wf (d\<lparr>entities := es\<rparr>)"
  using assms unfolding db_wf_def keys_unique_def refs_ok_def columns_typed_def list_all_iff fk_defs
  by simp

lemma db_wf_changesets:
  assumes "db_wf d" and "distinct (map c_changesetId cs)" and "list_all changeset_typed cs"
    and "c_changesetId ` set (changesets d) \<subseteq> c_changesetId ` set cs"
  shows "db_wf (d\<lparr>changesets := cs\<rparr>)"
  using assms unfolding db_wf_def keys_unique_def refs_ok_def columns_typed_def list_all_iff fk_defs
  by simp (blast intro: ref_ok_mono)

lemma db_wf_history:
  assumes "db_wf d" and "distinct (map h_key hs)" and "list_all (history_fk d) hs"
  shows "db_wf (d\<lparr>history := hs\<rparr>)"
  using assms unfolding db_wf_def keys_unique_def refs_ok_def columns_typed_def list_all_iff fk_defs
  by simp

text \<open>An UPDATE keeps a database well-formed when it assigns no key and only valid references.\<close>

lemma sync_fk_keys: "s_id ` set ss = s_id ` set ss' \<Longrightarrow> sync_fk ss = sync_fk ss'"
  by (auto simp: fun_eq_iff sync_fk_def ref_ok_def split: option.splits)

lemma db_wf_update_syncs:
  assumes wf: "db_wf d" and key: "\<And>r. s_id (g r) = s_id r"
    and fk: "\<And>r. r \<in> set (syncs d) \<Longrightarrow> P r \<Longrightarrow> sync_fk (syncs d) (g r)"
    and typed: "\<And>r. r \<in> set (syncs d) \<Longrightarrow> P r \<Longrightarrow> sync_typed r \<Longrightarrow> sync_typed (g r)"
  shows "db_wf (d\<lparr>syncs := update_where P g (syncs d)\<rparr>)"
proof (rule db_wf_syncs [OF wf])
  have keys: "s_id ` set (update_where P g (syncs d)) = s_id ` set (syncs d)"
    by (rule image_key_update_where) (rule key)
  then show "s_id ` set (syncs d) \<subseteq> s_id ` set (update_where P g (syncs d))" by simp
  show "distinct (map s_id (update_where P g (syncs d)))"
    using db_wfD(1) [OF wf] by (simp add: map_update_where_key key)
  have "list_all (sync_fk (syncs d)) (syncs d)" "list_all sync_typed (syncs d)"
    using wf by (simp_all add: db_wf_def refs_ok_def columns_typed_def)
  then show "list_all sync_typed (update_where P g (syncs d))"
    and "list_all (sync_fk (update_where P g (syncs d))) (update_where P g (syncs d))"
    using fk typed by (auto intro!: list_all_update_where simp: sync_fk_keys [OF keys])
qed

lemma db_wf_update_files:
  assumes wf: "db_wf d" and key: "\<And>r. f_fileId (g r) = f_fileId r"
    and fk: "\<And>r. r \<in> set (files d) \<Longrightarrow> P r \<Longrightarrow> f_syncId (g r) = f_syncId r"
    and typed: "\<And>r. r \<in> set (files d) \<Longrightarrow> P r \<Longrightarrow> file_typed r \<Longrightarrow> file_typed (g r)"
  shows "db_wf (d\<lparr>files := update_where P g (files d)\<rparr>)"
proof (rule db_wf_files [OF wf])
  have keys: "f_fileId ` set (update_where P g (files d)) = f_fileId ` set (files d)"
    by (rule image_key_update_where) (rule key)
  then show "f_fileId ` set (files d) \<subseteq> f_fileId ` set (update_where P g (files d))" by simp
  show "distinct (map f_fileId (update_where P g (files d)))"
    using db_wfD(2) [OF wf] by (simp add: map_update_where_key key)
  have "list_all (file_fk d) (files d)" "list_all file_typed (files d)"
    using wf by (simp_all add: db_wf_def refs_ok_def columns_typed_def)
  then show "list_all file_typed (update_where P g (files d))"
    and "list_all (file_fk d) (update_where P g (files d))"
    using fk typed by (auto intro!: list_all_update_where simp: file_fk_def)
qed

lemma db_wf_update_entities:
  assumes wf: "db_wf d" and key: "\<And>r. e_key (g r) = e_key r"
    and fk: "\<And>r. r \<in> set (entities d) \<Longrightarrow> P r \<Longrightarrow> entity_fk d r \<Longrightarrow> entity_fk d (g r)"
  shows "db_wf (d\<lparr>entities := update_where P g (entities d)\<rparr>)"
proof (rule db_wf_entities [OF wf])
  show "distinct (map e_key (update_where P g (entities d)))"
    using db_wfD(3) [OF wf] by (simp add: map_update_where_key key)
  show "list_all (entity_fk d) (update_where P g (entities d))"
    using wf fk by (intro list_all_update_where) (simp_all add: db_wf_def refs_ok_def)
qed

lemma db_wf_update_changesets:
  assumes wf: "db_wf d" and key: "\<And>r. c_changesetId (g r) = c_changesetId r"
    and typed: "\<And>r. r \<in> set (changesets d) \<Longrightarrow> P r \<Longrightarrow> changeset_typed r \<Longrightarrow> changeset_typed (g r)"
  shows "db_wf (d\<lparr>changesets := update_where P g (changesets d)\<rparr>)"
proof (rule db_wf_changesets [OF wf])
  have "c_changesetId ` set (update_where P g (changesets d)) = c_changesetId ` set (changesets d)"
    by (rule image_key_update_where) (rule key)
  then show "c_changesetId ` set (changesets d) \<subseteq>
    c_changesetId ` set (update_where P g (changesets d))" by simp
  show "distinct (map c_changesetId (update_where P g (changesets d)))"
    using db_wfD(4) [OF wf] by (simp add: map_update_where_key key)
  show "list_all changeset_typed (update_where P g (changesets d))"
    using wf typed by (intro list_all_update_where) (simp_all add: db_wf_def columns_typed_def)
qed

lemma db_wf_delete_files:
  assumes "db_wf d"
  shows "db_wf (delete_files P d)"
proof -
  have kept: "k \<in> f_fileId ` {r \<in> set (files d). \<not> P r}"
    if "k \<in> f_fileId ` set (files d)" and "k \<notin> f_fileId ` {r \<in> set (files d). P r}" for k
    using that by auto
  show ?thesis
    using assms
    unfolding db_wf_def keys_unique_def refs_ok_def columns_typed_def list_all_iff fk_defs
      delete_files_def Let_def
    by (simp add: distinct_map_filter) (blast intro: kept)
qed

section \<open>Concrete rows\<close>

text \<open>Rows with the columns the examples of the development vary; the other columns are fixed.\<close>

definition a_sync :: "string \<Rightarrow> status \<Rightarrow> int option \<Rightarrow> string option \<Rightarrow> int \<Rightarrow> sync_row" where
  "a_sync k st n base m =
     \<lparr>s_id = k, s_dumpDate = 10, s_startDate = 20, s_endDate = None, s_status = st, s_layerId = 7,
      s_isFull = False, s_totalFiles = n, s_geometryType = POLYGON, s_baseSyncId = base,
      s_runNumber = m, s_metadata = None\<rparr>"

definition a_file :: "string \<Rightarrow> string \<Rightarrow> status \<Rightarrow> int option \<Rightarrow> file_row" where
  "a_file k sync st n =
     \<lparr>f_fileId = k, f_syncId = sync, f_startDate = 20, f_endDate = None, f_status = st,
      f_totalEntities = n\<rparr>"

definition an_entity :: "string \<Rightarrow> string \<Rightarrow> string option \<Rightarrow> entity_status \<Rightarrow> entity_row" where
  "an_entity k file changeset st =
     \<lparr>e_entityId = k, e_fileId = file, e_changesetId = changeset, e_status = st, e_action = Some CREATE,
      e_failReason = None\<rparr>"

definition a_store :: "sync_row list \<Rightarrow> file_row list \<Rightarrow> entity_row list \<Rightarrow> store" where
  "a_store ss fs es =
     \<lparr>syncs = ss, files = fs, entities = es, changesets = [\<lparr>c_changesetId = ''c1'', c_osmId = None\<rparr>],
      history = []\<rparr>"

lemmas example_rows = a_sync_def a_file_def an_entity_def a_store_def

lemmas db_wf_eval = db_wf_def keys_unique_def refs_ok_def columns_typed_def fk_defs typed_defs
  int4_def e_key_def h_key_def ref_ok_def

text \<open>
  Two databases: a sync whose open file has both its entities closed, and a failed base sync with
  an empty file, a completed and a failed entity.
\<close>

definition closable_db :: store where
  "closable_db = a_store [a_sync ''s1'' IN_PROGRESS (Some 2) None 0]
     [a_file ''f1'' ''s1'' IN_PROGRESS (Some 2), a_file ''f2'' ''s1'' COMPLETED (Some 0)]
     [an_entity ''e1'' ''f1'' (Some ''c1'') E_COMPLETED, an_entity ''e2'' ''f1'' None E_NOT_SYNCED]"

definition failed_db :: store where
  "failed_db = a_store [a_sync ''s1'' FAILED (Some 1) None 0]
     [a_file ''f1'' ''s1'' IN_PROGRESS (Some 2), a_file ''f3'' ''s1'' IN_PROGRESS (Some 9)]
     [an_entity ''e1'' ''f1'' (Some ''c1'') E_COMPLETED, an_entity ''e2'' ''f1'' None E_FAILED]"

lemmas example_dbs = closable_db_def failed_db_def example_rows

lemma closable_db_wf [simp]: "db_wf closable_db"
  by (simp add: db_wf_eval example_dbs)

lemma failed_db_wf [simp]: "db_wf failed_db"
  by (simp add: db_wf_eval example_dbs)

end
