(* ===== verification/Repository.thy ===== *)
theory Repository
  imports Schema
begin

text \<open>
  The interface between the managers and the custom repositories, and the environment of a
  statement.

  Two decisions of TypeORM that the sources do not determine are parameters: what
  \<open>update(id, {})\<close> does when no column is to be set, and what \<open>whereInIds([])\<close> counts.  The clock
  of the database (LOCALTIMESTAMP) is the third.
\<close>

record env =
  now :: date
  empty_update :: "js_error + unit"
  count_no_ids :: "nat \<Rightarrow> nat"

definition example_env :: env where
  "example_env = \<lparr>now = 99, empty_update = Inr (), count_no_ids = (\<lambda>n. n)\<rparr>"

text \<open>A query leaves the state alone; a write stores the new table unless the statement failed.\<close>

definition reading :: "('s \<Rightarrow> 'a) \<Rightarrow> (js_error, 's, 'a) stmt" where
  "reading q s = (Inr (q s), s)"

definition writing ::
  "('r list \<Rightarrow> 's \<Rightarrow> 's) \<Rightarrow> js_error + 'r list \<Rightarrow> 's \<Rightarrow> (js_error + unit) \<times> 's" where
  "writing put res s = (case res of Inl e \<Rightarrow> (Inl e, s) | Inr rows \<Rightarrow> (Inr (), put rows s))"

lemma reading_simps [simp]: "fst (reading q s) = Inr (q s)" "snd (reading q s) = s"
  by (simp_all add: reading_def)

lemma writing_cases:
  assumes "writing put res s = (r, t)"
  obtains (failed) e where "res = Inl e" "r = Inl e" "t = s"
    | (stored) rows where "res = Inr rows" "r = Inr ()" "t = put rows s"
  using assms by (auto simp: writing_def split: sum.splits)

lemma writing_Inr_iff:
  "writing put res s = (Inr u, t) \<longleftrightarrow> (\<exists>rows. res = Inr rows \<and> t = put rows s)"
  by (auto simp: writing_def split: sum.splits)

lemma writing_Inl_iff: "writing put res s = (Inl e, t) \<longleftrightarrow> res = Inl e \<and> t = s"
  by (auto simp: writing_def split: sum.splits)

lemma writing_wf:
  assumes "db_wf s" and "\<And>rows. res = Inr rows \<Longrightarrow> db_wf (put rows s)"
  shows "db_wf (snd (writing put res s))"
  using assms by (auto simp: writing_def split: sum.splits)

lemma those_map_Some [simp]: "those (map (\<lambda>x. Some (f x)) xs) = Some (map f xs)"
  by (induction xs) simp_all

lemma those_Some_set:
  "those xs = Some ys \<Longrightarrow> Some y \<in> set xs \<Longrightarrow> y \<in> set ys"
  by (induction xs arbitrary: ys) (auto split: option.splits)

section \<open>The interface of a repository\<close>

text \<open>
  \<open>find_one\<close> looks a row up by its primary key and \<open>create\<close> inserts the rows of a request, all
  of them or none.  \<open>stored b\<close> is the row a request body becomes, \<open>None\<close> when a column that must
  not be NULL is missing.
\<close>

locale repository =
  fixes rows :: "'s \<Rightarrow> 'r list"
    and pk :: "'r \<Rightarrow> 'k"
    and stored :: "'b \<Rightarrow> 'r option"
    and find_one :: "'k \<Rightarrow> (js_error, 's, 'r option) stmt"
    and create :: "'b list \<Rightarrow> (js_error, 's, unit) stmt"
    and inv :: "'s \<Rightarrow> bool"
  assumes find_one_row: "find_one k s = (Inr (table_map pk (rows s) k), s)"
    and unique_keys: "inv s \<Longrightarrow> distinct (map pk (rows s))"
    and create_stored: "create bs s = (Inr u, t) \<Longrightarrow>
      \<exists>new. those (map stored bs) = Some new \<and> rows t = rows s @ new \<and>
        distinct (map pk new) \<and> pk ` set new \<inter> pk ` set (rows s) = {}"
    and create_failed: "create bs s = (Inl e, t) \<Longrightarrow> t = s"
    and create_inv: "inv s \<Longrightarrow> inv (snd (create bs s))"
begin

text \<open>The repository as a map from keys to rows, and what each operation does to it.\<close>

lemma find_one_query: "snd (find_one k s) = s" "fst (find_one k s) = Inr (table_map pk (rows s) k)"
  by (simp_all add: find_one_row)

lemma find_one_iff:
  assumes "inv s"
  shows "find_one k s = (Inr (Some r), s) \<longleftrightarrow> r \<in> set (rows s) \<and> pk r = k"
  using assms by (simp add: find_one_row table_map_Some unique_keys)

lemma find_one_missing:
  "find_one k s = (Inr None, s) \<longleftrightarrow> k \<notin> pk ` set (rows s)"
  by (auto simp: find_one_row table_map_def)

lemma create_refines:
  assumes "create [b] s = (Inr u, t)"
  shows "\<exists>r. stored b = Some r \<and> table_map pk (rows s) (pk r) = None \<and>
    table_map pk (rows t) = (table_map pk (rows s))(pk r \<mapsto> r)"
proof -
  from create_stored [OF assms] obtain r where r: "stored b = Some r" "rows t = rows s @ [r]"
      "pk r \<notin> pk ` set (rows s)"
    by (auto split: option.splits)
  then have "table_map pk (rows s) (pk r) = None"
    by (auto simp: table_map_def) (metis image_eqI)
  moreover have "table_map pk (rows t) = (table_map pk (rows s))(pk r \<mapsto> r)"
    using r \<open>table_map pk (rows s) (pk r) = None\<close>
    by (auto simp: fun_eq_iff table_map_append map_add_def split: option.splits)
      (auto simp: table_map_def select_one_def split: if_splits)
  ultimately show ?thesis using r by blast
qed

lemma create_then_find:
  assumes "create bs s = (Inr u, t)" and "inv s" and "b \<in> set bs" and "stored b = Some r"
  shows "find_one (pk r) t = (Inr (Some r), t)"
proof -
  have "inv t" using create_inv [OF assms(2), of bs] assms(1) by simp
  moreover obtain new where "those (map stored bs) = Some new" "rows t = rows s @ new"
    using create_stored [OF assms(1)] by blast
  moreover from this(1) assms(3,4) have "r \<in> set new"
    by (induction bs arbitrary: new) (auto split: option.splits)
  ultimately show ?thesis by (simp add: find_one_iff)
qed

lemma create_existing_fails:
  assumes "b \<in> set bs" and "stored b = Some r" and "pk r \<in> pk ` set (rows s)"
  shows "\<exists>e. create bs s = (Inl e, s)"
proof (cases "create bs s")
  case (Pair res t)
  show ?thesis
  proof (cases res)
    case (Inl e)
    with Pair show ?thesis using create_failed by metis
  next
    case (Inr u)
    with Pair create_stored obtain new where n: "those (map stored bs) = Some new"
        "pk ` set new \<inter> pk ` set (rows s) = {}" by metis
    from n(1) assms(1,2) have "r \<in> set new"
      by (induction bs arbitrary: new) (auto split: option.splits)
    with n(2) assms(3) show ?thesis by blast
  qed
qed

lemma create_keeps_rows:
  assumes "create bs s = (res, t)"
  shows "set (rows s) \<subseteq> set (rows t)"
proof (cases res)
  case (Inl e)
  with assms create_failed show ?thesis by blast
next
  case (Inr u)
  with assms create_stored obtain new where "rows t = rows s @ new" by metis
  then show ?thesis by simp
qed

end

section \<open>The contract of a closure\<close>

text \<open>
  An attempt to close returns the identifiers it closed and their number.  \<open>closable k s\<close> is what
  an attempt on \<open>k\<close> would close in the state \<open>s\<close>.  The workers rely on two promises: the count
  is the number of the identifiers, and an attempt leaves nothing more to close for its key.
\<close>

locale closing =
  fixes attempt :: "'k \<Rightarrow> (js_error, 's, 'i list \<times> nat) stmt"
    and closable :: "'k \<Rightarrow> 's \<Rightarrow> 'i list"
  assumes attempt_result: "fst (attempt k s) = Inr (closable k s, length (closable k s))"
    and attempt_closes: "closable k (snd (attempt k s)) = []"
    and nothing_closable: "closable k s = [] \<Longrightarrow> snd (attempt k s) = s"
begin

lemma attempt_pair: "attempt k s = (Inr (closable k s, length (closable k s)), snd (attempt k s))"
  by (metis attempt_result prod.collapse)

lemma attempt_again: "attempt k (snd (attempt k s)) = (Inr ([], 0), snd (attempt k s))"
  using attempt_pair [of k "snd (attempt k s)"]
  by (simp add: attempt_closes nothing_closable)

lemma count_zero_iff:
  "attempt k s = (Inr (ids, n), t) \<Longrightarrow> n = 0 \<longleftrightarrow> ids = []"
  using attempt_pair [of k s] by auto

lemma count_zero_no_effect: "attempt k s = (Inr (ids, 0), t) \<Longrightarrow> t = s"
  using attempt_pair [of k s] nothing_closable [of k s] by auto

end

end
