(* ===== verification/Changeset_Repository.thy ===== *)
theory Changeset_Repository
  imports Repository
begin

text \<open>
  \<^verbatim>\<open>src/src/changeset/DAL/changesetRepository.ts\<close>: the statements on changesets, and their
  instance of the repository interface.
\<close>

record changeset_body =
  cb_changesetId :: string
  cb_osmId :: "int js"

record changeset_update =
  cu_osmId :: "int js"

definition changeset_row_of :: "changeset_body \<Rightarrow> changeset_row" where
  "changeset_row_of b = \<lparr>c_changesetId = cb_changesetId b, c_osmId = to_nullable (cb_osmId b)\<rparr>"

definition put_changesets :: "changeset_row list \<Rightarrow> store \<Rightarrow> store" where
  "put_changesets cs d = d\<lparr>changesets := cs\<rparr>"

definition insert_changesets :: "changeset_body list \<Rightarrow> (js_error, store, unit) stmt" where
  "insert_changesets bs d = writing put_changesets
     (sql_insert c_changesetId changeset_typed (\<lambda>_ _. True) (map changeset_row_of bs) (changesets d)) d"

definition createChangeset :: "changeset_body \<Rightarrow> (js_error, store, unit) stmt" where
  "createChangeset b = insert_changesets [b]"

definition updateChangeset_row ::
  "env \<Rightarrow> string \<Rightarrow> changeset_update \<Rightarrow> (js_error, store, unit) stmt" where
  "updateChangeset_row env changesetId u d =
     (if cu_osmId u = Undefined then (empty_update env, d)
      else writing put_changesets
        (sql_update (int4_null (to_nullable (cu_osmId u))) (\<lambda>_ _. True)
          (\<lambda>c. c_changesetId c = changesetId)
          (\<lambda>c. c\<lparr>c_osmId := patch_nullable (c_osmId c) (cu_osmId u)\<rparr>) (changesets d)) d)"

definition updateEntitiesOfChangesetAsCompleted :: "string \<Rightarrow> (js_error, store, unit) stmt" where
  "updateEntitiesOfChangesetAsCompleted changesetId d =
     (Inr (), d\<lparr>entities := update_where (\<lambda>e. e_changesetId e = Some changesetId)
        (\<lambda>e. e\<lparr>e_status := E_COMPLETED\<rparr>) (entities d)\<rparr>)"

definition findOneChangeset :: "string \<Rightarrow> (js_error, store, changeset_row option) stmt" where
  "findOneChangeset changesetId =
     reading (\<lambda>d. select_one (\<lambda>c. c_changesetId c = changesetId) (changesets d))"

section \<open>Invariant and interface\<close>

lemma insert_changesets_wf:
  assumes "db_wf d"
  shows "db_wf (snd (insert_changesets bs d))"
  unfolding insert_changesets_def
proof (rule writing_wf)
  fix cs
  assume ins: "sql_insert c_changesetId changeset_typed (\<lambda>_ _. True) (map changeset_row_of bs)
    (changesets d) = Inr cs"
  from assms have "list_all changeset_typed (changesets d)"
    by (simp add: db_wf_def columns_typed_def)
  with ins sql_insert_distinct [OF ins db_wfD(4) [OF assms]] show "db_wf (put_changesets cs d)"
    unfolding put_changesets_def
    by (intro db_wf_changesets [OF assms]) (auto simp: sql_insert_Inr_iff list_all_iff)
qed (rule assms)

lemma createChangeset_wf [inv_intros]: "db_wf d \<Longrightarrow> db_wf (snd (createChangeset b d))"
  by (simp add: createChangeset_def insert_changesets_wf)

lemma updateChangeset_row_wf [inv_intros]:
  assumes "db_wf d"
  shows "db_wf (snd (updateChangeset_row env changesetId u d))"
  using assms unfolding updateChangeset_row_def
  by (cases "cu_osmId u")
    (auto intro!: writing_wf db_wf_update_changesets
      simp: sql_update_Inr_iff put_changesets_def changeset_typed_def)

lemma updateEntitiesOfChangesetAsCompleted_wf [inv_intros]:
  "db_wf d \<Longrightarrow> db_wf (snd (updateEntitiesOfChangesetAsCompleted changesetId d))"
  by (auto intro!: db_wf_update_entities
      simp: updateEntitiesOfChangesetAsCompleted_def e_key_def entity_fk_def)

lemma findOneChangeset_wf [inv_intros]: "db_wf d \<Longrightarrow> db_wf (snd (findOneChangeset k d))"
  by (simp add: findOneChangeset_def)

interpretation changeset_repo: repository changesets c_changesetId
  "\<lambda>b. Some (changeset_row_of b)" findOneChangeset insert_changesets db_wf
proof unfold_locales
  fix k s
  show "findOneChangeset k s = (Inr (table_map c_changesetId (changesets s) k), s)"
    by (simp add: findOneChangeset_def reading_def table_map_def)
next
  fix s
  assume "db_wf s"
  then show "distinct (map c_changesetId (changesets s))" by (rule db_wfD)
next
  fix bs s u t
  assume "insert_changesets bs s = (Inr u, t)"
  then show "\<exists>new. those (map (\<lambda>b. Some (changeset_row_of b)) bs) = Some new \<and>
      changesets t = changesets s @ new \<and> distinct (map c_changesetId new) \<and>
      c_changesetId ` set new \<inter> c_changesetId ` set (changesets s) = {}"
    by (auto simp: insert_changesets_def writing_Inr_iff sql_insert_Inr_iff put_changesets_def)
qed (auto simp: insert_changesets_def writing_Inl_iff insert_changesets_wf [unfolded insert_changesets_def])

declare changeset_repo.find_one_row [queries]

end
