(* ===== verification/Entity_Repository.thy ===== *)
theory Entity_Repository
  imports Repository
begin

text \<open>
  \<^verbatim>\<open>src/src/entity/DAL/entityRepository.ts\<close>: the statements on entities and their instance of
  the repository interface.
\<close>

text \<open>
  \<open>entity_body\<close> is the interface \<open>Entity\<close> of \<^verbatim>\<open>models/entity.ts\<close> and also an element of
  \<open>UpdateEntities\<close>, whose two identifiers are both present.
\<close>

record entity_body =
  eb_entityId :: string
  eb_fileId :: "string option"
  eb_changesetId :: "string js"
  eb_status :: "entity_status option"
  eb_action :: "action_type js"
  eb_failReason :: "string js"

record entity_update =
  eu_changesetId :: "string js"
  eu_status :: "entity_status option"
  eu_action :: "action_type js"
  eu_failReason :: "string js"

definition entity_row_of :: "entity_body \<Rightarrow> entity_row option" where
  "entity_row_of b = map_option (\<lambda>fileId.
     \<lparr>e_entityId = eb_entityId b, e_fileId = fileId,
      e_changesetId = to_nullable (eb_changesetId b),
      e_status = patch_col E_IN_PROGRESS (eb_status b),
      e_action = to_nullable (eb_action b),
      e_failReason = to_nullable (eb_failReason b)\<rparr>) (eb_fileId b)"

definition put_entities :: "entity_row list \<Rightarrow> store \<Rightarrow> store" where
  "put_entities es d = d\<lparr>entities := es\<rparr>"

definition createEntities_rows :: "entity_body list \<Rightarrow> (js_error, store, unit) stmt" where
  "createEntities_rows bs d =
     (case those (map entity_row_of bs) of
        None \<Rightarrow> (Inl not_null_violation, d)
      | Some new \<Rightarrow> writing put_entities
          (sql_insert e_key (\<lambda>_. True) (\<lambda>_. entity_fk d) new (entities d)) d)"

definition createEntity_row :: "entity_body \<Rightarrow> (js_error, store, unit) stmt" where
  "createEntity_row b = createEntities_rows [b]"

definition update_entity_row :: "entity_update \<Rightarrow> entity_row \<Rightarrow> entity_row" where
  "update_entity_row u e =
     e\<lparr>e_changesetId := patch_nullable (e_changesetId e) (eu_changesetId u),
       e_status := patch_col (e_status e) (eu_status u),
       e_action := patch_nullable (e_action e) (eu_action u),
       e_failReason := patch_nullable (e_failReason e) (eu_failReason u)\<rparr>"

definition no_entity_update :: entity_update where
  "no_entity_update = \<lparr>eu_changesetId = Undefined, eu_status = None, eu_action = Undefined,
     eu_failReason = Undefined\<rparr>"

definition updateEntity_row ::
  "env \<Rightarrow> string \<Rightarrow> string \<Rightarrow> entity_update \<Rightarrow> (js_error, store, unit) stmt" where
  "updateEntity_row env entityId fileId u d =
     (if u = no_entity_update then (empty_update env, d)
      else writing put_entities
        (sql_update True (\<lambda>_ e. ref_ok c_changesetId (changesets d) (to_nullable (eu_changesetId u)))
          (\<lambda>e. e_entityId e = entityId \<and> e_fileId e = fileId) (update_entity_row u) (entities d)) d)"

text \<open>
  \<open>save(entities)\<close>: an entity whose identifiers exist is updated with the properties it has, any
  other is inserted; all in one transaction.
\<close>

definition matches_entity :: "entity_body \<Rightarrow> entity_row \<Rightarrow> bool" where
  "matches_entity b e \<longleftrightarrow> e_entityId e = eb_entityId b \<and> Some (e_fileId e) = eb_fileId b"

definition entity_update_of :: "entity_body \<Rightarrow> entity_update" where
  "entity_update_of b = \<lparr>eu_changesetId = eb_changesetId b, eu_status = eb_status b,
     eu_action = eb_action b, eu_failReason = eb_failReason b\<rparr>"

definition apply_saves :: "entity_body list \<Rightarrow> entity_row list \<Rightarrow> entity_row list" where
  "apply_saves bs rows =
     fold (\<lambda>b. update_where (matches_entity b) (update_entity_row (entity_update_of b))) bs rows"

definition updateEntities_rows :: "entity_body list \<Rightarrow> (js_error, store, unit) stmt" where
  "updateEntities_rows bs d =
     (let olds = filter (\<lambda>b. list_ex (matches_entity b) (entities d)) bs;
          news = filter (\<lambda>b. \<not> list_ex (matches_entity b) (entities d)) bs
      in case those (map entity_row_of news) of
           None \<Rightarrow> (Inl not_null_violation, d)
         | Some new \<Rightarrow> writing put_entities
             (case sql_insert e_key (\<lambda>_. True) (\<lambda>_. entity_fk d) new (entities d) of
                Inl e \<Rightarrow> Inl e
              | Inr rows \<Rightarrow>
                  if list_all (\<lambda>b. ref_ok c_changesetId (changesets d) (to_nullable (eb_changesetId b))) olds
                  then Inr (apply_saves olds rows)
                  else Inl foreign_key_violation) d)"

definition findOneEntity :: "string \<Rightarrow> string \<Rightarrow> (js_error, store, entity_row option) stmt" where
  "findOneEntity entityId fileId =
     reading (\<lambda>d. select_one (\<lambda>e. e_entityId e = entityId \<and> e_fileId e = fileId) (entities d))"

definition findManyEntitiesByIds ::
  "entity_body list \<Rightarrow> (js_error, store, entity_row list option) stmt" where
  "findManyEntitiesByIds bs = reading (\<lambda>d.
     let entityEntities = filter (\<lambda>e. e_entityId e \<in> set (map eb_entityId bs) \<and>
           Some (e_fileId e) \<in> set (map eb_fileId bs)) (entities d)
     in if length entityEntities = 0 then None else Some entityEntities)"

text \<open>SELECT DISTINCT ON (file id) of the join of the entities with their files.\<close>

definition findFilesByChangesets ::
  "string list \<Rightarrow> status list \<Rightarrow> (js_error, store, string list) stmt" where
  "findFilesByChangesets changesetIds fileStatuses = reading (\<lambda>d.
     array_from_set [e_fileId e. e \<leftarrow> entities d, f \<leftarrow> files d, f_fileId f = e_fileId e,
       e_changesetId e \<in> set (map Some changesetIds), f_status f \<in> set fileStatuses])"

definition countEntitiesByIds :: "env \<Rightarrow> (string \<times> string) list \<Rightarrow> (js_error, store, nat) stmt" where
  "countEntitiesByIds env ids = reading (\<lambda>d.
     if ids = [] then count_no_ids env (length (entities d))
     else length (filter (\<lambda>e. (e_entityId e, e_fileId e) \<in> set ids) (entities d)))"

section \<open>Invariant and interface\<close>

lemma update_entity_row_simps [simp]:
  "e_entityId (update_entity_row u e) = e_entityId e"
  "e_fileId (update_entity_row u e) = e_fileId e"
  "e_key (update_entity_row u e) = e_key e"
  by (simp_all add: update_entity_row_def e_key_def)

lemma update_entity_row_fk:
  "entity_fk d e \<Longrightarrow> ref_ok c_changesetId (changesets d) (to_nullable (eu_changesetId u)) \<Longrightarrow>
    entity_fk d (update_entity_row u e)"
  by (cases "eu_changesetId u") (auto simp: entity_fk_def update_entity_row_def)

lemma createEntities_rows_wf [inv_intros]:
  assumes "db_wf d"
  shows "db_wf (snd (createEntities_rows bs d))"
proof (cases "those (map entity_row_of bs)")
  case None
  with assms show ?thesis by (simp add: createEntities_rows_def)
next
  case (Some new)
  have "db_wf (put_entities es d)"
    if ins: "sql_insert e_key (\<lambda>_. True) (\<lambda>_. entity_fk d) new (entities d) = Inr es" for es
    using ins sql_insert_distinct [OF ins db_wfD(3) [OF assms]] assms unfolding put_entities_def
    by (intro db_wf_entities [OF assms])
      (auto simp: sql_insert_Inr_iff list_all_iff db_wf_def refs_ok_def)
  with Some assms show ?thesis
    by (auto simp: createEntities_rows_def intro: writing_wf)
qed

lemma createEntity_row_wf [inv_intros]: "db_wf d \<Longrightarrow> db_wf (snd (createEntity_row b d))"
  by (simp add: createEntity_row_def createEntities_rows_wf)

lemma updateEntity_row_wf [inv_intros]:
  "db_wf d \<Longrightarrow> db_wf (snd (updateEntity_row env entityId fileId u d))"
  unfolding updateEntity_row_def
  by (auto intro!: writing_wf db_wf_update_entities update_entity_row_fk
      simp: sql_update_Inr_iff put_entities_def)

lemma apply_saves_wf:
  assumes "db_wf (put_entities rows d)"
    and "\<forall>b \<in> set bs. ref_ok c_changesetId (changesets d) (to_nullable (eb_changesetId b))"
  shows "db_wf (put_entities (apply_saves bs rows) d)"
  using assms
proof (induction bs arbitrary: rows)
  case Nil
  then show ?case by (simp add: apply_saves_def)
next
  case (Cons b bs)
  let ?rows = "update_where (matches_entity b) (update_entity_row (entity_update_of b)) rows"
  let ?d = "put_entities rows d" and ?f = "update_entity_row (entity_update_of b)"
  have "db_wf (?d\<lparr>entities := update_where (matches_entity b) ?f (entities ?d)\<rparr>)"
    using Cons.prems
    by (intro db_wf_update_entities update_entity_row_fk)
      (simp_all add: put_entities_def entity_update_of_def)
  then have "db_wf (put_entities ?rows d)" by (simp add: put_entities_def)
  with Cons show ?case by (simp add: apply_saves_def)
qed

lemma updateEntities_rows_wf [inv_intros]:
  assumes "db_wf d"
  shows "db_wf (snd (updateEntities_rows bs d))"
proof -
  have "db_wf (put_entities rows d)"
    if ins: "sql_insert e_key (\<lambda>_. True) (\<lambda>_. entity_fk d) new (entities d) = Inr rows" for new rows
    using ins sql_insert_distinct [OF ins db_wfD(3) [OF assms]] assms unfolding put_entities_def
    by (intro db_wf_entities [OF assms])
      (auto simp: sql_insert_Inr_iff list_all_iff db_wf_def refs_ok_def)
  with assms show ?thesis
    by (auto simp: updateEntities_rows_def Let_def list_all_iff
        intro!: writing_wf apply_saves_wf split: option.splits sum.splits if_splits)
qed

lemma findOneEntity_wf [inv_intros]: "db_wf d \<Longrightarrow> db_wf (snd (findOneEntity k k' d))"
  by (simp add: findOneEntity_def)

lemma findManyEntitiesByIds_wf [inv_intros]: "db_wf d \<Longrightarrow> db_wf (snd (findManyEntitiesByIds bs d))"
  by (simp add: findManyEntitiesByIds_def)

lemma findFilesByChangesets_wf [inv_intros]:
  "db_wf d \<Longrightarrow> db_wf (snd (findFilesByChangesets cs sts d))"
  by (simp add: findFilesByChangesets_def)

lemma countEntitiesByIds_wf [inv_intros]: "db_wf d \<Longrightarrow> db_wf (snd (countEntitiesByIds env ids d))"
  by (simp add: countEntitiesByIds_def)

interpretation entity_repo: repository entities e_key entity_row_of
  "\<lambda>k. findOneEntity (fst k) (snd k)" createEntities_rows db_wf
proof unfold_locales
  fix k s
  have "(\<lambda>e. e_entityId e = fst k \<and> e_fileId e = snd k) = (\<lambda>e. e_key e = k)"
    by (auto simp: fun_eq_iff e_key_def)
  then show "findOneEntity (fst k) (snd k) s = (Inr (table_map e_key (entities s) k), s)"
    by (simp add: findOneEntity_def reading_def table_map_def)
next
  fix bs s u t
  assume "createEntities_rows bs s = (Inr u, t)"
  then show "\<exists>new. those (map entity_row_of bs) = Some new \<and> entities t = entities s @ new \<and>
      distinct (map e_key new) \<and> e_key ` set new \<inter> e_key ` set (entities s) = {}"
    by (auto simp: createEntities_rows_def writing_Inr_iff sql_insert_Inr_iff put_entities_def
        split: option.splits)
next
  fix bs s e t
  assume "createEntities_rows bs s = (Inl e, t)"
  then show "t = s"
    by (auto simp: createEntities_rows_def writing_Inl_iff split: option.splits)
qed (auto intro: db_wfD createEntities_rows_wf)

declare entity_repo.find_one_row [queries]

end
