(* ===== verification/File_Repository.thy ===== *)
theory File_Repository
  imports Repository
begin

text \<open>
  \<^verbatim>\<open>src/src/file/DAL/fileRepository.ts\<close>: the statements on files, the closure of a file, and
  their instances of the repository and closure interfaces.
\<close>

record file_body =
  fb_fileId :: string
  fb_syncId :: string
  fb_totalEntities :: "int js"
  fb_startDate :: date
  fb_endDate :: "date js"
  fb_status :: "status option"

record file_update =
  fu_totalEntities :: "int js"

text \<open>The row of a file, with the defaults of \<^verbatim>\<open>DAL/file.ts\<close> for the absent columns.\<close>

definition file_row_of :: "file_body \<Rightarrow> file_row" where
  "file_row_of b =
     \<lparr>f_fileId = fb_fileId b, f_syncId = fb_syncId b, f_startDate = fb_startDate b,
      f_endDate = to_nullable (fb_endDate b), f_status = patch_col IN_PROGRESS (fb_status b),
      f_totalEntities = to_nullable (fb_totalEntities b)\<rparr>"

definition put_files :: "file_row list \<Rightarrow> store \<Rightarrow> store" where
  "put_files fs d = d\<lparr>files := fs\<rparr>"

definition createFiles_rows :: "file_body list \<Rightarrow> (js_error, store, unit) stmt" where
  "createFiles_rows bs d = writing put_files
     (sql_insert f_fileId file_typed (\<lambda>_. file_fk d) (map file_row_of bs) (files d)) d"

definition createFile_row :: "file_body \<Rightarrow> (js_error, store, unit) stmt" where
  "createFile_row b = createFiles_rows [b]"

definition updateFile_row :: "env \<Rightarrow> string \<Rightarrow> file_update \<Rightarrow> (js_error, store, unit) stmt" where
  "updateFile_row env fileId u d =
     (if fu_totalEntities u = Undefined then (empty_update env, d)
      else writing put_files
        (sql_update (int4_null (to_nullable (fu_totalEntities u))) (\<lambda>_ _. True)
          (\<lambda>f. f_fileId f = fileId)
          (\<lambda>f. f\<lparr>f_totalEntities := patch_nullable (f_totalEntities f) (fu_totalEntities u)\<rparr>)
          (files d)) d)"

definition findOneFile :: "string \<Rightarrow> (js_error, store, file_row option) stmt" where
  "findOneFile fileId = reading (\<lambda>d. select_one (\<lambda>f. f_fileId f = fileId) (files d))"

definition findManyFilesByIds :: "file_body list \<Rightarrow> (js_error, store, file_row list option) stmt" where
  "findManyFilesByIds fs = reading (\<lambda>d.
     let filesEntities = filter (\<lambda>f. f_fileId f \<in> set (map fb_fileId fs)) (files d)
     in if length filesEntities = 0 then None else Some filesEntities)"

text \<open>\<open>CLOSED_PARAMS\<close> of \<^verbatim>\<open>common/db/index.ts\<close>, on a file.\<close>

definition close_file :: "date \<Rightarrow> file_row \<Rightarrow> file_row" where
  "close_file ts f = f\<lparr>f_status := COMPLETED, f_endDate := Some ts\<rparr>"

text \<open>
  The subquery of \<open>attemptFileClosure\<close> (the entities of the file that are closed) and its WHERE
  clause.  A \<open>total_entities\<close> that is NULL equals no count.
\<close>

definition closed_entities :: "string \<Rightarrow> store \<Rightarrow> entity_row list" where
  "closed_entities fileId d =
     filter (\<lambda>e. e_fileId e = fileId \<and> e_status e \<in> {E_COMPLETED, E_NOT_SYNCED}) (entities d)"

definition file_up_for_closure :: "string \<Rightarrow> store \<Rightarrow> file_row \<Rightarrow> bool" where
  "file_up_for_closure fileId d f \<longleftrightarrow>
     f_fileId f = fileId \<and> f_status f \<noteq> COMPLETED \<and>
     f_totalEntities f = Some (int (length (closed_entities fileId d)))"

text \<open>The RETURNING clause gives the pairs of \<open>fileId\<close> and \<open>syncId\<close> of the closed files.\<close>

definition attemptFileClosure ::
  "date \<Rightarrow> string \<Rightarrow> (js_error, store, (string \<times> string) list \<times> nat) stmt" where
  "attemptFileClosure ts fileId d =
     (let closed = filter (file_up_for_closure fileId d) (files d)
      in (Inr (map (\<lambda>f. (f_fileId f, f_syncId f)) closed, length closed),
          d\<lparr>files := update_where (file_up_for_closure fileId d) (close_file ts) (files d)\<rparr>))"

section \<open>Invariant and interfaces\<close>

lemma close_file_simps [simp]:
  "f_fileId (close_file ts f) = f_fileId f" "f_syncId (close_file ts f) = f_syncId f"
  "f_status (close_file ts f) = COMPLETED" "f_totalEntities (close_file ts f) = f_totalEntities f"
  "f_endDate (close_file ts f) = Some ts" "f_startDate (close_file ts f) = f_startDate f"
  by (simp_all add: close_file_def)

lemma createFiles_rows_wf [inv_intros]:
  assumes "db_wf d"
  shows "db_wf (snd (createFiles_rows bs d))"
  unfolding createFiles_rows_def
proof (rule writing_wf)
  fix fs
  assume ins: "sql_insert f_fileId file_typed (\<lambda>_. file_fk d) (map file_row_of bs) (files d) = Inr fs"
  from assms have "list_all file_typed (files d)" "list_all (file_fk d) (files d)"
    by (simp_all add: db_wf_def columns_typed_def refs_ok_def)
  with ins sql_insert_distinct [OF ins db_wfD(2) [OF assms]] show "db_wf (put_files fs d)"
    unfolding put_files_def
    by (intro db_wf_files [OF assms]) (auto simp: sql_insert_Inr_iff list_all_iff)
qed (rule assms)

lemma createFile_row_wf [inv_intros]: "db_wf d \<Longrightarrow> db_wf (snd (createFile_row b d))"
  by (simp add: createFile_row_def createFiles_rows_wf)

lemma updateFile_row_wf [inv_intros]:
  "db_wf d \<Longrightarrow> db_wf (snd (updateFile_row env fileId u d))"
  unfolding updateFile_row_def
  by (cases "fu_totalEntities u")
    (auto intro!: writing_wf db_wf_update_files
      simp: sql_update_Inr_iff put_files_def file_typed_def)

lemma findOneFile_wf [inv_intros]: "db_wf d \<Longrightarrow> db_wf (snd (findOneFile k d))"
  by (simp add: findOneFile_def)

lemma findManyFilesByIds_wf [inv_intros]: "db_wf d \<Longrightarrow> db_wf (snd (findManyFilesByIds fs d))"
  by (simp add: findManyFilesByIds_def)

lemma attemptFileClosure_wf [inv_intros]:
  "db_wf d \<Longrightarrow> db_wf (snd (attemptFileClosure ts fileId d))"
  by (auto intro!: db_wf_update_files simp: attemptFileClosure_def Let_def file_typed_def)

interpretation file_repo: repository files f_fileId
  "\<lambda>b. Some (file_row_of b)" findOneFile createFiles_rows db_wf
proof unfold_locales
  fix k s
  show "findOneFile k s = (Inr (table_map f_fileId (files s) k), s)"
    by (simp add: findOneFile_def reading_def table_map_def)
next
  fix bs s u t
  assume "createFiles_rows bs s = (Inr u, t)"
  then show "\<exists>new. those (map (\<lambda>b. Some (file_row_of b)) bs) = Some new \<and>
      files t = files s @ new \<and> distinct (map f_fileId new) \<and>
      f_fileId ` set new \<inter> f_fileId ` set (files s) = {}"
    by (auto simp: createFiles_rows_def writing_Inr_iff sql_insert_Inr_iff put_files_def)
qed (auto simp: createFiles_rows_def writing_Inl_iff db_wfD intro: createFiles_rows_wf [unfolded createFiles_rows_def])

definition closable_files :: "string \<Rightarrow> store \<Rightarrow> (string \<times> string) list" where
  "closable_files fileId d =
     map (\<lambda>f. (f_fileId f, f_syncId f)) (filter (file_up_for_closure fileId d) (files d))"

lemma closed_entities_files [simp]: "closed_entities k (d\<lparr>files := fs\<rparr>) = closed_entities k d"
  by (simp add: closed_entities_def)

lemma file_up_for_closure_files [simp]:
  "file_up_for_closure k (d\<lparr>files := fs\<rparr>) = file_up_for_closure k d"
  by (simp add: file_up_for_closure_def fun_eq_iff)

lemma file_up_for_closure_closed [simp]: "\<not> file_up_for_closure k d (close_file ts f)"
  by (simp add: file_up_for_closure_def)

interpretation file_closing: closing "attemptFileClosure ts" closable_files for ts
proof unfold_locales
  fix k s
  show "fst (attemptFileClosure ts k s) = Inr (closable_files k s, length (closable_files k s))"
    by (simp add: attemptFileClosure_def closable_files_def Let_def)
  show "closable_files k (snd (attemptFileClosure ts k s)) = []"
    by (auto simp: attemptFileClosure_def closable_files_def Let_def filter_empty_conv set_update_where)
  show "snd (attemptFileClosure ts k s) = s" if "closable_files k s = []"
    using that by (simp add: attemptFileClosure_def closable_files_def Let_def filter_empty_conv
        update_where_none)
qed

declare file_repo.find_one_row [queries]

section \<open>Sequences of attempts\<close>

text \<open>What attempts on the files \<open>ks\<close> leave of the file table, in whatever order they run.\<close>

definition files_closed :: "date \<Rightarrow> string list \<Rightarrow> store \<Rightarrow> store" where
  "files_closed ts ks d = d\<lparr>files := update_where
     (\<lambda>f. f_fileId f \<in> set ks \<and> file_up_for_closure (f_fileId f) d f) (close_file ts) (files d)\<rparr>"

lemma attemptFileClosure_state: "snd (attemptFileClosure ts k d) = files_closed ts [k] d"
proof -
  have "update_where (file_up_for_closure k d) g fs =
      update_where (\<lambda>f. f_fileId f \<in> set [k] \<and> file_up_for_closure (f_fileId f) d f) g fs" for g fs
    by (auto simp: update_where_def file_up_for_closure_def)
  then show ?thesis by (simp only: attemptFileClosure_def Let_def files_closed_def snd_conv)
qed

lemma files_closed_simps [simp]:
  "syncs (files_closed ts ks d) = syncs d" "entities (files_closed ts ks d) = entities d"
  "closed_entities k (files_closed ts ks d) = closed_entities k d"
  "file_up_for_closure k (files_closed ts ks d) = file_up_for_closure k d"
  by (simp_all add: files_closed_def)

lemma files_closed_append:
  "files_closed ts ks' (files_closed ts ks d) = files_closed ts (ks @ ks') d"
proof -
  have "files (files_closed ts ks' (files_closed ts ks d)) = files (files_closed ts (ks @ ks') d)"
    unfolding files_closed_def by (auto simp: update_where_def)
  then show ?thesis by (simp add: files_closed_def)
qed

lemma files_closed_set: "set ks = set ks' \<Longrightarrow> files_closed ts ks d = files_closed ts ks' d"
  by (simp add: files_closed_def)

lemma files_closed_ids: "map f_fileId (files (files_closed ts ks d)) = map f_fileId (files d)"
  by (simp add: files_closed_def map_update_where_key)

lemma set_closable_files:
  "(k, s) \<in> set (closable_files fileId d) \<longleftrightarrow>
    k = fileId \<and> (\<exists>f \<in> set (files d). file_up_for_closure fileId d f \<and> f_syncId f = s)"
  by (auto simp: closable_files_def file_up_for_closure_def image_iff)

lemma closable_files_after:
  assumes "k \<notin> set ks"
  shows "closable_files k (files_closed ts ks d) = closable_files k d"
proof -
  have "map (\<lambda>f. (f_fileId f, f_syncId f)) (filter (file_up_for_closure k d)
      (update_where (\<lambda>f. f_fileId f \<in> set ks \<and> file_up_for_closure (f_fileId f) d f) (close_file ts) fs)) =
    map (\<lambda>f. (f_fileId f, f_syncId f)) (filter (file_up_for_closure k d) fs)" for fs
    using assms by (induction fs) (auto simp: file_up_for_closure_def)
  then show ?thesis by (simp add: closable_files_def files_closed_def)
qed

lemma fold_attemptFileClosure:
  "fold (\<lambda>k t. snd (attemptFileClosure ts k t)) ks d = files_closed ts ks d"
proof (induction ks arbitrary: d)
  case Nil
  show ?case by (simp add: files_closed_def update_where_none)
next
  case (Cons k ks)
  then show ?case
    using files_closed_append [of ts ks "[k]" d] by (simp add: attemptFileClosure_state)
qed

section \<open>Properties\<close>

text \<open>
  C10: an attempt to close a file closes it exactly when it is not completed yet and its
  \<open>total_entities\<close> is the number of its completed and not-synced entities; it then sets the status
  and the end date of that file alone and returns it with its sync.  Otherwise nothing changes.
\<close>

theorem attemptFileClosure_correct:
  assumes wf: "db_wf d" and f: "f \<in> set (files d)" "f_fileId f = k"
  shows "attemptFileClosure ts k d =
    (if f_status f \<noteq> COMPLETED \<and>
        f_totalEntities f = Some (int (length (filter (\<lambda>e. e_fileId e = k \<and>
          (e_status e = E_COMPLETED \<or> e_status e = E_NOT_SYNCED)) (entities d))))
     then (Inr ([(k, f_syncId f)], 1),
       d\<lparr>files := map (\<lambda>g. if g = f then f\<lparr>f_status := COMPLETED, f_endDate := Some ts\<rparr> else g) (files d)\<rparr>)
     else (Inr ([], 0), d))"
proof -
  have closed: "closed_entities k d = filter (\<lambda>e. e_fileId e = k \<and>
      (e_status e = E_COMPLETED \<or> e_status e = E_NOT_SYNCED)) (entities d)"
    by (simp add: closed_entities_def)
  have up: "file_up_for_closure k d g \<longleftrightarrow> g = f \<and> file_up_for_closure k d f" if "g \<in> set (files d)" for g
    using that f distinct_key_eq [OF db_wfD(2) [OF wf], of g f] by (auto simp: file_up_for_closure_def)
  have here: "file_up_for_closure k d f \<longleftrightarrow>
      f_status f \<noteq> COMPLETED \<and> f_totalEntities f = Some (int (length (closed_entities k d)))"
    using f by (simp add: file_up_for_closure_def)
  show ?thesis
  proof (cases "file_up_for_closure k d f")
    case True
    have "filter (file_up_for_closure k d) (files d) = filter (\<lambda>g. g = f) (files d)"
      using up True by (intro filter_cong) auto
    also have "\<dots> = [f]"
      using f(1) distinct_mapD [OF db_wfD(2) [OF wf]] by (rule filter_eq_distinct)
    finally have sel: "filter (file_up_for_closure k d) (files d) = [f]" .
    have "update_where (file_up_for_closure k d) (close_file ts) (files d) =
        map (\<lambda>g. if g = f then f\<lparr>f_status := COMPLETED, f_endDate := Some ts\<rparr> else g) (files d)"
      unfolding update_where_def
    proof (rule map_cong [OF HOL.refl])
      fix g
      assume "g \<in> set (files d)"
      from up [OF this] True show "(if file_up_for_closure k d g then close_file ts g else g) =
          (if g = f then f\<lparr>f_status := COMPLETED, f_endDate := Some ts\<rparr> else g)"
        by (auto simp: close_file_def)
    qed
    with sel True here closed f(2) show ?thesis
      by (simp add: attemptFileClosure_def Let_def)
  next
    case False
    then have none: "\<And>g. g \<in> set (files d) \<Longrightarrow> \<not> file_up_for_closure k d g" using up by blast
    then have "filter (file_up_for_closure k d) (files d) = []" by (simp add: filter_empty_conv)
    with False here closed show ?thesis
      by (auto simp: attemptFileClosure_def Let_def update_where_none [OF none])
  qed
qed

theorem attemptFileClosure_correct_witness:
  "attemptFileClosure 99 ''f1'' closable_db = (Inr ([(''f1'', ''s1'')], 1),
    closable_db\<lparr>files := [(a_file ''f1'' ''s1'' COMPLETED (Some 2))\<lparr>f_endDate := Some 99\<rparr>,
      a_file ''f2'' ''s1'' COMPLETED (Some 0)]\<rparr>)"
  using attemptFileClosure_correct [OF closable_db_wf, of "a_file ''f1'' ''s1'' IN_PROGRESS (Some 2)" "''f1''" 99]
  by (simp add: example_dbs)

text \<open>
  C21: the order of attempts does not matter.  Attempts on the same files, in any order and any
  number of times, leave the same database; afterwards an attempt on one of them closes nothing, and
  an attempt on another file answers as if none of them had run.
\<close>

theorem attemptFileClosure_any_order:
  fixes d :: store and ts :: date
  assumes "set ks = set ks'"
  defines "after js \<equiv> fold (\<lambda>k t. snd (attemptFileClosure ts k t)) js d"
  shows "after ks = after ks' \<and>
    (\<forall>k. fst (attemptFileClosure ts k (after ks)) =
      (if k \<in> set ks then Inr ([], 0) else fst (attemptFileClosure ts k d)))"
proof -
  have after: "after js = files_closed ts js d" for js
    by (simp add: after_def fold_attemptFileClosure)
  have "closable_files k (files_closed ts ks d) = (if k \<in> set ks then [] else closable_files k d)" for k
  proof (cases "k \<in> set ks")
    case True
    have "files_closed ts ks d = snd (attemptFileClosure ts k (files_closed ts ks d))"
      using True by (simp add: attemptFileClosure_state files_closed_append files_closed_set [of "k # ks" ks]
          files_closed_set [of "ks @ [k]" ks] insert_absorb)
    with True file_closing.attempt_closes [of k ts "files_closed ts ks d"] show ?thesis by simp
  qed (simp add: closable_files_after)
  then show ?thesis
    using files_closed_set [OF assms(1), of ts d] by (simp add: after file_closing.attempt_result)
qed

theorem attemptFileClosure_any_order_witness:
  "fold (\<lambda>k t. snd (attemptFileClosure 99 k t)) [''f2'', ''f1'', ''f2''] closable_db =
    fold (\<lambda>k t. snd (attemptFileClosure 99 k t)) [''f1'', ''f2''] closable_db"
  using attemptFileClosure_any_order [of "[''f2'', ''f1'', ''f2'']" "[''f1'', ''f2'']" 99 closable_db]
  by (simp add: insert_commute del: fold.simps)

end
