(* ===== verification/Sync_Repository.thy ===== *)
theory Sync_Repository
  imports Repository "HOL-Library.Product_Lexorder"
begin

text \<open>
  \<^verbatim>\<open>src/src/sync/DAL/syncRepository.ts\<close> without the creation of reruns: queries, insert,
  update and closure of a sync, and their instances of the repository and closure interfaces.
\<close>

record sync_body =
  sb_id :: string
  sb_dumpDate :: date
  sb_startDate :: date
  sb_endDate :: "date js"
  sb_status :: "status option"
  sb_layerId :: int
  sb_isFull :: bool
  sb_totalFiles :: "int js"
  sb_geometryType :: geometry_type
  sb_baseSyncId :: "string js"
  sb_runNumber :: "int option"
  sb_metadata :: "json_object js"

text \<open>\<open>SyncUpdate\<close>, \<open>SyncsFilter\<close> and the partial syncs \<open>findSyncs\<close> is called with.\<close>

record sync_update =
  su_dumpDate :: "date option"
  su_startDate :: "date option"
  su_endDate :: "date js"
  su_status :: "status option"
  su_layerId :: "int option"
  su_totalFiles :: "int js"
  su_geometryType :: "geometry_type option"
  su_baseSyncId :: "string js"
  su_runNumber :: "int option"
  su_metadata :: "json_object js"

record syncs_filter =
  sf_layerId :: "int list option"
  sf_status :: "status list option"
  sf_geometryType :: "geometry_type list option"
  sf_isFull :: "bool option"
  sf_isRerun :: "bool option"

record sync_partial =
  sp_layerId :: "int option"
  sp_geometryType :: "geometry_type option"
  sp_isFull :: "bool option"
  sp_baseSyncId :: "string option"

text \<open>The row of a sync, with the defaults of \<^verbatim>\<open>DAL/sync.ts\<close> for the absent columns.\<close>

definition sync_row_of :: "sync_body \<Rightarrow> sync_row" where
  "sync_row_of b =
     \<lparr>s_id = sb_id b, s_dumpDate = sb_dumpDate b, s_startDate = sb_startDate b,
      s_endDate = to_nullable (sb_endDate b), s_status = patch_col IN_PROGRESS (sb_status b),
      s_layerId = sb_layerId b, s_isFull = sb_isFull b, s_totalFiles = to_nullable (sb_totalFiles b),
      s_geometryType = sb_geometryType b, s_baseSyncId = to_nullable (sb_baseSyncId b),
      s_runNumber = patch_col 0 (sb_runNumber b), s_metadata = to_nullable (sb_metadata b)\<rparr>"

definition put_syncs :: "sync_row list \<Rightarrow> store \<Rightarrow> store" where
  "put_syncs ss d = d\<lparr>syncs := ss\<rparr>"

section \<open>Queries\<close>

text \<open>
  \<open>metadata @> '{"isFixDiff": "true"}'\<close> is NULL for a NULL metadata, and so is its negation; the
  WHERE clause accepts those rows by its second disjunct.
\<close>

definition is_fix_diff :: "json_object \<Rightarrow> bool" where
  "is_fix_diff m \<longleftrightarrow> map_of m ''isFixDiff'' = Some (JStr ''true'')"

definition latest_candidate :: "int \<Rightarrow> geometry_type \<Rightarrow> sync_row \<Rightarrow> bool" where
  "latest_candidate layerId geometryType s \<longleftrightarrow>
     s_layerId s = layerId \<and> s_geometryType s = geometryType \<and> s_runNumber s = 0 \<and>
     ((case s_metadata s of None \<Rightarrow> False | Some m \<Rightarrow> \<not> is_fix_diff m) \<or>
      s_metadata s = None \<or> status_value (s_status s) = ''failed'')"

text \<open>ORDER BY dump_date DESC, start_date DESC LIMIT 1.\<close>

definition getLatestSync_row ::
  "int \<Rightarrow> geometry_type \<Rightarrow> (js_error, store, sync_row option) stmt" where
  "getLatestSync_row layerId geometryType = reading (\<lambda>d.
     case sort_key (\<lambda>s. (- s_dumpDate s, - s_startDate s))
            (filter (latest_candidate layerId geometryType) (syncs d)) of
       [] \<Rightarrow> None | s # _ \<Rightarrow> Some s)"

definition findOneSync :: "string \<Rightarrow> (js_error, store, sync_row option) stmt" where
  "findOneSync syncId = reading (\<lambda>d. select_one (\<lambda>s. s_id s = syncId) (syncs d))"

definition where_ok :: "'a option \<Rightarrow> 'a \<Rightarrow> bool" where
  "where_ok w x = (case w of None \<Rightarrow> True | Some v \<Rightarrow> x = v)"

definition findSyncs :: "sync_partial \<Rightarrow> (js_error, store, sync_row list) stmt" where
  "findSyncs w = reading (\<lambda>d. filter (\<lambda>s.
     where_ok (sp_layerId w) (s_layerId s) \<and> where_ok (sp_geometryType w) (s_geometryType s) \<and>
     where_ok (sp_isFull w) (s_isFull s) \<and>
     where_ok (map_option Some (sp_baseSyncId w)) (s_baseSyncId s)) (syncs d))"

definition where_in :: "'a list option \<Rightarrow> 'a \<Rightarrow> bool" where
  "where_in w x = (case w of None \<Rightarrow> True | Some vs \<Rightarrow> x \<in> set vs)"

definition filterSyncs :: "syncs_filter \<Rightarrow> (js_error, store, sync_row list) stmt" where
  "filterSyncs w = reading (\<lambda>d. filter (\<lambda>s.
     where_in (sf_status w) (s_status s) \<and> where_in (sf_layerId w) (s_layerId s) \<and>
     where_in (sf_geometryType w) (s_geometryType s) \<and>
     (case sf_isFull w of None \<Rightarrow> True | Some b \<Rightarrow> s_isFull s = b) \<and>
     (case sf_isRerun w of None \<Rightarrow> True
      | Some b \<Rightarrow> if b then s_runNumber s > 0 else s_runNumber s = 0)) (syncs d))"

text \<open>
  The sync LEFT JOIN its reruns, ORDER BY the run number DESC, LIMIT 1: the sync with at most one
  of its reruns, one with the greatest run number.
\<close>

definition last_rerun :: "string \<Rightarrow> sync_row list \<Rightarrow> sync_row list" where
  "last_rerun syncId ss =
     take 1 (sort_key (\<lambda>s. - s_runNumber s) (filter (\<lambda>s. s_baseSyncId s = Some syncId) ss))"

definition findOneSyncWithLastRerun ::
  "string \<Rightarrow> (js_error, store, (sync_row \<times> sync_row list) option) stmt" where
  "findOneSyncWithLastRerun syncId = reading (\<lambda>d.
     map_option (\<lambda>s. (s, last_rerun syncId (syncs d))) (select_one (\<lambda>s. s_id s = syncId) (syncs d)))"

section \<open>Insert, update, closure\<close>

definition createSyncs_rows :: "sync_body list \<Rightarrow> (js_error, store, unit) stmt" where
  "createSyncs_rows bs d = writing put_syncs
     (sql_insert s_id sync_typed sync_fk (map sync_row_of bs) (syncs d)) d"

definition createSync_row :: "sync_body \<Rightarrow> (js_error, store, unit) stmt" where
  "createSync_row b = createSyncs_rows [b]"

definition update_sync_row :: "sync_update \<Rightarrow> sync_row \<Rightarrow> sync_row" where
  "update_sync_row u s =
     s\<lparr>s_dumpDate := patch_col (s_dumpDate s) (su_dumpDate u),
       s_startDate := patch_col (s_startDate s) (su_startDate u),
       s_endDate := patch_nullable (s_endDate s) (su_endDate u),
       s_status := patch_col (s_status s) (su_status u),
       s_layerId := patch_col (s_layerId s) (su_layerId u),
       s_totalFiles := patch_nullable (s_totalFiles s) (su_totalFiles u),
       s_geometryType := patch_col (s_geometryType s) (su_geometryType u),
       s_baseSyncId := patch_nullable (s_baseSyncId s) (su_baseSyncId u),
       s_runNumber := patch_col (s_runNumber s) (su_runNumber u),
       s_metadata := patch_nullable (s_metadata s) (su_metadata u)\<rparr>"

definition no_sync_update :: sync_update where
  "no_sync_update =
     \<lparr>su_dumpDate = None, su_startDate = None, su_endDate = Undefined, su_status = None,
      su_layerId = None, su_totalFiles = Undefined, su_geometryType = None,
      su_baseSyncId = Undefined, su_runNumber = None, su_metadata = Undefined\<rparr>"

definition sync_update_typed :: "sync_update \<Rightarrow> bool" where
  "sync_update_typed u \<longleftrightarrow> int4_null (su_layerId u) \<and> int4_null (to_nullable (su_totalFiles u)) \<and>
     int4_null (su_runNumber u)"

definition updateSync_row :: "env \<Rightarrow> string \<Rightarrow> sync_update \<Rightarrow> (js_error, store, unit) stmt" where
  "updateSync_row env syncId u d =
     (if u = no_sync_update then (empty_update env, d)
      else writing put_syncs
        (sql_update (sync_update_typed u) (\<lambda>ss _. ref_ok s_id ss (to_nullable (su_baseSyncId u)))
          (\<lambda>s. s_id s = syncId) (update_sync_row u) (syncs d)) d)"

text \<open>\<open>CLOSED_PARAMS\<close> of \<^verbatim>\<open>common/db/index.ts\<close>, on a sync.\<close>

definition close_sync :: "date \<Rightarrow> sync_row \<Rightarrow> sync_row" where
  "close_sync ts s = s\<lparr>s_status := COMPLETED, s_endDate := Some ts\<rparr>"

definition completed_files :: "string \<Rightarrow> store \<Rightarrow> file_row list" where
  "completed_files syncId d =
     filter (\<lambda>f. f_syncId f = syncId \<and> f_status f = COMPLETED) (files d)"

definition sync_up_for_closure :: "string \<Rightarrow> store \<Rightarrow> sync_row \<Rightarrow> bool" where
  "sync_up_for_closure syncId d s \<longleftrightarrow>
     (s_id s = syncId \<and> s_status s \<noteq> COMPLETED \<or>
      s_baseSyncId s = Some syncId \<and> s_status s = IN_PROGRESS) \<and>
     s_totalFiles s = Some (int (length (completed_files syncId d)))"

definition attemptSyncClosure :: "date \<Rightarrow> string \<Rightarrow> (js_error, store, string list \<times> nat) stmt" where
  "attemptSyncClosure ts syncId d =
     (let closed = filter (sync_up_for_closure syncId d) (syncs d)
      in (Inr (map s_id closed, length closed),
          d\<lparr>syncs := update_where (sync_up_for_closure syncId d) (close_sync ts) (syncs d)\<rparr>))"

section \<open>Invariant and interfaces\<close>

lemma close_sync_simps [simp]:
  "s_id (close_sync ts s) = s_id s" "s_status (close_sync ts s) = COMPLETED"
  "s_baseSyncId (close_sync ts s) = s_baseSyncId s" "s_totalFiles (close_sync ts s) = s_totalFiles s"
  "s_runNumber (close_sync ts s) = s_runNumber s" "s_endDate (close_sync ts s) = Some ts"
  by (simp_all add: close_sync_def)

lemma update_sync_row_simps [simp]:
  "s_id (update_sync_row u s) = s_id s" "s_isFull (update_sync_row u s) = s_isFull s"
  by (simp_all add: update_sync_row_def)

lemma sync_queries_wf [inv_intros]:
  "db_wf d \<Longrightarrow> db_wf (snd (getLatestSync_row l g d))"
  "db_wf d \<Longrightarrow> db_wf (snd (findOneSync k d))"
  "db_wf d \<Longrightarrow> db_wf (snd (findSyncs w d))"
  "db_wf d \<Longrightarrow> db_wf (snd (filterSyncs f d))"
  "db_wf d \<Longrightarrow> db_wf (snd (findOneSyncWithLastRerun k d))"
  by (simp_all add: getLatestSync_row_def findOneSync_def findSyncs_def filterSyncs_def
      findOneSyncWithLastRerun_def)

lemma createSyncs_rows_wf [inv_intros]:
  assumes "db_wf d"
  shows "db_wf (snd (createSyncs_rows bs d))"
  unfolding createSyncs_rows_def
proof (rule writing_wf)
  fix ss
  assume ins: "sql_insert s_id sync_typed sync_fk (map sync_row_of bs) (syncs d) = Inr ss"
  from assms have old: "list_all sync_typed (syncs d)" "list_all (sync_fk (syncs d)) (syncs d)"
    by (simp_all add: db_wf_def columns_typed_def refs_ok_def)
  have "sync_fk (syncs d) r \<Longrightarrow> sync_fk ss r" for r
    using ins by (auto simp: sql_insert_Inr_iff sync_fk_def intro: ref_ok_mono [of s_id "syncs d"])
  with old ins sql_insert_distinct [OF ins db_wfD(1) [OF assms]] show "db_wf (put_syncs ss d)"
    unfolding put_syncs_def
    by (intro db_wf_syncs [OF assms]) (auto simp: sql_insert_Inr_iff list_all_iff)
qed (rule assms)

lemma createSync_row_wf [inv_intros]: "db_wf d \<Longrightarrow> db_wf (snd (createSync_row b d))"
  by (simp add: createSync_row_def createSyncs_rows_wf)

lemma update_sync_row_fk:
  "sync_fk ss s \<Longrightarrow> ref_ok s_id ss (to_nullable (su_baseSyncId u)) \<Longrightarrow> sync_fk ss (update_sync_row u s)"
  by (cases "su_baseSyncId u") (auto simp: sync_fk_def update_sync_row_def)

lemma update_sync_row_typed:
  "sync_typed s \<Longrightarrow> sync_update_typed u \<Longrightarrow> sync_typed (update_sync_row u s)"
  by (cases "su_layerId u"; cases "su_totalFiles u"; cases "su_runNumber u")
    (auto simp: sync_typed_def sync_update_typed_def update_sync_row_def)

lemma updateSync_row_wf [inv_intros]:
  assumes "db_wf d"
  shows "db_wf (snd (updateSync_row env syncId u d))"
proof -
  have "db_wf (put_syncs ss d)"
    if upd: "sql_update (sync_update_typed u) (\<lambda>ss _. ref_ok s_id ss (to_nullable (su_baseSyncId u)))
      (\<lambda>s. s_id s = syncId) (update_sync_row u) (syncs d) = Inr ss" for ss
  proof -
    from upd have ss: "ss = update_where (\<lambda>s. s_id s = syncId) (update_sync_row u) (syncs d)"
      and typed: "sync_update_typed u" by (auto simp: sql_update_Inr_iff)
    then have keys: "s_id ` set ss = s_id ` set (syncs d)" by (simp add: image_key_update_where)
    have "sync_fk (syncs d) (update_sync_row u r)" if "r \<in> set (syncs d)" "s_id r = syncId" for r
      using upd that assms keys
      by (intro update_sync_row_fk)
        (auto simp: sql_update_Inr_iff db_wf_def refs_ok_def list_all_iff ref_ok_def split: option.splits)
    then show ?thesis unfolding put_syncs_def ss
      using assms typed by (intro db_wf_update_syncs) (auto simp: update_sync_row_typed)
  qed
  with assms show ?thesis by (auto simp: updateSync_row_def intro: writing_wf)
qed

lemma attemptSyncClosure_wf [inv_intros]:
  "db_wf d \<Longrightarrow> db_wf (snd (attemptSyncClosure ts syncId d))"
  by (auto intro!: db_wf_update_syncs dest: db_wf_fkD(1)
      simp: attemptSyncClosure_def Let_def sync_typed_def close_sync_def sync_fk_def)

interpretation sync_repo: repository syncs s_id
  "\<lambda>b. Some (sync_row_of b)" findOneSync createSyncs_rows db_wf
proof unfold_locales
  fix k s
  show "findOneSync k s = (Inr (table_map s_id (syncs s) k), s)"
    by (simp add: findOneSync_def reading_def table_map_def)
next
  fix bs s u t
  assume "createSyncs_rows bs s = (Inr u, t)"
  then show "\<exists>new. those (map (\<lambda>b. Some (sync_row_of b)) bs) = Some new \<and>
      syncs t = syncs s @ new \<and> distinct (map s_id new) \<and>
      s_id ` set new \<inter> s_id ` set (syncs s) = {}"
    by (auto simp: createSyncs_rows_def writing_Inr_iff sql_insert_Inr_iff put_syncs_def)
qed (auto simp: createSyncs_rows_def writing_Inl_iff db_wfD intro: createSyncs_rows_wf [unfolded createSyncs_rows_def])

definition closable_syncs :: "string \<Rightarrow> store \<Rightarrow> string list" where
  "closable_syncs syncId d = map s_id (filter (sync_up_for_closure syncId d) (syncs d))"

lemma completed_files_syncs [simp]: "completed_files k (d\<lparr>syncs := ss\<rparr>) = completed_files k d"
  by (simp add: completed_files_def)

lemma sync_up_for_closure_syncs [simp]:
  "sync_up_for_closure k (d\<lparr>syncs := ss\<rparr>) = sync_up_for_closure k d"
  by (simp add: sync_up_for_closure_def fun_eq_iff)

lemma sync_up_for_closure_closed [simp]: "\<not> sync_up_for_closure k d (close_sync ts s)"
  by (simp add: sync_up_for_closure_def)

interpretation sync_closing: closing "attemptSyncClosure ts" closable_syncs for ts
proof unfold_locales
  fix k s
  show "fst (attemptSyncClosure ts k s) = Inr (closable_syncs k s, length (closable_syncs k s))"
    by (simp add: attemptSyncClosure_def closable_syncs_def Let_def)
  show "closable_syncs k (snd (attemptSyncClosure ts k s)) = []"
    by (auto simp: attemptSyncClosure_def closable_syncs_def Let_def filter_empty_conv set_update_where)
  show "snd (attemptSyncClosure ts k s) = s" if "closable_syncs k s = []"
    using that by (simp add: attemptSyncClosure_def closable_syncs_def Let_def filter_empty_conv
        update_where_none)
qed

declare sync_repo.find_one_row [queries]

section \<open>Properties\<close>

text \<open>
  C11: an attempt to close a sync closes the sync itself unless it is completed, and those of its
  reruns that are in progress, when their \<open>total_files\<close> is the number of completed files of the
  sync.  It returns exactly the identifiers it closed, changes nothing but the status and end date
  of those rows, and a second attempt closes nothing more.
\<close>

theorem attemptSyncClosure_correct:
  assumes wf: "db_wf d"
  shows "\<exists>ids d'. attemptSyncClosure ts k d = (Inr (ids, length ids), d') \<and>
    (\<forall>i. i \<in> set ids \<longleftrightarrow> (\<exists>s \<in> set (syncs d). s_id s = i \<and>
       s_totalFiles s = Some (int (length (filter (\<lambda>f. f_syncId f = k \<and> f_status f = COMPLETED) (files d)))) \<and>
       (i = k \<and> s_status s \<noteq> COMPLETED \<or> s_baseSyncId s = Some k \<and> s_status s = IN_PROGRESS))) \<and>
    d' = d\<lparr>syncs := map (\<lambda>s. if s_id s \<in> set ids
       then s\<lparr>s_status := COMPLETED, s_endDate := Some ts\<rparr> else s) (syncs d)\<rparr> \<and>
    attemptSyncClosure ts k d' = (Inr ([], 0), d')"
proof (intro exI conjI)
  let ?ids = "closable_syncs k d" and ?d = "snd (attemptSyncClosure ts k d)"
  show "attemptSyncClosure ts k d = (Inr (?ids, length ?ids), ?d)"
    by (rule sync_closing.attempt_pair)
  show "\<forall>i. i \<in> set ?ids \<longleftrightarrow> (\<exists>s \<in> set (syncs d). s_id s = i \<and>
       s_totalFiles s = Some (int (length (filter (\<lambda>f. f_syncId f = k \<and> f_status f = COMPLETED) (files d)))) \<and>
       (i = k \<and> s_status s \<noteq> COMPLETED \<or> s_baseSyncId s = Some k \<and> s_status s = IN_PROGRESS))"
    by (auto simp: closable_syncs_def sync_up_for_closure_def completed_files_def)
  have closed: "s_id s \<in> set ?ids \<longleftrightarrow> sync_up_for_closure k d s" if s: "s \<in> set (syncs d)" for s
  proof
    assume "s_id s \<in> set ?ids"
    then obtain s' where "s' \<in> set (syncs d)" "sync_up_for_closure k d s'" "s_id s' = s_id s"
      by (auto simp: closable_syncs_def)
    with distinct_key_eq [OF db_wfD(1) [OF wf] this(1) s] show "sync_up_for_closure k d s" by simp
  qed (use s in \<open>auto simp: closable_syncs_def\<close>)
  have "update_where (sync_up_for_closure k d) (close_sync ts) (syncs d) =
      map (\<lambda>s. if s_id s \<in> set ?ids then s\<lparr>s_status := COMPLETED, s_endDate := Some ts\<rparr> else s) (syncs d)"
    unfolding update_where_def
    by (rule map_cong [OF HOL.refl]) (simp only: closed close_sync_def)
  then show "?d = d\<lparr>syncs := map (\<lambda>s. if s_id s \<in> set ?ids
       then s\<lparr>s_status := COMPLETED, s_endDate := Some ts\<rparr> else s) (syncs d)\<rparr>"
    by (simp only: attemptSyncClosure_def Let_def snd_conv)
  show "attemptSyncClosure ts k ?d = (Inr ([], 0), ?d)"
    by (rule sync_closing.attempt_again)
qed

theorem attemptSyncClosure_correct_witness:
  "\<exists>ids d'. attemptSyncClosure 99 ''s1'' (a_store [a_sync ''s1'' FAILED (Some 1) None 0,
      a_sync ''r1'' IN_PROGRESS (Some 1) (Some ''s1'') 1, a_sync ''r2'' FAILED (Some 1) (Some ''s1'') 2]
      [a_file ''f1'' ''s1'' COMPLETED (Some 0)] []) = (Inr (ids, length ids), d') \<and>
    set ids = {''s1'', ''r1''}"
proof -
  let ?d = "a_store [a_sync ''s1'' FAILED (Some 1) None 0,
      a_sync ''r1'' IN_PROGRESS (Some 1) (Some ''s1'') 1, a_sync ''r2'' FAILED (Some 1) (Some ''s1'') 2]
      [a_file ''f1'' ''s1'' COMPLETED (Some 0)] []"
  have "db_wf ?d" by (simp add: db_wf_eval example_rows)
  from attemptSyncClosure_correct [OF this, of 99 "''s1''"] obtain ids d'
    where run: "attemptSyncClosure 99 ''s1'' ?d = (Inr (ids, length ids), d')"
      and ids: "\<forall>i. i \<in> set ids \<longleftrightarrow> (\<exists>s \<in> set (syncs ?d). s_id s = i \<and>
       s_totalFiles s = Some (int (length (filter (\<lambda>f. f_syncId f = ''s1'' \<and> f_status f = COMPLETED) (files ?d)))) \<and>
       (i = ''s1'' \<and> s_status s \<noteq> COMPLETED \<or> s_baseSyncId s = Some ''s1'' \<and> s_status s = IN_PROGRESS))"
    by blast
  have "set ids = {''s1'', ''r1''}"
    unfolding set_eq_iff ids [rule_format] by (auto simp: example_rows)
  with run show ?thesis by blast
qed

end
