(* ===== verification/Transactions.thy ===== *)
theory Transactions
  imports Repository
begin

text \<open>
  \<^verbatim>\<open>src/src/common/db/transactions.ts\<close>: which database errors are transaction failures, and
  the wrapper the workers run their statements in.  \<open>runInTransaction\<close> is a function of a library
  the sources do not contain; it is the parameter \<open>rit\<close> of \<open>transactionify\<close>, and \<open>atomic_tx rit\<close>
  is what its documentation promises.
\<close>

datatype isolation_level = READ_COMMITTED | READ_UNCOMMITTED | REPEATABLE_READ | SERIALIZABLE

definition isolationLevelConverter :: "string \<Rightarrow> isolation_level option" where
  "isolationLevelConverter str =
     (if str = ''READ COMMITTED'' then Some READ_COMMITTED
      else if str = ''READ UNCOMMITTED'' then Some READ_UNCOMMITTED
      else if str = ''REPEATABLE READ'' then Some REPEATABLE_READ
      else if str = ''SERIALIZABLE'' then Some SERIALIZABLE
      else None)"

definition SERIALIZATION_FAILURE :: string where "SERIALIZATION_FAILURE = ''40001''"
definition DEADLOCK_DETECTED :: string where "DEADLOCK_DETECTED = ''40P01''"

fun isTransactionFailure :: "js_error \<Rightarrow> bool" where
  "isTransactionFailure (QueryFailedError code) \<longleftrightarrow>
     code = Some SERIALIZATION_FAILURE \<or> code = Some DEADLOCK_DETECTED"
| "isTransactionFailure _ \<longleftrightarrow> False"

text \<open>The \<open>catch\<close> block of a transaction: the error that leaves it.\<close>

definition transaction_error :: "js_error \<Rightarrow> js_error" where
  "transaction_error e = (if isTransactionFailure e then TransactionFailureError else e)"

text \<open>
  The parameters of a transaction; its name only appears in the log.  Of the library's kinds of
  propagation the sources name one.
\<close>

datatype propagation_kind = REQUIRED

definition DEFAULT_TRANSACTION_PROPAGATION :: propagation_kind where
  "DEFAULT_TRANSACTION_PROPAGATION = REQUIRED"

datatype transaction_name =
  CREATE_RERUN | ATTEMPT_FILE_CLOSURE | ATTEMPT_SYNC_CLOSURE | FIND_FILES_BY_CHANGESETS

record transaction_params =
  transactionName :: "transaction_name option"
  isolationLevel :: string
  propagation :: propagation_kind

type_synonym tx_options = "isolation_level option \<times> propagation_kind"

definition transactionify ::
  "(tx_options \<Rightarrow> (js_error, 's, 'a) stmt \<Rightarrow> (js_error, 's, 'a) stmt) \<Rightarrow>
    transaction_params \<Rightarrow> (js_error, 's, 'a) stmt \<Rightarrow> (js_error, 's, 'a) stmt" where
  "transactionify rit params fn s =
     (case rit (isolationLevelConverter (isolationLevel params), propagation params) fn s of
        (Inr result, t) \<Rightarrow> (Inr result, t)
      | (Inl e, t) \<Rightarrow> (Inl (transaction_error e), t))"

text \<open>A transaction commits everything its function did, or fails and leaves no trace.\<close>

definition atomic_tx ::
  "(tx_options \<Rightarrow> (js_error, 's, 'a) stmt \<Rightarrow> (js_error, 's, 'a) stmt) \<Rightarrow> bool" where
  "atomic_tx rit \<longleftrightarrow> (\<forall>l fn s.
     (\<exists>x t. fn s = (Inr x, t) \<and> rit l fn s = (Inr x, t)) \<or> (\<exists>e. rit l fn s = (Inl e, s)))"

text \<open>A database that fails with \<open>fault\<close>, or commits: used to instantiate the parameter.\<close>

definition tx_with ::
  "js_error option \<Rightarrow> tx_options \<Rightarrow> (js_error, 's, 'a) stmt \<Rightarrow> (js_error, 's, 'a) stmt"
where
  "tx_with fault l fn s =
     (case fault of Some e \<Rightarrow> (Inl e, s)
      | None \<Rightarrow> (case fn s of (Inl e, _) \<Rightarrow> (Inl e, s) | (Inr x, t) \<Rightarrow> (Inr x, t)))"

lemma atomic_tx_with: "atomic_tx (tx_with fault)"
  by (auto simp: atomic_tx_def tx_with_def split: option.splits prod.splits sum.splits)

lemma atomic_txE:
  assumes "atomic_tx rit"
  obtains (committed) x t where "fn s = (Inr x, t)" "rit l fn s = (Inr x, t)"
    | (aborted) e where "rit l fn s = (Inl e, s)"
  using assms unfolding atomic_tx_def by blast

lemma transactionify_cases:
  assumes "atomic_tx rit"
  obtains (committed) x t where "fn s = (Inr x, t)" "transactionify rit lvl fn s = (Inr x, t)"
    | (aborted) e where "transactionify rit lvl fn s = (Inl (transaction_error e), s)"
  using assms
  by (cases rule: atomic_txE [of rit fn s "(isolationLevelConverter (isolationLevel lvl), propagation lvl)"])
    (auto simp: transactionify_def)

lemma transactionify_commits:
  "fn s = (Inr x, t) \<Longrightarrow> transactionify (tx_with None) lvl fn s = (Inr x, t)"
  by (simp add: transactionify_def tx_with_def)

lemma transactionify_inv:
  assumes "atomic_tx rit" and "I s" and "I (snd (fn s))"
  shows "I (snd (transactionify rit lvl fn s))"
  using assms by (cases rule: transactionify_cases [of rit fn s lvl]) auto

lemma transaction_error_eq [simp]:
  "transaction_error e = TransactionFailureError \<longleftrightarrow>
    isTransactionFailure e \<or> e = TransactionFailureError"
  by (simp add: transaction_error_def)

end
