(* ===== verification/Closure_Workers.thy ===== *)
theory Closure_Workers
  imports Worker_Provider Changeset_Repository Entity_Repository File_Repository Sync_Repository
    Transactions
begin

text \<open>
  \<^verbatim>\<open>src/src/queueProvider/workers\<close>: the three workers that close files and syncs.  Their state
  is the database and the queue they push to; \<open>rit\<close> is \<open>runInTransaction\<close> of the library, at the
  type of the statement it runs, and the queue is any provider of the interface.
\<close>

record closure_return =
  closedCount :: "nat option"
  closedIds :: "string list option"
  invokedJobCount :: nat
  invokedJobs :: "job_data list"

definition on_db :: "(js_error, store, 'a) stmt \<Rightarrow> (js_error, store \<times> 'q, 'a) stmt" where
  "on_db m s = (case s of (d, q) \<Rightarrow> case m d of (r, d') \<Rightarrow> (r, (d', q)))"

definition on_queue :: "(js_error, 'q, 'a) stmt \<Rightarrow> (js_error, store \<times> 'q, 'a) stmt" where
  "on_queue m s = (case s of (d, q) \<Rightarrow> case m q of (r, q') \<Rightarrow> (r, (d, q')))"

type_synonym ('s, 'a) run_in_transaction =
  "tx_options \<Rightarrow> (js_error, 's, 'a) stmt \<Rightarrow> (js_error, 's, 'a) stmt"

definition worker_tx :: "transaction_name \<Rightarrow> worker_options \<Rightarrow> transaction_params" where
  "worker_tx name wo = \<lparr>transactionName = Some name,
     isolationLevel = transactionIsolationLevel wo, propagation = DEFAULT_TRANSACTION_PROPAGATION\<rparr>"

definition changesets_processJob ::
  "(store, string list) run_in_transaction \<Rightarrow> worker_options \<Rightarrow>
    (job_data list \<Rightarrow> (js_error, 'q, unit) stmt) \<Rightarrow> job \<Rightarrow>
    (js_error, store \<times> 'q, closure_return) prog" where
  "changesets_processJob rit wo filesQueue job =
     (let changesetIds = (case j_batchIds (payload job) of Some batchIds \<Rightarrow> batchIds
            | None \<Rightarrow> [j_id (payload job)])
      in await (on_db (transactionify rit (worker_tx FIND_FILES_BY_CHANGESETS wo)
           (findFilesByChangesets changesetIds [IN_PROGRESS]))) (\<lambda>fileIds.
         if length fileIds = 0
         then return \<lparr>closedCount = None, closedIds = None, invokedJobCount = 0, invokedJobs = []\<rparr>
         else
           let fileClosureJobs = map (closure_job FileClosure) fileIds
           in await (on_queue (filesQueue fileClosureJobs)) (\<lambda>_.
              return \<lparr>closedCount = None, closedIds = None,
                invokedJobCount = length fileClosureJobs, invokedJobs = fileClosureJobs\<rparr>)))"

definition files_processJob ::
  "(store, (string \<times> string) list \<times> nat) run_in_transaction \<Rightarrow> worker_options \<Rightarrow> date \<Rightarrow>
    (job_data list \<Rightarrow> (js_error, 'q, unit) stmt) \<Rightarrow> job \<Rightarrow>
    (js_error, store \<times> 'q, closure_return) prog" where
  "files_processJob rit wo ts syncsQueue job =
     await (on_db (transactionify rit (worker_tx ATTEMPT_FILE_CLOSURE wo)
       (attemptFileClosure ts (j_id (payload job))))) (\<lambda>(closed, count).
     if count = 0
     then return \<lparr>closedCount = Some count, closedIds = Some [], invokedJobCount = 0, invokedJobs = []\<rparr>
     else (case closed of
         [] \<Rightarrow> throw TypeError
       | (fileId, syncId) # _ \<Rightarrow>
           let syncClosureJob = closure_job SyncClosure syncId
           in await (on_queue (syncsQueue [syncClosureJob])) (\<lambda>_.
              return \<lparr>closedCount = Some count, closedIds = Some [fileId],
                invokedJobCount = 1, invokedJobs = [syncClosureJob]\<rparr>)))"

definition syncs_processJob ::
  "(store, string list \<times> nat) run_in_transaction \<Rightarrow> worker_options \<Rightarrow> date \<Rightarrow> job \<Rightarrow>
    (js_error, store \<times> 'q, closure_return) prog" where
  "syncs_processJob rit wo ts job =
     await (on_db (transactionify rit (worker_tx ATTEMPT_SYNC_CLOSURE wo)
       (attemptSyncClosure ts (j_id (payload job))))) (\<lambda>(closed, count).
     return \<lparr>closedCount = Some count, closedIds = Some closed,
       invokedJobCount = 0, invokedJobs = []\<rparr>)"

section \<open>Invariant\<close>

definition sys_wf :: "store \<times> 'q \<Rightarrow> bool" where
  "sys_wf s \<longleftrightarrow> db_wf (fst s)"

lemma on_db_inv:
  assumes "J (fst s)" and "\<And>d. J d \<Longrightarrow> J (snd (m d))"
  shows "J (fst (snd (on_db m s)))"
  using assms by (cases s) (auto simp: on_db_def split: prod.splits, metis snd_conv)

lemma on_queue_inv: "J (fst s) \<Longrightarrow> J (fst (snd (on_queue m s)))"
  by (cases s) (auto simp: on_queue_def split: prod.splits)

lemma keeps_case_prod [inv_intros]:
  "(\<And>x y. keeps I (f x y)) \<Longrightarrow> keeps I (case z of (x, y) \<Rightarrow> f x y)"
  by (cases z) simp

lemma keeps_list_case [inv_intros]:
  "keeps I p \<Longrightarrow> (\<And>y ys. keeps I (q y ys)) \<Longrightarrow> keeps I (case xs of [] \<Rightarrow> p | y # ys \<Rightarrow> q y ys)"
  by (cases xs) simp_all

lemma findFilesByChangesets_state [simp]: "snd (findFilesByChangesets ks sts d) = d"
  by (simp add: findFilesByChangesets_def)

text \<open>The workers change the database by attempts to close files and syncs only.\<close>

lemma workers_keep_db:
  assumes "\<And>ts k d. J d \<Longrightarrow> J (snd (attemptFileClosure ts k d))"
    and "\<And>ts k d. J d \<Longrightarrow> J (snd (attemptSyncClosure ts k d))"
  shows "atomic_tx rit1 \<Longrightarrow> keeps (\<lambda>s. J (fst s)) (changesets_processJob rit1 wo enqueue job)"
    and "atomic_tx rit2 \<Longrightarrow> keeps (\<lambda>s. J (fst s)) (files_processJob rit2 wo ts enqueue job)"
    and "atomic_tx rit3 \<Longrightarrow> keeps (\<lambda>s. J (fst s)) (syncs_processJob rit3 wo ts job)"
  unfolding changesets_processJob_def files_processJob_def syncs_processJob_def Let_def
  by (intro keeps_await keeps_if keeps_return keeps_throw keeps_case_prod keeps_list_case
      on_db_inv [where J = J] on_queue_inv [where J = J] transactionify_inv [where I = J] assms
    | simp)+

lemma workers_keep:
  "atomic_tx rit1 \<Longrightarrow> keeps sys_wf (changesets_processJob rit1 wo enqueue job)"
  "atomic_tx rit2 \<Longrightarrow> keeps sys_wf (files_processJob rit2 wo ts enqueue job)"
  "atomic_tx rit3 \<Longrightarrow> keeps sys_wf (syncs_processJob rit3 wo ts job)"
  unfolding sys_wf_def [abs_def]
  using workers_keep_db [where J = db_wf] attemptFileClosure_wf attemptSyncClosure_wf by blast+

section \<open>Results\<close>

lemma files_processJob_run:
  assumes "atomic_tx rit"
  shows "(\<exists>e. run (files_processJob rit wo ts enqueue job) (d, q) = (Inl (transaction_error e), (d, q))) \<or>
    (case closable_files (j_id (payload job)) d of
       [] \<Rightarrow> run (files_processJob rit wo ts enqueue job) (d, q) =
         (Inr \<lparr>closedCount = Some 0, closedIds = Some [], invokedJobCount = 0, invokedJobs = []\<rparr>, (d, q))
     | (fileId, syncId) # others \<Rightarrow>
         run (files_processJob rit wo ts enqueue job) (d, q) =
         (let d' = snd (attemptFileClosure ts (j_id (payload job)) d)
          in case enqueue [closure_job SyncClosure syncId] q of
               (Inl e, q') \<Rightarrow> (Inl e, (d', q'))
             | (Inr _, q') \<Rightarrow> (Inr \<lparr>closedCount = Some (Suc (length others)), closedIds = Some [fileId],
                 invokedJobCount = 1, invokedJobs = [closure_job SyncClosure syncId]\<rparr>, (d', q'))))"
  using assms
proof (cases rule: transactionify_cases [of rit
    "attemptFileClosure ts (j_id (payload job))" d "worker_tx ATTEMPT_FILE_CLOSURE wo"])
  case (committed x t)
  from file_closing.attempt_pair [of ts "j_id (payload job)" d] committed(1)
  have x: "x = (closable_files (j_id (payload job)) d, length (closable_files (j_id (payload job)) d))"
    and t: "t = snd (attemptFileClosure ts (j_id (payload job)) d)" by simp_all
  show ?thesis
  proof (cases "closable_files (j_id (payload job)) d")
    case Nil
    with t have "t = d" using file_closing.nothing_closable by simp
    with Nil committed(2) x show ?thesis
      by (simp add: files_processJob_def on_db_def)
  next
    case (Cons c others)
    then show ?thesis using committed(2) x t
      by (cases c) (simp add: files_processJob_def on_db_def on_queue_def Let_def
          split: prod.splits sum.splits)
  qed
next
  case (aborted e)
  then show ?thesis by (simp add: files_processJob_def on_db_def) blast
qed

lemma syncs_processJob_run:
  assumes "atomic_tx rit"
  shows "(\<exists>e. run (syncs_processJob rit wo ts job) (d, q) = (Inl (transaction_error e), (d, q))) \<or>
    run (syncs_processJob rit wo ts job) (d, q) =
      (Inr \<lparr>closedCount = Some (length (closable_syncs (j_id (payload job)) d)),
         closedIds = Some (closable_syncs (j_id (payload job)) d), invokedJobCount = 0, invokedJobs = []\<rparr>,
       (snd (attemptSyncClosure ts (j_id (payload job)) d), q))"
  using assms
proof (cases rule: transactionify_cases [of rit
    "attemptSyncClosure ts (j_id (payload job))" d "worker_tx ATTEMPT_SYNC_CLOSURE wo"])
  case (committed x t)
  with sync_closing.attempt_pair [of ts "j_id (payload job)" d] show ?thesis
    by (simp add: syncs_processJob_def on_db_def)
next
  case (aborted e)
  then show ?thesis by (simp add: syncs_processJob_def on_db_def) blast
qed

text \<open>The files a changeset job looks for.\<close>

definition open_files_of_changesets :: "string list \<Rightarrow> store \<Rightarrow> string list" where
  "open_files_of_changesets ks d =
     array_from_set [e_fileId e. e \<leftarrow> entities d, f \<leftarrow> files d, f_fileId f = e_fileId e,
       e_changesetId e \<in> set (map Some ks), f_status f \<in> set [IN_PROGRESS]]"

lemma set_open_files_of_changesets:
  "k \<in> set (open_files_of_changesets ks d) \<longleftrightarrow>
    (\<exists>f \<in> set (files d). f_fileId f = k \<and> f_status f = IN_PROGRESS) \<and>
    (\<exists>e \<in> set (entities d). e_fileId e = k \<and> e_changesetId e \<in> Some ` set ks)"
  by (auto simp: open_files_of_changesets_def join_simps image_iff) metis+

lemma findFilesByChangesets_query [queries]:
  "findFilesByChangesets ks [IN_PROGRESS] d = (Inr (open_files_of_changesets ks d), d)"
  by (simp add: findFilesByChangesets_def reading_def open_files_of_changesets_def)

lemma changesets_processJob_run:
  fixes job :: job
  assumes "atomic_tx rit"
  defines "ks \<equiv> (case j_batchIds (payload job) of Some ids \<Rightarrow> ids | None \<Rightarrow> [j_id (payload job)])"
  shows "(\<exists>e. run (changesets_processJob rit wo enqueue job) (d, q) = (Inl (transaction_error e), (d, q))) \<or>
    run (changesets_processJob rit wo enqueue job) (d, q) =
      (let jobs = map (closure_job FileClosure) (open_files_of_changesets ks d);
           result = \<lparr>closedCount = None, closedIds = None, invokedJobCount = length jobs, invokedJobs = jobs\<rparr>
       in if jobs = [] then (Inr result, (d, q))
          else (case enqueue jobs q of (Inl e, q') \<Rightarrow> (Inl e, (d, q')) | (Inr _, q') \<Rightarrow> (Inr result, (d, q'))))"
  using assms(1)
proof (cases rule: transactionify_cases [of rit
    "findFilesByChangesets ks [IN_PROGRESS]" d "worker_tx FIND_FILES_BY_CHANGESETS wo"])
  case (committed x t)
  then show ?thesis
    by (auto simp: changesets_processJob_def on_db_def on_queue_def queries Let_def ks_def
        split: prod.splits sum.splits)
next
  case (aborted e)
  then show ?thesis by (simp add: changesets_processJob_def on_db_def ks_def Let_def) blast
qed

section \<open>Properties\<close>

lemma j_id_closure_job [simp]: "j_id (closure_job kind k) = k" "j_batchIds (closure_job kind k) = None"
  by (simp_all add: closure_job_def)

text \<open>On a database that commits every transaction the files worker is a function of its state.\<close>

lemma files_processJob_committed:
  "run (files_processJob (tx_with None) wo ts enqueue job) (d, q) =
    (case closable_files (j_id (payload job)) d of
       [] \<Rightarrow> (Inr \<lparr>closedCount = Some 0, closedIds = Some [], invokedJobCount = 0, invokedJobs = []\<rparr>, (d, q))
     | (fileId, syncId) # others \<Rightarrow>
         (let d' = files_closed ts [j_id (payload job)] d
          in case enqueue [closure_job SyncClosure syncId] q of
               (Inl e, q') \<Rightarrow> (Inl e, (d', q'))
             | (Inr _, q') \<Rightarrow> (Inr \<lparr>closedCount = Some (Suc (length others)), closedIds = Some [fileId],
                 invokedJobCount = 1, invokedJobs = [closure_job SyncClosure syncId]\<rparr>, (d', q'))))"
proof -
  let ?k = "j_id (payload job)"
  have closes: "transactionify (tx_with None) lvl (attemptFileClosure ts ?k) d =
      (Inr (closable_files ?k d, length (closable_files ?k d)), files_closed ts [?k] d)" for lvl
    using file_closing.attempt_pair [of ts ?k d] attemptFileClosure_state
    by (intro transactionify_commits) metis
  have "files_closed ts [?k] d = d" if "closable_files ?k d = []"
    using file_closing.nothing_closable [OF that, of ts] by (simp add: attemptFileClosure_state)
  then show ?thesis
    by (auto simp: files_processJob_def on_db_def on_queue_def closes Let_def
        split: list.splits prod.splits sum.splits)
qed

lemma closable_files_wf:
  assumes "db_wf d" and "f \<in> set (files d)"
  shows "closable_files (f_fileId f) d =
    (if file_up_for_closure (f_fileId f) d f then [(f_fileId f, f_syncId f)] else [])"
proof -
  have up: "file_up_for_closure (f_fileId f) d g \<longleftrightarrow> g = f \<and> file_up_for_closure (f_fileId f) d f"
    if "g \<in> set (files d)" for g
    using that assms(2) distinct_key_eq [OF db_wfD(2) [OF assms(1)], of g f]
    by (auto simp: file_up_for_closure_def)
  show ?thesis
  proof (cases "file_up_for_closure (f_fileId f) d f")
    case True
    have "filter (file_up_for_closure (f_fileId f) d) (files d) = filter (\<lambda>g. g = f) (files d)"
      using up True by (intro filter_cong) auto
    also have "\<dots> = [f]"
      using assms(2) distinct_mapD [OF db_wfD(2) [OF assms(1)]] by (rule filter_eq_distinct)
    finally show ?thesis using True by (simp add: closable_files_def)
  next
    case False
    then show ?thesis using up by (auto simp: closable_files_def filter_empty_conv)
  qed
qed

text \<open>
  A job of the changesets queue leaves the database alone and asks for the closure of exactly
  the files that are in progress and have an entity in one of its changesets, those of a batch
  included; it reports one job for each.  A statement or a push that fails gives its error, and
  asks for nothing.
\<close>

lemma changesets_processJob_requests:
  fixes job :: job and wo :: worker_options and d :: store and q :: 'q
    and ks :: "string list"
  assumes tx: "atomic_tx rit" and queue: "usable p" "bullmq_ok bq requested"
  defines "ks \<equiv> (case j_batchIds (payload job) of Some ids \<Rightarrow> ids | None \<Rightarrow> [j_id (payload job)])"
    and "outcome \<equiv> run (changesets_processJob rit wo (pushes bq p) job) (d, q)"
    and "ids \<equiv> {f_fileId f | f e. f \<in> set (files d) \<and> f_status f = IN_PROGRESS \<and>
      e \<in> set (entities d) \<and> e_fileId e = f_fileId f \<and> e_changesetId e \<in> Some ` set ks}"
  shows "fst (snd outcome) = d \<and>
    (case fst outcome of
       Inl e \<Rightarrow> requested (snd (snd outcome)) = requested q
     | Inr result \<Rightarrow> requested (snd (snd outcome)) = requested q \<union> ids \<and>
         invokedJobCount result = card ids \<and> set (map j_id (invokedJobs result)) = ids)"
proof -
  let ?os = "open_files_of_changesets ks d"
  have ids: "set ?os = ids" unfolding ids_def by (force simp: set_open_files_of_changesets)
  have "distinct ?os" by (simp add: open_files_of_changesets_def)
  then have size: "length ?os = card ids" by (simp add: ids [symmetric] distinct_card)
  have pushed: "requests requested ids q (pushes bq p (map (closure_job FileClosure) ?os) q)"
    using bull_queue.push_requests [of p bq requested FileClosure ?os q]
      bull_queue.push_fails [of p bq requested FileClosure ?os q] queue
    by (auto simp: requests_def ids split: prod.splits sum.splits)
  have names: "j_id ` closure_job FileClosure ` set ?os = set ?os"
    by (simp add: image_image)
  from changesets_processJob_run [OF tx, of wo "pushes bq p" job d q] show ?thesis
  proof (elim disjE exE)
    fix e
    assume "run (changesets_processJob rit wo (pushes bq p) job) (d, q) = (Inl (transaction_error e), (d, q))"
    then show ?thesis by (simp add: outcome_def)
  qed (use ids size pushed names in \<open>auto simp: outcome_def ks_def Let_def requests_def
      split: prod.splits sum.splits if_splits\<close>)
qed

definition example_options :: worker_options where
  "example_options =
     \<lparr>transactionIsolationLevel = ''SERIALIZABLE'', delay_minimum = 1000, delay_maximum = 2000\<rparr>"

text \<open>
  A job of the files queue, on the file its identifier names: it either fails and leaves the
  file as it is, or closes the file when it is up for closure and asks for the closure of its sync,
  the one job it reports, or does nothing.  When the push of the sync fails, the file has already
  been closed.
\<close>

lemma files_processJob_closes:
  fixes job :: job and wo :: worker_options and d :: store and q :: 'q and ts :: date
    and enqueue :: "job_data list \<Rightarrow> (js_error, 'q, unit) stmt" and d' :: store and sync_job :: job_data
  assumes "atomic_tx rit" and "db_wf d" and f: "f \<in> set (files d)" "j_id (payload job) = f_fileId f"
  defines "outcome \<equiv> run (files_processJob rit wo ts enqueue job) (d, q)"
    and "d' \<equiv> files_closed ts [f_fileId f] d" and "sync_job \<equiv> closure_job SyncClosure (f_syncId f)"
  shows "(\<exists>e. outcome = (Inl (transaction_error e), (d, q))) \<or>
    outcome =
      (if f_status f \<noteq> COMPLETED \<and> f_totalEntities f = Some (int (length (closed_entities (f_fileId f) d)))
       then (case enqueue [sync_job] q of
           (Inl e, q') \<Rightarrow> (Inl e, (d', q'))
         | (Inr _, q') \<Rightarrow> (Inr \<lparr>closedCount = Some 1, closedIds = Some [f_fileId f],
             invokedJobCount = 1, invokedJobs = [sync_job]\<rparr>, (d', q')))
       else (Inr \<lparr>closedCount = Some 0, closedIds = Some [], invokedJobCount = 0, invokedJobs = []\<rparr>, (d, q)))"
  using files_processJob_run [OF assms(1), of wo ts enqueue job d q] f(2) closable_files_wf [OF assms(2) f(1)]
  unfolding outcome_def d'_def sync_job_def
  by (auto simp: file_up_for_closure_def attemptFileClosure_state Let_def cong: sum.case_cong prod.case_cong)

text \<open>
  C35: the closure of the sync is lost when its push fails.  The file is closed by then, so the
  next attempt of the job finds nothing to close: it succeeds and pushes nothing, whatever the
  queue does.
\<close>

theorem files_processJob_loses_sync:
  fixes job :: job
  assumes "db_wf d" and f: "f \<in> set (files d)" "j_id (payload job) = f_fileId f"
    and up: "f_status f \<noteq> COMPLETED" "f_totalEntities f = Some (int (length (closed_entities (f_fileId f) d)))"
    and down: "enqueue [closure_job SyncClosure (f_syncId f)] q = (Inl e, q)"
  shows "\<exists>d'. run (files_processJob (tx_with None) wo ts enqueue job) (d, q) = (Inl e, (d', q)) \<and>
    f\<lparr>f_status := COMPLETED, f_endDate := Some ts\<rparr> \<in> set (files d') \<and>
    run (files_processJob (tx_with None) wo ts' enqueue' job) (d', q') =
      (Inr \<lparr>closedCount = Some 0, closedIds = Some [], invokedJobCount = 0, invokedJobs = []\<rparr>, (d', q'))"
proof (intro exI conjI)
  let ?k = "f_fileId f" and ?d = "files_closed ts [f_fileId f] d"
  have closable: "closable_files ?k d = [(?k, f_syncId f)]"
    using closable_files_wf [OF assms(1) f(1)] up by (simp add: file_up_for_closure_def)
  then show "run (files_processJob (tx_with None) wo ts enqueue job) (d, q) = (Inl e, (?d, q))"
    using f(2) down by (simp add: files_processJob_committed)
  show "f\<lparr>f_status := COMPLETED, f_endDate := Some ts\<rparr> \<in> set (files ?d)"
    using update_where_member [OF f(1), of "\<lambda>f. f_fileId f \<in> set [?k] \<and> file_up_for_closure (f_fileId f) d f"
      "close_file ts"] up by (simp add: files_closed_def file_up_for_closure_def close_file_def)
  have "closable_files ?k ?d = []"
    using file_closing.attempt_closes [of ?k ts d] by (simp add: attemptFileClosure_state)
  then show "run (files_processJob (tx_with None) wo ts' enqueue' job) (?d, q') =
      (Inr \<lparr>closedCount = Some 0, closedIds = Some [], invokedJobCount = 0, invokedJobs = []\<rparr>, (?d, q'))"
    using f(2) by (simp add: files_processJob_committed)
qed

theorem files_processJob_loses_sync_witness:
  "\<exists>d'. run (files_processJob (tx_with None) example_options 99
      (pushes (remembering (Some (OtherError ''down''))) (example_provider False None))
      \<lparr>job_key = ''j'', payload = closure_job FileClosure ''f1''\<rparr>) (closable_db, []) =
      (Inl (OtherError ''down''), (d', [])) \<and>
    run (files_processJob (tx_with None) example_options 100
      (pushes (remembering None) (example_provider False None))
      \<lparr>job_key = ''j'', payload = closure_job FileClosure ''f1''\<rparr>) (d', []) =
      (Inr \<lparr>closedCount = Some 0, closedIds = Some [], invokedJobCount = 0, invokedJobs = []\<rparr>, (d', []))"
proof -
  let ?f = "a_file ''f1'' ''s1'' IN_PROGRESS (Some 2)"
    and ?job = "\<lparr>job_key = ''j'', payload = closure_job FileClosure ''f1''\<rparr>"
    and ?down = "pushes (remembering (Some (OtherError ''down''))) (example_provider False None)"
    and ?up = "pushes (remembering None) (example_provider False None)"
  have f: "?f \<in> set (files closable_db)" "j_id (payload ?job) = f_fileId ?f"
    by (simp_all add: example_dbs)
  have up: "f_status ?f \<noteq> COMPLETED"
      "f_totalEntities ?f = Some (int (length (closed_entities (f_fileId ?f) closable_db)))"
    by (simp_all add: closed_entities_def example_dbs)
  have down: "?down [closure_job SyncClosure (f_syncId ?f)] [] = (Inl (OtherError ''down''), [])"
    by (simp add: pushes_def push_def addJob_def remembering_def)
  show ?thesis
    using files_processJob_loses_sync [OF closable_db_wf f up, of ?down "[]" _ example_options 99 100 ?up "[]",
        OF down] by blast
qed

text \<open>
  The files and the syncs worker read the identifier of a job and not its batch.  A job whose
  identifier names no file, as the hash of a batch does, closes no file and pushes nothing; one that
  names no sync closes no sync.
\<close>

lemma batches_close_nothing:
  fixes job :: job
  assumes "atomic_tx rit2" and "atomic_tx rit3"
    and "j_id (payload job) \<notin> f_fileId ` set (files d)"
    and "\<forall>s \<in> set (syncs d). s_id s \<noteq> j_id (payload job) \<and> s_baseSyncId s \<noteq> Some (j_id (payload job))"
  shows "snd (run (files_processJob rit2 wo ts enqueue job) (d, q)) = (d, q) \<and>
    snd (run (syncs_processJob rit3 wo ts job) (d, q)) = (d, q)"
proof
  let ?k = "j_id (payload job)"
  have files: "closable_files ?k d = []"
    using assms(3) by (auto simp: closable_files_def file_up_for_closure_def filter_empty_conv image_iff)
  with files_processJob_run [OF assms(1), of wo ts enqueue job d q]
  show "snd (run (files_processJob rit2 wo ts enqueue job) (d, q)) = (d, q)" by auto
  have syncs: "closable_syncs ?k d = []"
    using assms(4) by (auto simp: closable_syncs_def sync_up_for_closure_def filter_empty_conv)
  with syncs_processJob_run [OF assms(2), of wo ts job d q] sync_closing.nothing_closable [OF syncs, of ts]
  show "snd (run (syncs_processJob rit3 wo ts job) (d, q)) = (d, q)" by auto
qed

end
