(* ===== verification/Changeset_Manager.thy ===== *)
theory Changeset_Manager
  imports Changeset_Repository
begin

text \<open>
  \<^verbatim>\<open>src/src/changeset/models/changesetManager.ts\<close>.  The closures it creates are jobs of a
  queue; \<open>createClosures\<close> is in the theory of the queue.
\<close>

definition createChangeset_request :: "changeset_body \<Rightarrow> (js_error, store, unit) prog" where
  "createChangeset_request changeset =
     await (findOneChangeset (cb_changesetId changeset)) (\<lambda>changesetEntity.
     case changesetEntity of
       Some _ \<Rightarrow> throw (ChangesetAlreadyExistsError (cb_changesetId changeset))
     | None \<Rightarrow> await (createChangeset changeset) (\<lambda>_. return ()))"

definition getChangeset :: "string \<Rightarrow> (js_error, store, changeset_row) prog" where
  "getChangeset changesetId =
     await (findOneChangeset changesetId) (\<lambda>changesetEntity.
     case changesetEntity of
       None \<Rightarrow> throw (ChangesetNotFoundError changesetId)
     | Some c \<Rightarrow> return c)"

definition updateChangeset ::
  "env \<Rightarrow> string \<Rightarrow> changeset_update \<Rightarrow> (js_error, store, unit) prog" where
  "updateChangeset env changesetId changesetUpdate =
     await (findOneChangeset changesetId) (\<lambda>changesetEntity.
     case changesetEntity of
       None \<Rightarrow> throw (ChangesetNotFoundError changesetId)
     | Some _ \<Rightarrow> await (updateChangeset_row env changesetId changesetUpdate) (\<lambda>_. return ()))"

definition updateChangesetEntities :: "string \<Rightarrow> (js_error, store, unit) prog" where
  "updateChangesetEntities changesetId =
     await (findOneChangeset changesetId) (\<lambda>changesetEntity.
     case changesetEntity of
       None \<Rightarrow> throw (ChangesetNotFoundError changesetId)
     | Some _ \<Rightarrow> await (updateEntitiesOfChangesetAsCompleted changesetId) (\<lambda>_. return ()))"

section \<open>Invariant\<close>

lemma changeset_manager_keeps [inv_intros]:
  "keeps db_wf (createChangeset_request changeset)"
  "keeps db_wf (getChangeset k)"
  "keeps db_wf (updateChangeset env k u)"
  "keeps db_wf (updateChangesetEntities k)"
  unfolding createChangeset_request_def getChangeset_def updateChangeset_def updateChangesetEntities_def
  by (intro inv_intros | assumption)+

section \<open>Results\<close>

lemma getChangeset_run:
  "run (getChangeset k) d = (case table_map c_changesetId (changesets d) k of
     None \<Rightarrow> (Inl (ChangesetNotFoundError k), d) | Some c \<Rightarrow> (Inr c, d))"
  by (simp add: getChangeset_def queries split: option.splits)

lemma createChangeset_request_run:
  assumes "changeset_typed (changeset_row_of b)"
  shows "run (createChangeset_request b) d =
    (if cb_changesetId b \<in> c_changesetId ` set (changesets d)
     then (Inl (ChangesetAlreadyExistsError (cb_changesetId b)), d)
     else (Inr (), d\<lparr>changesets := changesets d @ [changeset_row_of b]\<rparr>))"
proof (cases "table_map c_changesetId (changesets d) (cb_changesetId b)")
  case None
  then have new: "cb_changesetId b \<notin> c_changesetId ` set (changesets d)"
    by (simp add: table_map_None_iff)
  then have "sql_insert c_changesetId changeset_typed (\<lambda>_ _. True) [changeset_row_of b] (changesets d) =
      Inr (changesets d @ [changeset_row_of b])"
    using assms by (simp only: sql_insert_Inr_iff) (simp add: changeset_row_of_def)
  with None new show ?thesis
    by (simp add: createChangeset_request_def queries createChangeset_def insert_changesets_def
        writing_def put_changesets_def)
next
  case (Some c)
  with table_map_Some_key [OF Some] show ?thesis
    by (simp add: createChangeset_request_def queries)
qed

lemma updateChangesetEntities_run:
  "run (updateChangesetEntities k) d =
    (if k \<in> c_changesetId ` set (changesets d)
     then (Inr (), d\<lparr>entities := update_where (\<lambda>e. e_changesetId e = Some k)
       (\<lambda>e. e\<lparr>e_status := E_COMPLETED\<rparr>) (entities d)\<rparr>)
     else (Inl (ChangesetNotFoundError k), d))"
  by (cases "table_map c_changesetId (changesets d) k")
    (simp_all add: updateChangesetEntities_def queries updateEntitiesOfChangesetAsCompleted_def
      in_keys_iff)

section \<open>Properties\<close>

text \<open>
  A changeset is created once: a second creation under the same identifier is a conflict and
  changes nothing, the first one stores exactly the row of the request, which can then be read.
\<close>

lemma createChangeset_once:
  assumes "db_wf d" and "changeset_typed (changeset_row_of b)"
  shows "if cb_changesetId b \<in> c_changesetId ` set (changesets d)
    then run (createChangeset_request b) d = (Inl (ChangesetAlreadyExistsError (cb_changesetId b)), d)
    else \<exists>d'. run (createChangeset_request b) d = (Inr (), d') \<and>
      d' = d\<lparr>changesets := changesets d @ [changeset_row_of b]\<rparr> \<and>
      run (getChangeset (cb_changesetId b)) d' = (Inr (changeset_row_of b), d') \<and>
      run (createChangeset_request b) d' = (Inl (ChangesetAlreadyExistsError (cb_changesetId b)), d')"
proof (cases "cb_changesetId b \<in> c_changesetId ` set (changesets d)")
  case True
  then show ?thesis by (simp add: createChangeset_request_run [OF assms(2)])
next
  case False
  let ?d = "d\<lparr>changesets := changesets d @ [changeset_row_of b]\<rparr>"
  have key: "c_changesetId (changeset_row_of b) = cb_changesetId b" by (simp add: changeset_row_of_def)
  have "table_map c_changesetId (changesets ?d) (cb_changesetId b) = Some (changeset_row_of b)"
    using False db_wfD(4) [OF assms(1)] key by (subst table_map_Some) auto
  with False key show ?thesis
    by (simp add: createChangeset_request_run [OF assms(2)] getChangeset_run)
qed

text \<open>
  Patching the entities of a changeset completes all of them, whatever their status was, and
  no other entity; nothing else of the database changes.  An unknown changeset is an error that
  changes nothing.
\<close>

lemma updateChangesetEntities_completes:
  fixes d :: store and k :: string
  defines "outcome \<equiv> run (updateChangesetEntities k) d"
  shows "(fst outcome = Inr () \<longleftrightarrow> k \<in> c_changesetId ` set (changesets d)) \<and>
    (fst outcome \<noteq> Inr () \<longrightarrow> outcome = (Inl (ChangesetNotFoundError k), d)) \<and>
    (fst outcome = Inr () \<longrightarrow>
      (\<exists>es. snd outcome = d\<lparr>entities := es\<rparr> \<and> length es = length (entities d) \<and>
        (\<forall>i < length es. es ! i = (if e_changesetId (entities d ! i) = Some k
          then (entities d ! i)\<lparr>e_status := E_COMPLETED\<rparr> else entities d ! i))))"
  unfolding outcome_def updateChangesetEntities_run by (auto simp: update_where_def)

end
