(* ===== verification/Lodash.thy ===== *)
theory Lodash
  imports Prelude
begin

text \<open>
  The functions of lodash the managers call.  The library is not part of the sources: a record of
  functions stands for it, and \<open>lodash_ok\<close> is what its documentation says of them.
\<close>

record 'b lodash =
  uniqBy :: "('b \<Rightarrow> string) \<Rightarrow> 'b list \<Rightarrow> 'b list"
  difference :: "string list \<Rightarrow> string list \<Rightarrow> string list"
  includes_from :: "string list \<Rightarrow> string \<Rightarrow> nat \<Rightarrow> bool"
  filter_indexed :: "string list \<Rightarrow> (string \<Rightarrow> nat \<Rightarrow> string list \<Rightarrow> bool) \<Rightarrow> string list"

text \<open>
  \<open>uniqBy\<close> keeps one element for every value of the iteratee; \<open>difference\<close> keeps the elements of
  the first array that are not in the second, in their order; \<open>includes\<close> searches from an index;
  \<open>filter\<close> passes the predicate an element, its index and the array.
\<close>

definition lodash_ok :: "'b lodash \<Rightarrow> bool" where
  "lodash_ok ld \<longleftrightarrow>
     (\<forall>key xs. distinct (map key (uniqBy ld key xs)) \<and> set (uniqBy ld key xs) \<subseteq> set xs \<and>
        key ` set (uniqBy ld key xs) = key ` set xs) \<and>
     (\<forall>xs ys. difference ld xs ys = filter (\<lambda>x. x \<notin> set ys) xs) \<and>
     (\<forall>xs x i. includes_from ld xs x i = (x \<in> set (drop i xs))) \<and>
     (\<forall>xs p. filter_indexed ld xs p =
        map fst (filter (\<lambda>(x, i). p x i xs) (zip xs [0..<length xs])))"

text \<open>Functions with that behaviour.\<close>

fun uniq_by :: "('b \<Rightarrow> string) \<Rightarrow> 'b list \<Rightarrow> 'b list" where
  "uniq_by key [] = []"
| "uniq_by key (x # xs) = x # filter (\<lambda>y. key y \<noteq> key x) (uniq_by key xs)"

definition lodash_impl :: "'b lodash" where
  "lodash_impl =
     \<lparr>uniqBy = uniq_by,
      difference = (\<lambda>xs ys. filter (\<lambda>x. x \<notin> set ys) xs),
      includes_from = (\<lambda>xs x i. x \<in> set (drop i xs)),
      filter_indexed = (\<lambda>xs p. map fst (filter (\<lambda>(x, i). p x i xs) (zip xs [0..<length xs])))\<rparr>"

lemma lodash_impl_ok: "lodash_ok (lodash_impl :: 'b lodash)"
proof -
  have "distinct (map key (uniq_by key xs)) \<and> set (uniq_by key xs) \<subseteq> set xs \<and>
      key ` set (uniq_by key xs) = key ` set xs" for key and xs :: "'b list"
  proof (induction xs)
    case Nil
    then show ?case by simp
  next
    case (Cons x xs)
    then have "distinct (map key (filter (\<lambda>y. key y \<noteq> key x) (uniq_by key xs)))"
      by (intro distinct_map_filter) blast
    moreover have "key ` {y \<in> A. key y \<noteq> key x} = key ` A - {key x}" for A
      by auto
    ultimately show ?case using Cons by auto
  qed
  then show ?thesis by (auto simp: lodash_ok_def lodash_impl_def)
qed

section \<open>The checks the managers make with them\<close>

lemma uniqBy_length_iff:
  assumes "lodash_ok ld"
  shows "length (uniqBy ld key xs) = length xs \<longleftrightarrow> distinct (map key xs)"
proof -
  let ?u = "uniqBy ld key xs"
  from assms have u: "distinct (map key ?u)" "key ` set ?u = key ` set xs"
    by (simp_all add: lodash_ok_def)
  then have "length ?u = card (key ` set xs)"
    by (metis distinct_card length_map set_map)
  then show ?thesis
    by (metis card_distinct distinct_card length_map set_map)
qed

lemma difference_eq: "lodash_ok ld \<Longrightarrow> difference ld xs ys = filter (\<lambda>x. x \<notin> set ys) xs"
  by (simp add: lodash_ok_def)

text \<open>\<open>filter(ids, (id, i, all) => includes(all, id, i + 1))\<close>: the elements that occur again later.\<close>

lemma duplicates_empty_iff:
  assumes "lodash_ok ld"
  shows "filter_indexed ld xs (\<lambda>x i ys. includes_from ld ys x (i + 1)) = [] \<longleftrightarrow> distinct xs"
proof -
  have "filter_indexed ld xs (\<lambda>x i ys. includes_from ld ys x (i + 1)) = [] \<longleftrightarrow>
      (\<forall>(x, i) \<in> set (zip xs [0..<length xs]). x \<notin> set (drop (i + 1) xs))"
    using assms by (auto simp: lodash_ok_def filter_empty_conv)
  also have "\<dots> \<longleftrightarrow> (\<forall>i < length xs. xs ! i \<notin> set (drop (Suc i) xs))"
    by (simp only: Ball_def in_set_zip split_paired_All prod.case fst_conv snd_conv)
      (metis Suc_eq_plus1 add_0 length_upt diff_zero nth_upt)
  also have "\<dots> \<longleftrightarrow> distinct xs"
    by (induction xs) (simp_all add: All_less_Suc2)
  finally show ?thesis .
qed

end
