(* ===== verification/File_Manager.thy ===== *)
theory File_Manager
  imports File_Repository Sync_Repository Lodash
begin

text \<open>
  \<^verbatim>\<open>src/src/file/models/fileManager.ts\<close>, without the closures (a queue's client).
\<close>

definition createRerunFile :: "sync_row \<Rightarrow> file_body \<Rightarrow> (js_error, store, unit) prog" where
  "createRerunFile rerunSync rerunFile =
     await (findOneFile (fb_fileId rerunFile)) (\<lambda>fileEntity.
     case fileEntity of
       None \<Rightarrow> await (createFile_row (rerunFile\<lparr>fb_syncId := the (s_baseSyncId rerunSync)\<rparr>)) (\<lambda>_. return ())
     | Some f \<Rightarrow>
         if s_baseSyncId rerunSync \<noteq> Some (f_syncId f)
         then throw (ConflictingRerunFileError (fb_fileId rerunFile))
         else if to_nullable (fb_totalEntities rerunFile) \<noteq> f_totalEntities f
         then throw (ConflictingRerunFileError (fb_fileId rerunFile))
         else return ())"

definition createFile :: "string \<Rightarrow> file_body \<Rightarrow> (js_error, store, unit) prog" where
  "createFile syncId file =
     await (findOneSync syncId) (\<lambda>syncEntity.
     case syncEntity of
       None \<Rightarrow> throw (SyncNotFoundError syncId)
     | Some s \<Rightarrow>
         if s_baseSyncId s \<noteq> None then createRerunFile s file
         else await (findOneFile (fb_fileId file)) (\<lambda>fileEntity.
           case fileEntity of
             Some _ \<Rightarrow> throw (FileAlreadyExistsError [fb_fileId file])
           | None \<Rightarrow> await (createFile_row (file\<lparr>fb_syncId := syncId\<rparr>)) (\<lambda>_. return ())))"

definition createFiles ::
  "file_body lodash \<Rightarrow> string \<Rightarrow> file_body list \<Rightarrow> (js_error, store, unit) prog" where
  "createFiles ld syncId fs =
     (let uniqueFileIds = uniqBy ld fb_fileId fs
      in if length uniqueFileIds \<noteq> length fs
         then throw (DuplicateFilesError (map fb_fileId uniqueFileIds))
         else await (findOneSync syncId) (\<lambda>syncEntity.
           case syncEntity of
             None \<Rightarrow> throw (SyncNotFoundError syncId)
           | Some _ \<Rightarrow> await (findManyFilesByIds fs) (\<lambda>filesEntities.
               case filesEntities of
                 Some existing \<Rightarrow> throw (FileAlreadyExistsError (map f_fileId existing))
               | None \<Rightarrow> await (createFiles_rows (map (\<lambda>file. file\<lparr>fb_syncId := syncId\<rparr>) fs))
                   (\<lambda>_. return ()))))"

definition updateFile ::
  "env \<Rightarrow> string \<Rightarrow> string \<Rightarrow> file_update \<Rightarrow> (js_error, store, unit) prog" where
  "updateFile env syncId fileId fileUpdate =
     await (findOneSync syncId) (\<lambda>syncEntity.
     case syncEntity of
       None \<Rightarrow> throw (SyncNotFoundError syncId)
     | Some _ \<Rightarrow> await (findOneFile fileId) (\<lambda>fileEntity.
         case fileEntity of
           None \<Rightarrow> throw (FileNotFoundError fileId)
         | Some _ \<Rightarrow> await (updateFile_row env fileId fileUpdate) (\<lambda>_. return ())))"

section \<open>Invariant\<close>

lemma createRerunFile_keeps [inv_intros]: "keeps db_wf (createRerunFile s b)"
  unfolding createRerunFile_def by (intro inv_intros | assumption)+

lemma file_manager_keeps [inv_intros]:
  "keeps db_wf (createFile syncId b)"
  "keeps db_wf (createFiles ld syncId bs)"
  "keeps db_wf (updateFile env syncId fileId u)"
  unfolding createFile_def createFiles_def updateFile_def Let_def
  by (intro inv_intros | assumption)+

section \<open>Results\<close>

lemma createFile_row_ok:
  assumes "file_typed (file_row_of b)" and "fb_syncId b \<in> s_id ` set (syncs d)"
    and "fb_fileId b \<notin> f_fileId ` set (files d)"
  shows "createFile_row b d = (Inr (), d\<lparr>files := files d @ [file_row_of b]\<rparr>)"
proof -
  have "sql_insert f_fileId file_typed (\<lambda>_. file_fk d) [file_row_of b] (files d) =
      Inr (files d @ [file_row_of b])"
    using assms by (simp only: sql_insert_Inr_iff) (simp add: file_row_of_def file_fk_def)
  then show ?thesis
    by (simp add: createFile_row_def createFiles_rows_def writing_def put_files_def)
qed

lemma file_row_of_syncId [simp]:
  "file_row_of (b\<lparr>fb_syncId := k\<rparr>) = (file_row_of b)\<lparr>f_syncId := k\<rparr>"
  by (simp add: file_row_of_def)

lemma file_typed_syncId [simp]: "file_typed (r\<lparr>f_syncId := k\<rparr>) = file_typed r"
  by (simp add: file_typed_def)

text \<open>What \<open>createFile\<close> answers and stores, on every branch.\<close>

definition createFile_spec :: "string \<Rightarrow> file_body \<Rightarrow> store \<Rightarrow> (js_error + unit) \<times> store" where
  "createFile_spec syncId b d =
     (case table_map s_id (syncs d) syncId of
        None \<Rightarrow> (Inl (SyncNotFoundError syncId), d)
      | Some s \<Rightarrow>
          let owner = (case s_baseSyncId s of None \<Rightarrow> syncId | Some base \<Rightarrow> base)
          in case table_map f_fileId (files d) (fb_fileId b) of
               None \<Rightarrow> (Inr (), d\<lparr>files := files d @ [(file_row_of b)\<lparr>f_syncId := owner\<rparr>]\<rparr>)
             | Some f \<Rightarrow>
                 if s_baseSyncId s = None then (Inl (FileAlreadyExistsError [fb_fileId b]), d)
                 else if f_syncId f = owner \<and> f_totalEntities f = f_totalEntities (file_row_of b)
                 then (Inr (), d)
                 else (Inl (ConflictingRerunFileError (fb_fileId b)), d))"

lemma createFile_run:
  assumes wf: "db_wf d" and typed: "file_typed (file_row_of b)"
  shows "run (createFile syncId b) d = createFile_spec syncId b d"
proof (cases "table_map s_id (syncs d) syncId")
  case None
  then show ?thesis by (simp add: createFile_def createFile_spec_def queries)
next
  case (Some s)
  then have s: "s \<in> set (syncs d)" "s_id s = syncId" by (auto dest: table_map_SomeD)
  define owner where "owner = (case s_baseSyncId s of None \<Rightarrow> syncId | Some base \<Rightarrow> base)"
  have owner: "owner \<in> s_id ` set (syncs d)"
    using s db_wf_refD(3) [OF wf s(1)] by (auto simp: owner_def split: option.splits)
  have create: "createFile_row (b\<lparr>fb_syncId := owner\<rparr>) d =
      (Inr (), d\<lparr>files := files d @ [(file_row_of b)\<lparr>f_syncId := owner\<rparr>]\<rparr>)"
    if "table_map f_fileId (files d) (fb_fileId b) = None"
    using createFile_row_ok [of "b\<lparr>fb_syncId := owner\<rparr>" d] that typed owner
    by (simp add: table_map_None_iff)
  have total: "f_totalEntities (file_row_of b) = to_nullable (fb_totalEntities b)"
    by (simp add: file_row_of_def)
  show ?thesis
  proof (cases "s_baseSyncId s")
    case None
    with Some create show ?thesis
      by (auto simp: createFile_def createFile_spec_def queries owner_def split: option.splits)
  next
    case (Some base)
    with \<open>table_map s_id (syncs d) syncId = Some s\<close> create show ?thesis
      by (auto simp: createFile_def createRerunFile_def createFile_spec_def queries owner_def total
          split: option.splits)
  qed
qed

lemma findManyFilesByIds_query [queries]:
  "findManyFilesByIds bs d =
    (let existing = filter (\<lambda>f. f_fileId f \<in> fb_fileId ` set bs) (files d)
     in (Inr (if existing = [] then None else Some existing), d))"
  by (simp add: findManyFilesByIds_def reading_def Let_def)

text \<open>\<open>createFiles\<close> inserts every file of the request on the sync, or answers which rule it breaks.\<close>

definition createFiles_spec ::
  "file_body lodash \<Rightarrow> string \<Rightarrow> file_body list \<Rightarrow> store \<Rightarrow> (js_error + unit) \<times> store" where
  "createFiles_spec ld syncId bs d =
     (let existing = filter (\<lambda>f. f_fileId f \<in> fb_fileId ` set bs) (files d)
      in if \<not> distinct (map fb_fileId bs)
         then (Inl (DuplicateFilesError (map fb_fileId (uniqBy ld fb_fileId bs))), d)
         else if syncId \<notin> s_id ` set (syncs d) then (Inl (SyncNotFoundError syncId), d)
         else if existing \<noteq> [] then (Inl (FileAlreadyExistsError (map f_fileId existing)), d)
         else (Inr (), d\<lparr>files := files d @ map (\<lambda>b. (file_row_of b)\<lparr>f_syncId := syncId\<rparr>) bs\<rparr>))"

lemma createFiles_run:
  assumes ld: "lodash_ok ld" and typed: "list_all (\<lambda>b. file_typed (file_row_of b)) bs"
  shows "run (createFiles ld syncId bs) d = createFiles_spec ld syncId bs d"
proof (cases "distinct (map fb_fileId bs)")
  case False
  then show ?thesis
    by (simp add: createFiles_def createFiles_spec_def uniqBy_length_iff [OF ld])
next
  case True
  let ?existing = "filter (\<lambda>f. f_fileId f \<in> fb_fileId ` set bs) (files d)"
  let ?new = "map (\<lambda>b. (file_row_of b)\<lparr>f_syncId := syncId\<rparr>) bs"
  have ids: "map f_fileId ?new = map fb_fileId bs"
    by (simp add: file_row_of_def)
  have create: "createFiles_rows (map (\<lambda>b. b\<lparr>fb_syncId := syncId\<rparr>) bs) d =
      (Inr (), d\<lparr>files := files d @ ?new\<rparr>)"
    if "?existing = []" and "syncId \<in> s_id ` set (syncs d)"
  proof -
    have "sql_insert f_fileId file_typed (\<lambda>_. file_fk d) ?new (files d) = Inr (files d @ ?new)"
      unfolding sql_insert_Inr_iff
    proof (intro conjI)
      show "distinct (map f_fileId ?new)" unfolding ids by (rule True)
      have keys: "f_fileId ` set ?new = fb_fileId ` set bs" using ids by (metis set_map)
      from that(1) have "\<forall>f \<in> set (files d). f_fileId f \<notin> fb_fileId ` set bs"
        by (simp add: filter_empty_conv)
      then show "f_fileId ` set ?new \<inter> f_fileId ` set (files d) = {}"
        unfolding keys by (rule keys_disjoint)
    qed (use typed that(2) in \<open>auto simp: list_all_iff file_fk_def\<close>)
    then show ?thesis
      by (simp add: createFiles_rows_def writing_def put_files_def comp_def)
  qed
  show ?thesis
  proof (cases "table_map s_id (syncs d) syncId")
    case None
    with True show ?thesis
      by (simp add: createFiles_def createFiles_spec_def uniqBy_length_iff [OF ld] queries in_keys_iff)
  next
    case (Some s)
    then have "syncId \<in> s_id ` set (syncs d)" by (rule table_map_Some_key)
    with True Some create show ?thesis
      by (simp add: createFiles_def createFiles_spec_def uniqBy_length_iff [OF ld] queries Let_def)
  qed
qed

lemma updateFile_run:
  "run (updateFile env syncId fileId u) d =
    (if syncId \<notin> s_id ` set (syncs d) then (Inl (SyncNotFoundError syncId), d)
     else if fileId \<notin> f_fileId ` set (files d) then (Inl (FileNotFoundError fileId), d)
     else updateFile_row env fileId u d)"
  by (cases "table_map s_id (syncs d) syncId"; cases "table_map f_fileId (files d) fileId")
    (simp_all add: updateFile_def queries in_keys_iff split: prod.splits sum.splits)

section \<open>Properties\<close>

text \<open>
  C26: creating a file on a known sync.  A new identifier is stored, on the sync, or on the base
  sync when the sync is a rerun.  An identifier in use is refused on an original sync; on a rerun
  it is accepted without effect when that file is the base sync's and has the same number of
  entities, and refused as a conflict when not.
\<close>

theorem createFile_answers:
  assumes wf: "db_wf d" and typed: "int4_null (to_nullable (fb_totalEntities b))"
    and s: "s \<in> set (syncs d)" "s_id s = syncId"
  shows "run (createFile syncId b) d =
    (let owner = (case s_baseSyncId s of None \<Rightarrow> syncId | Some base \<Rightarrow> base);
         same = filter (\<lambda>f. f_fileId f = fb_fileId b) (files d)
     in if same = [] then (Inr (), d\<lparr>files := files d @
          [\<lparr>f_fileId = fb_fileId b, f_syncId = owner, f_startDate = fb_startDate b,
            f_endDate = to_nullable (fb_endDate b),
            f_status = (case fb_status b of None \<Rightarrow> IN_PROGRESS | Some st \<Rightarrow> st),
            f_totalEntities = to_nullable (fb_totalEntities b)\<rparr>]\<rparr>)
        else if s_baseSyncId s = None then (Inl (FileAlreadyExistsError [fb_fileId b]), d)
        else if f_syncId (hd same) = owner \<and> f_totalEntities (hd same) = to_nullable (fb_totalEntities b)
        then (Inr (), d)
        else (Inl (ConflictingRerunFileError (fb_fileId b)), d))"
proof -
  have "file_typed (file_row_of b)" using typed by (simp add: file_typed_def file_row_of_def)
  note spec = createFile_run [OF wf this, of syncId]
  have row: "table_map s_id (syncs d) syncId = Some s"
    using s by (simp add: table_map_Some db_wfD(1) [OF wf])
  have same: "table_map f_fileId (files d) k = (case filter (\<lambda>f. f_fileId f = k) (files d) of
      [] \<Rightarrow> None | f # _ \<Rightarrow> Some f)" for k
    by (simp add: table_map_def select_one_filter)
  have patch: "patch_col x y = (case y of None \<Rightarrow> x | Some z \<Rightarrow> z)" for x and y :: "'a option"
    by (cases y) simp_all
  show ?thesis
    unfolding spec createFile_spec_def row same
    by (simp add: Let_def file_row_of_def patch split: list.splits option.splits)
qed

definition example_file :: "string \<Rightarrow> int \<Rightarrow> file_body" where
  "example_file k n = \<lparr>fb_fileId = k, fb_syncId = '''', fb_totalEntities = Given n, fb_startDate = 20,
     fb_endDate = Undefined, fb_status = None\<rparr>"

theorem createFile_answers_witness:
  fixes d :: store
  defines "d \<equiv> a_store [a_sync ''s1'' FAILED (Some 1) None 0, a_sync ''r1'' IN_PROGRESS (Some 1) (Some ''s1'') 1]
    [a_file ''f1'' ''s1'' IN_PROGRESS (Some 2)] []"
  shows "run (createFile ''r1'' (example_file ''f1'' 2)) d = (Inr (), d) \<and>
    run (createFile ''r1'' (example_file ''f1'' 3)) d = (Inl (ConflictingRerunFileError ''f1''), d) \<and>
    run (createFile ''r1'' (example_file ''f9'' 3)) d =
      (Inr (), d\<lparr>files := files d @ [a_file ''f9'' ''s1'' IN_PROGRESS (Some 3)]\<rparr>)"
proof -
  let ?s = "a_sync ''r1'' IN_PROGRESS (Some 1) (Some ''s1'') 1"
  have wf: "db_wf d" by (simp add: d_def db_wf_eval example_rows)
  have s: "?s \<in> set (syncs d)" "s_id ?s = ''r1''" by (simp_all add: d_def example_rows)
  have typed: "int4_null (to_nullable (fb_totalEntities (example_file k 2)))"
    "int4_null (to_nullable (fb_totalEntities (example_file k 3)))" for k
    by (simp_all add: example_file_def int4_def)
  show ?thesis
    using createFile_answers [OF wf typed(1) s] createFile_answers [OF wf typed(2) s]
    by (simp add: d_def example_rows example_file_def)
qed



end
