(* ===== verification/Entity_Manager.thy ===== *)
theory Entity_Manager
  imports Entity_Repository File_Repository Sync_Repository Lodash
begin

text \<open>
  \<^verbatim>\<open>src/src/entity/models/entityManager.ts\<close>.
\<close>

record bulk_result =
  created :: "string list"
  previouslyCompleted :: "string list"

text \<open>\<open>{ fileId, ...entity }\<close>: a \<open>fileId\<close> of the body overrides the one of the path.\<close>

definition createEntity :: "string \<Rightarrow> entity_body \<Rightarrow> (js_error, store, unit) prog" where
  "createEntity fileId entity =
     await (findOneFile fileId) (\<lambda>fileEntity.
     let entityWithFileId = entity\<lparr>eb_fileId :=
           (case eb_fileId entity of None \<Rightarrow> Some fileId | Some own \<Rightarrow> Some own)\<rparr>
     in case fileEntity of
       None \<Rightarrow> throw (FileNotFoundError fileId)
     | Some _ \<Rightarrow> await (findOneEntity (eb_entityId entity) fileId) (\<lambda>entityEntity.
         case entityEntity of
           Some _ \<Rightarrow> throw (EntityAlreadyExistsError [eb_entityId entity])
         | None \<Rightarrow> await (createEntity_row entityWithFileId) (\<lambda>_. return ())))"

text \<open>The partition of the payload that a bulk creation on a rerun computes.\<close>

definition entitiesForUpsert ::
  "entity_body lodash \<Rightarrow> entity_body list \<Rightarrow> entity_row list \<Rightarrow> entity_body list" where
  "entitiesForUpsert ld entitiesWithFileId existingEntities =
     (let nonExistingEntityIds = difference ld (map eb_entityId entitiesWithFileId)
            (map e_entityId existingEntities);
          existingEntityIdsForRerun =
            map e_entityId (filter (\<lambda>e. e_status e = E_IN_RERUN) existingEntities)
      in filter (\<lambda>b. eb_entityId b \<in> set (nonExistingEntityIds @ existingEntityIdsForRerun))
           entitiesWithFileId)"

definition createEntities ::
  "entity_body lodash \<Rightarrow> string \<Rightarrow> entity_body list \<Rightarrow> (js_error, store, bulk_result) prog" where
  "createEntities ld fileId entitiesForCreation =
     await (findOneFile fileId) (\<lambda>fileEntity.
     case fileEntity of
       None \<Rightarrow> throw (FileNotFoundError fileId)
     | Some f \<Rightarrow>
       (let entitiesWithFileId = map (\<lambda>entity. entity\<lparr>eb_fileId := Some fileId\<rparr>) entitiesForCreation;
            entityIdsForCreation = map eb_entityId entitiesWithFileId;
            duplicateEntities = filter_indexed ld entityIdsForCreation
              (\<lambda>entityId i iteratee. includes_from ld iteratee entityId (i + 1))
        in if length duplicateEntities > 0 then throw (DuplicateEntityError duplicateEntities)
        else
          let result = \<lparr>created = entityIdsForCreation, previouslyCompleted = []\<rparr>
          in await (findManyEntitiesByIds entitiesWithFileId) (\<lambda>existingEntities.
             await (findSyncs \<lparr>sp_layerId = None, sp_geometryType = None, sp_isFull = None,
                sp_baseSyncId = Some (f_syncId f)\<rparr>) (\<lambda>reruns.
             if length reruns = 0
             then (case existingEntities of
                 Some existing \<Rightarrow> throw (EntityAlreadyExistsError (map e_entityId existing))
               | None \<Rightarrow> await (createEntities_rows entitiesWithFileId) (\<lambda>_. return result))
             else (case existingEntities of
                 None \<Rightarrow> await (updateEntities_rows entitiesWithFileId) (\<lambda>_. return result)
               | Some existing \<Rightarrow>
                   let upsert = entitiesForUpsert ld entitiesWithFileId existing;
                       entitiesForUpsertIds = map eb_entityId upsert;
                       previouslyCompletedEntities = difference ld entityIdsForCreation entitiesForUpsertIds
                   in await (updateEntities_rows upsert) (\<lambda>_.
                      return \<lparr>created = entitiesForUpsertIds,
                        previouslyCompleted = previouslyCompletedEntities\<rparr>))))))"

definition updateEntity ::
  "env \<Rightarrow> string \<Rightarrow> string \<Rightarrow> entity_update \<Rightarrow> (js_error, store, unit) prog" where
  "updateEntity env fileId entityId entity =
     await (findOneFile fileId) (\<lambda>fileEntity.
     case fileEntity of
       None \<Rightarrow> throw (FileNotFoundError fileId)
     | Some _ \<Rightarrow> await (findOneEntity entityId fileId) (\<lambda>entityEntity.
         case entityEntity of
           None \<Rightarrow> throw (EntityNotFoundError (Some entityId))
         | Some _ \<Rightarrow> await (updateEntity_row env entityId fileId entity) (\<lambda>_. return ())))"

definition updateEntities ::
  "env \<Rightarrow> entity_body lodash \<Rightarrow> entity_body list \<Rightarrow> (js_error, store, unit) prog" where
  "updateEntities env ld es =
     (let uniqueEntityIds = uniqBy ld eb_entityId es
      in if length uniqueEntityIds \<noteq> length es
         then throw (DuplicateEntityError (map eb_entityId uniqueEntityIds))
         else await (countEntitiesByIds env (map (\<lambda>e. (eb_entityId e, the (eb_fileId e))) es))
           (\<lambda>entityCount.
            if entityCount \<noteq> length es then throw (EntityNotFoundError None)
            else await (updateEntities_rows es) (\<lambda>_. return ())))"

section \<open>Invariant\<close>

lemma entity_manager_keeps [inv_intros]:
  "keeps db_wf (createEntity fileId b)"
  "keeps db_wf (createEntities ld fileId bs)"
  "keeps db_wf (updateEntity env fileId entityId u)"
  "keeps db_wf (updateEntities env ld bs)"
  unfolding createEntity_def createEntities_def updateEntity_def updateEntities_def Let_def
  by (intro inv_intros | assumption)+

section \<open>Saving a list of entities\<close>

text \<open>The key a body saves to, and the row a list of bodies with different keys makes of a row.\<close>

definition save_key :: "entity_body \<Rightarrow> string \<times> string option" where
  "save_key b = (eb_entityId b, eb_fileId b)"

definition saved :: "entity_body list \<Rightarrow> entity_row \<Rightarrow> entity_row" where
  "saved bs e = (case find (\<lambda>b. matches_entity b e) bs of
     None \<Rightarrow> e | Some b \<Rightarrow> update_entity_row (entity_update_of b) e)"

lemma matches_entity_iff: "matches_entity b e \<longleftrightarrow> save_key b = (e_entityId e, Some (e_fileId e))"
  by (auto simp: matches_entity_def save_key_def)

lemma matches_entity_update [simp]:
  "matches_entity b (update_entity_row u e) = matches_entity b e"
  by (simp add: matches_entity_def)

lemma apply_saves_eq: "distinct (map save_key bs) \<Longrightarrow> apply_saves bs rows = map (saved bs) rows"
proof (induction bs arbitrary: rows)
  case Nil
  then show ?case by (simp add: apply_saves_def saved_def)
next
  case (Cons b bs)
  have "saved bs (if matches_entity b e then update_entity_row (entity_update_of b) e else e) =
      saved (b # bs) e" for e
  proof (cases "matches_entity b e")
    case True
    with Cons.prems have "find (\<lambda>b. matches_entity b e) bs = None"
      by (auto simp: find_None_iff matches_entity_iff) (metis image_eqI)
    with True show ?thesis by (simp add: saved_def)
  qed (simp add: saved_def)
  with Cons show ?case by (simp add: apply_saves_def update_where_def)
qed

lemma saved_unmatched: "(\<And>b. b \<in> set bs \<Longrightarrow> \<not> matches_entity b e) \<Longrightarrow> saved bs e = e"
  by (auto simp: saved_def dest!: find_Some_iff [THEN iffD1] split: option.splits)

lemma find_saved:
  assumes "b \<in> set bs" and "matches_entity b e" and "distinct (map save_key bs)"
  shows "find (\<lambda>b. matches_entity b e) bs = Some b"
proof (cases "find (\<lambda>b. matches_entity b e) bs")
  case None
  with assms show ?thesis by (auto simp: find_None_iff)
next
  case (Some b')
  then have b': "b' \<in> set bs" "matches_entity b' e" by (auto simp: find_Some_iff)
  with assms distinct_key_eq [OF assms(3) b'(1) assms(1)] Some show ?thesis
    by (simp add: matches_entity_iff)
qed

lemma saved_filter:
  assumes "\<And>b. b \<in> set bs \<Longrightarrow> matches_entity b e \<Longrightarrow> P b"
  shows "saved (filter P bs) e = saved bs e"
proof -
  have "find (\<lambda>b. matches_entity b e) (filter P bs) = find (\<lambda>b. matches_entity b e) bs"
    using assms by (induction bs) auto
  then show ?thesis by (simp add: saved_def)
qed

text \<open>
  \<open>save\<close> on bodies with different keys, existing files and changesets: the rows it finds are
  updated where they are, the others are appended.
\<close>

definition new_bodies :: "entity_body list \<Rightarrow> store \<Rightarrow> entity_body list" where
  "new_bodies bs d = filter (\<lambda>b. \<not> list_ex (matches_entity b) (entities d)) bs"

definition body_refs_ok :: "store \<Rightarrow> entity_body \<Rightarrow> bool" where
  "body_refs_ok d b \<longleftrightarrow> ref_ok f_fileId (files d) (eb_fileId b) \<and> eb_fileId b \<noteq> None \<and>
     ref_ok c_changesetId (changesets d) (to_nullable (eb_changesetId b))"

lemma those_entity_rows:
  "list_all (\<lambda>b. eb_fileId b \<noteq> None) bs \<Longrightarrow>
    those (map entity_row_of bs) = Some (map (the \<circ> entity_row_of) bs)"
  by (induction bs) (auto simp: entity_row_of_def)

lemma entity_row_of_key:
  "eb_fileId b = Some k \<Longrightarrow> e_key (the (entity_row_of b)) = (eb_entityId b, k)"
  by (simp add: entity_row_of_def e_key_def)

lemma updateEntities_rows_ok:
  assumes keys: "distinct (map save_key bs)" and refs: "list_all (body_refs_ok d) bs"
  shows "updateEntities_rows bs d = (Inr (), d\<lparr>entities := map (saved bs) (entities d) @
    map (the \<circ> entity_row_of) (new_bodies bs d)\<rparr>)"
proof -
  let ?new = "map (the \<circ> entity_row_of) (new_bodies bs d)"
  let ?olds = "filter (\<lambda>b. list_ex (matches_entity b) (entities d)) bs"
  have fileId: "\<exists>k. eb_fileId b = Some k" if "b \<in> set bs" for b
    using refs that by (auto simp: list_all_iff body_refs_ok_def)
  have key: "e_key (the (entity_row_of b)) = (eb_entityId b, the (eb_fileId b)) \<and>
      save_key b = (eb_entityId b, Some (the (eb_fileId b)))" if "b \<in> set bs" for b
    using fileId [OF that] by (auto simp: entity_row_of_def e_key_def save_key_def)
  have "those (map entity_row_of (new_bodies bs d)) = Some ?new"
    by (rule those_entity_rows) (use fileId in \<open>auto simp: new_bodies_def list_all_iff\<close>)
  moreover have "sql_insert e_key (\<lambda>_. True) (\<lambda>_. entity_fk d) ?new (entities d) = Inr (entities d @ ?new)"
    unfolding sql_insert_Inr_iff
  proof (intro conjI)
    have "distinct (map save_key (new_bodies bs d))"
      using keys by (simp add: new_bodies_def distinct_map_filter)
    then show "distinct (map e_key ?new)"
      using key by (auto simp: distinct_map inj_on_def new_bodies_def)
    have "\<forall>e \<in> set (entities d). e_key e \<notin> e_key ` set ?new"
      using key fileId by (fastforce simp: new_bodies_def list_ex_iff matches_entity_iff e_key_def)
    then show "e_key ` set ?new \<inter> e_key ` set (entities d) = {}" by (rule keys_disjoint)
    show "\<forall>r \<in> set ?new. entity_fk d r"
      using refs by (auto simp: list_all_iff body_refs_ok_def entity_fk_def entity_row_of_def new_bodies_def)
  qed simp_all
  moreover have "list_all (\<lambda>b. ref_ok c_changesetId (changesets d) (to_nullable (eb_changesetId b))) ?olds"
    using refs by (auto simp: list_all_iff body_refs_ok_def)
  moreover have "apply_saves ?olds (entities d @ ?new) = map (saved bs) (entities d) @ ?new"
  proof -
    have "saved ?olds e = saved bs e" if "e \<in> set (entities d)" for e
      using that by (intro saved_filter) (auto simp: list_ex_iff)
    moreover have "saved ?olds r = r" if r: "r \<in> set ?new" for r
    proof (rule saved_unmatched)
      fix b
      assume b: "b \<in> set ?olds"
      from r obtain b' where b': "b' \<in> set (new_bodies bs d)" "r = the (entity_row_of b')" by auto
      then have "save_key b' = (e_entityId r, Some (e_fileId r))"
        using key [of b'] by (auto simp: new_bodies_def e_key_def)
      with b b' show "\<not> matches_entity b r"
        using distinct_key_eq [OF keys, of b b'] by (auto simp: new_bodies_def matches_entity_iff)
    qed
    ultimately show ?thesis
      using keys by (subst apply_saves_eq) (auto simp: distinct_map_filter)
  qed
  ultimately show ?thesis
    by (simp add: updateEntities_rows_def Let_def new_bodies_def [symmetric] writing_def put_entities_def)
qed

section \<open>Results of the operations\<close>

lemma findManyEntitiesByIds_query [queries]:
  "findManyEntitiesByIds bs d =
    (let existing = filter (\<lambda>e. e_entityId e \<in> eb_entityId ` set bs \<and>
           Some (e_fileId e) \<in> eb_fileId ` set bs) (entities d)
     in (Inr (if existing = [] then None else Some existing), d))"
  by (simp add: findManyEntitiesByIds_def reading_def Let_def)

text \<open>The entities of a file that a payload names, and the reruns of a sync.\<close>

definition existing_in_file :: "string \<Rightarrow> entity_body list \<Rightarrow> store \<Rightarrow> entity_row list" where
  "existing_in_file fileId bs d =
     filter (\<lambda>e. e_fileId e = fileId \<and> e_entityId e \<in> eb_entityId ` set bs) (entities d)"

definition on_file :: "string \<Rightarrow> entity_body list \<Rightarrow> entity_body list" where
  "on_file fileId bs = map (\<lambda>entity. entity\<lparr>eb_fileId := Some fileId\<rparr>) bs"

definition reruns_of :: "string \<Rightarrow> store \<Rightarrow> sync_row list" where
  "reruns_of syncId d = filter (\<lambda>s. s_baseSyncId s = Some syncId) (syncs d)"

lemma on_file_ids [simp]: "map eb_entityId (on_file fileId bs) = map eb_entityId bs"
  by (simp add: on_file_def)

lemma existing_query:
  "findManyEntitiesByIds (on_file fileId bs) d =
    (Inr (if existing_in_file fileId bs d = [] then None else Some (existing_in_file fileId bs d)), d)"
proof -
  have "filter (\<lambda>e. e_entityId e \<in> eb_entityId ` set (on_file fileId bs) \<and>
      Some (e_fileId e) \<in> eb_fileId ` set (on_file fileId bs)) (entities d) = existing_in_file fileId bs d"
    unfolding existing_in_file_def by (intro filter_cong) (auto simp: on_file_def image_iff)
  then show ?thesis by (simp add: findManyEntitiesByIds_query Let_def)
qed

lemma reruns_query:
  "findSyncs \<lparr>sp_layerId = None, sp_geometryType = None, sp_isFull = None, sp_baseSyncId = Some k\<rparr> d =
    (Inr (reruns_of k d), d)"
  by (simp add: findSyncs_def reading_def where_ok_def reruns_of_def)

text \<open>On a rerun an entity is written unless the file has it in a state other than inrerun.\<close>

definition upserted :: "string \<Rightarrow> store \<Rightarrow> entity_body \<Rightarrow> bool" where
  "upserted fileId d b \<longleftrightarrow>
     list_all (\<lambda>e. e_key e = (eb_entityId b, fileId) \<longrightarrow> e_status e = E_IN_RERUN) (entities d)"

lemma entitiesForUpsert_eq:
  assumes ld: "lodash_ok ld" and wf: "db_wf d"
  shows "entitiesForUpsert ld (on_file fileId bs) (existing_in_file fileId bs d) =
    filter (upserted fileId d) (on_file fileId bs)"
proof -
  let ?ex = "existing_in_file fileId bs d"
  have "eb_entityId b \<in> set (difference ld (map eb_entityId (on_file fileId bs)) (map e_entityId ?ex) @
      map e_entityId (filter (\<lambda>e. e_status e = E_IN_RERUN) ?ex)) \<longleftrightarrow> upserted fileId d b"
    (is "?L \<longleftrightarrow> _") if "b \<in> set (on_file fileId bs)" for b
  proof -
    from that have id: "eb_entityId b \<in> eb_entityId ` set bs" by (auto simp: on_file_def)
    have "?L \<longleftrightarrow> (\<forall>e \<in> set (entities d). e_key e \<noteq> (eb_entityId b, fileId)) \<or>
        (\<exists>e \<in> set (entities d). e_key e = (eb_entityId b, fileId) \<and> e_status e = E_IN_RERUN)"
    proof -
      have named: "eb_entityId b \<in> e_entityId ` {e \<in> set ?ex. Q e} \<longleftrightarrow>
          (\<exists>e \<in> set (entities d). e_key e = (eb_entityId b, fileId) \<and> Q e)" for Q
        using id by (auto simp: existing_in_file_def e_key_def image_iff) metis
      have "eb_entityId b \<in> set (map eb_entityId (on_file fileId bs))" using id by simp
      then show ?thesis
        using named [of "\<lambda>_. True"] named [of "\<lambda>e. e_status e = E_IN_RERUN"]
        by (simp add: difference_eq [OF ld])
    qed
    also have "\<dots> \<longleftrightarrow> upserted fileId d b"
      using distinct_key_eq [OF db_wfD(3) [OF wf]] by (auto simp: upserted_def list_all_iff) metis
    finally show ?thesis .
  qed
  then show ?thesis
    unfolding entitiesForUpsert_def Let_def by (intro filter_cong) simp_all
qed

lemma no_existing_upserts_all:
  assumes "existing_in_file fileId bs d = []"
  shows "filter (upserted fileId d) (on_file fileId bs) = on_file fileId bs"
    "filter (\<lambda>b. \<not> upserted fileId d b) bs = []"
  using assms
  by (auto simp: filter_id_conv existing_in_file_def filter_empty_conv upserted_def list_all_iff
      on_file_def e_key_def)

text \<open>
  A bulk creation: refused when the file is unknown, an identifier occurs twice, or the sync has
  no rerun and the file already has one of the entities.
\<close>

definition createEntities_spec ::
  "entity_body lodash \<Rightarrow> string \<Rightarrow> entity_body list \<Rightarrow> store \<Rightarrow> (js_error + bulk_result) \<times> store" where
  "createEntities_spec ld fileId bs d =
     (case table_map f_fileId (files d) fileId of
        None \<Rightarrow> (Inl (FileNotFoundError fileId), d)
      | Some f \<Rightarrow>
          let ids = map eb_entityId bs;
              upsert = filter (upserted fileId d) (on_file fileId bs)
          in if \<not> distinct ids
             then (Inl (DuplicateEntityError (filter_indexed ld ids
                     (\<lambda>x i xs. includes_from ld xs x (i + 1)))), d)
             else if reruns_of (f_syncId f) d = []
             then if existing_in_file fileId bs d \<noteq> []
               then (Inl (EntityAlreadyExistsError (map e_entityId (existing_in_file fileId bs d))), d)
               else (case createEntities_rows (on_file fileId bs) d of
                   (Inl e, t) \<Rightarrow> (Inl e, t)
                 | (Inr _, t) \<Rightarrow> (Inr \<lparr>created = ids, previouslyCompleted = []\<rparr>, t))
             else (case updateEntities_rows upsert d of
                 (Inl e, t) \<Rightarrow> (Inl e, t)
               | (Inr _, t) \<Rightarrow> (Inr \<lparr>created = map eb_entityId upsert,
                   previouslyCompleted = map eb_entityId (filter (\<lambda>b. \<not> upserted fileId d b) bs)\<rparr>, t)))"

lemma difference_filter_ids:
  assumes "lodash_ok ld" and "distinct (map eb_entityId bs)"
  shows "difference ld (map eb_entityId bs) (map eb_entityId (filter P (on_file fileId bs))) =
    map eb_entityId (filter (\<lambda>b. \<not> P (b\<lparr>eb_fileId := Some fileId\<rparr>)) bs)"
proof -
  have "map eb_entityId (filter P (on_file fileId bs)) =
      map eb_entityId (filter (\<lambda>b. P (b\<lparr>eb_fileId := Some fileId\<rparr>)) bs)"
    by (simp add: on_file_def filter_map comp_def)
  moreover have "filter (\<lambda>x. x \<notin> eb_entityId ` {b \<in> set bs. Q b}) (map eb_entityId bs) =
      map eb_entityId (filter (\<lambda>b. \<not> Q b) bs)" for Q
    unfolding filter_map comp_def
    by (intro arg_cong [of _ _ "map eb_entityId"] filter_cong)
      (use distinct_key_eq [OF assms(2)] in auto)
  ultimately show ?thesis by (simp add: difference_eq [OF assms(1)])
qed

lemma upserted_fileId [simp]: "upserted k d (b\<lparr>eb_fileId := x\<rparr>) = upserted k d b"
  by (simp add: upserted_def)

lemma createEntities_run:
  assumes ld: "lodash_ok ld" and wf: "db_wf d"
  shows "run (createEntities ld fileId bs) d = createEntities_spec ld fileId bs d"
proof (cases "table_map f_fileId (files d) fileId")
  case None
  then show ?thesis by (simp add: createEntities_def createEntities_spec_def queries)
next
  case (Some f)
  note prog = createEntities_def on_file_def [symmetric]
  note spec = createEntities_spec_def Some
  show ?thesis
  proof (cases "distinct (map eb_entityId bs)")
    case False
    then have dup: "filter_indexed ld (map eb_entityId bs) (\<lambda>x i xs. includes_from ld xs x (Suc i)) \<noteq> []"
      using duplicates_empty_iff [OF ld, of "map eb_entityId bs"] by simp
    with False show ?thesis
      by (simp add: prog spec file_repo.find_one_row Let_def)
  next
    case True
    have dup: "filter_indexed ld (map eb_entityId bs) (\<lambda>x i xs. includes_from ld xs x (Suc i)) = []"
      using True duplicates_empty_iff [OF ld, of "map eb_entityId bs"] by simp
    show ?thesis
    proof (cases "existing_in_file fileId bs d = []")
      case no_ex: True
      show ?thesis
        by (simp add: prog spec file_repo.find_one_row Let_def dup True existing_query reruns_query
            no_ex no_existing_upserts_all split: prod.splits sum.splits)
    next
      case ex: False
      show ?thesis
        by (simp add: prog spec file_repo.find_one_row Let_def dup True existing_query reruns_query
            ex entitiesForUpsert_eq [OF ld wf] difference_filter_ids [OF ld True]
            split: prod.splits sum.splits)
    qed
  qed
qed

lemma createEntity_run:
  assumes "eb_fileId b = None \<or> eb_fileId b = Some fileId"
  shows "run (createEntity fileId b) d =
    (if fileId \<notin> f_fileId ` set (files d) then (Inl (FileNotFoundError fileId), d)
     else if (eb_entityId b, fileId) \<in> e_key ` set (entities d)
     then (Inl (EntityAlreadyExistsError [eb_entityId b]), d)
     else createEntity_row (b\<lparr>eb_fileId := Some fileId\<rparr>) d)"
proof -
  have body: "b\<lparr>eb_fileId := (case eb_fileId b of None \<Rightarrow> Some fileId | Some own \<Rightarrow> Some own)\<rparr> =
      b\<lparr>eb_fileId := Some fileId\<rparr>"
    using assms by auto
  show ?thesis
    using entity_repo.find_one_row [of "(eb_entityId b, fileId)" d]
    by (cases "table_map f_fileId (files d) fileId";
        cases "table_map e_key (entities d) (eb_entityId b, fileId)")
      (simp_all add: createEntity_def Let_def body file_repo.find_one_row in_keys_iff
        split: prod.splits sum.splits)
qed

lemma updateEntity_run:
  "run (updateEntity env fileId entityId u) d =
    (if fileId \<notin> f_fileId ` set (files d) then (Inl (FileNotFoundError fileId), d)
     else if (entityId, fileId) \<notin> e_key ` set (entities d)
     then (Inl (EntityNotFoundError (Some entityId)), d)
     else updateEntity_row env entityId fileId u d)"
  using entity_repo.find_one_row [of "(entityId, fileId)" d]
  by (cases "table_map f_fileId (files d) fileId";
      cases "table_map e_key (entities d) (entityId, fileId)")
    (simp_all add: updateEntity_def file_repo.find_one_row in_keys_iff
      split: prod.splits sum.splits)

text \<open>
  The number of rows with one of the keys of the payload is the number of bodies exactly when
  every body has its row.
\<close>

lemma count_keys_iff:
  assumes wf: "db_wf d" and ids: "distinct (map eb_entityId bs)"
  defines "key \<equiv> \<lambda>b. (eb_entityId b, the (eb_fileId b))"
  shows "length (filter (\<lambda>e. (e_entityId e, e_fileId e) \<in> set (map key bs)) (entities d)) = length bs \<longleftrightarrow>
    (\<forall>b \<in> set bs. key b \<in> e_key ` set (entities d))"
proof -
  let ?rows = "filter (\<lambda>e. e_key e \<in> key ` set bs) (entities d)"
  have "distinct (map e_key ?rows)"
    using db_wfD(3) [OF wf] by (rule distinct_map_filter)
  then have "length ?rows = card (e_key ` set ?rows)"
    by (metis distinct_card length_map set_map)
  also have "e_key ` set ?rows = key ` set bs \<inter> e_key ` set (entities d)" by auto
  finally have rows: "length ?rows = card (key ` set bs \<inter> e_key ` set (entities d))" .
  have "distinct (map key bs)"
    using ids by (auto simp: key_def distinct_map inj_on_def)
  then have "length bs = card (key ` set bs)"
    by (metis distinct_card length_map set_map)
  with rows have "length ?rows = length bs \<longleftrightarrow> key ` set bs \<inter> e_key ` set (entities d) = key ` set bs"
    by (metis card_subset_eq finite_imageI finite_set inf_le1)
  also have "\<dots> \<longleftrightarrow> (\<forall>b \<in> set bs. key b \<in> e_key ` set (entities d))" by blast
  finally show ?thesis by (simp add: e_key_def)
qed

lemma updateEntities_run:
  assumes ld: "lodash_ok ld" and wf: "db_wf d" and "bs \<noteq> []"
    and fileIds: "list_all (\<lambda>b. eb_fileId b \<noteq> None) bs"
    and refs: "list_all (\<lambda>b. ref_ok c_changesetId (changesets d) (to_nullable (eb_changesetId b))) bs"
  shows "run (updateEntities env ld bs) d =
    (if \<not> distinct (map eb_entityId bs)
     then (Inl (DuplicateEntityError (map eb_entityId (uniqBy ld eb_entityId bs))), d)
     else if \<not> list_all (\<lambda>b. list_ex (matches_entity b) (entities d)) bs
     then (Inl (EntityNotFoundError None), d)
     else (Inr (), d\<lparr>entities := map (saved bs) (entities d)\<rparr>))"
proof (cases "distinct (map eb_entityId bs)")
  case False
  then show ?thesis by (simp add: updateEntities_def uniqBy_length_iff [OF ld])
next
  case True
  let ?keys = "map (\<lambda>e. (eb_entityId e, the (eb_fileId e))) bs"
  have "(eb_entityId b, the (eb_fileId b)) \<in> e_key ` set (entities d) \<longleftrightarrow>
      list_ex (matches_entity b) (entities d)" if "b \<in> set bs" for b
  proof -
    obtain k where "eb_fileId b = Some k" using fileIds \<open>b \<in> set bs\<close> by (auto simp: list_all_iff)
    then show ?thesis by (auto simp: list_ex_iff matches_entity_def e_key_def image_iff) metis+
  qed
  then have "length (filter (\<lambda>e. (e_entityId e, e_fileId e) \<in> set ?keys) (entities d)) = length bs \<longleftrightarrow>
      list_all (\<lambda>b. list_ex (matches_entity b) (entities d)) bs" (is "?n = _ \<longleftrightarrow> _")
    using count_keys_iff [OF wf True] by (simp add: list_all_iff)
  moreover have "countEntitiesByIds env ?keys d = (Inr ?n, d)"
    using \<open>bs \<noteq> []\<close> by (simp add: countEntitiesByIds_def reading_def)
  moreover have "updateEntities_rows bs d = (Inr (), d\<lparr>entities := map (saved bs) (entities d)\<rparr>)"
    if all: "list_all (\<lambda>b. list_ex (matches_entity b) (entities d)) bs"
  proof -
    have "distinct (map save_key bs)"
      using True by (auto simp: save_key_def distinct_map inj_on_def)
    moreover have "list_all (body_refs_ok d) bs"
      using all fileIds refs db_wf_refD(2) [OF wf]
      by (fastforce simp: list_all_iff list_ex_iff body_refs_ok_def matches_entity_def)
    moreover have "new_bodies bs d = []"
      using all by (simp add: new_bodies_def filter_empty_conv list_all_iff)
    ultimately show ?thesis by (simp add: updateEntities_rows_ok)
  qed
  ultimately show ?thesis
    using True by (simp add: updateEntities_def uniqBy_length_iff [OF ld])
qed

section \<open>The upsert of a bulk creation on a rerun\<close>

definition upserts :: "string \<Rightarrow> store \<Rightarrow> entity_body list \<Rightarrow> entity_body list" where
  "upserts fileId d bs = filter (upserted fileId d) (on_file fileId bs)"

definition upserted_rows :: "string \<Rightarrow> store \<Rightarrow> entity_body list \<Rightarrow> entity_row list" where
  "upserted_rows fileId d bs = map (saved (upserts fileId d bs)) (entities d) @
     map (the \<circ> entity_row_of) (new_bodies (upserts fileId d bs) d)"

lemma upserts_body:
  "b' \<in> set (upserts fileId d bs) \<Longrightarrow>
    \<exists>b \<in> set bs. b' = b\<lparr>eb_fileId := Some fileId\<rparr> \<and> upserted fileId d b"
  by (auto simp: upserts_def on_file_def)

lemma upserts_keys:
  assumes "distinct (map eb_entityId bs)"
  shows "distinct (map save_key (upserts fileId d bs))"
proof -
  have "distinct (map eb_entityId (upserts fileId d bs))"
    unfolding upserts_def using assms by (intro distinct_map_filter) simp
  then show ?thesis by (auto simp: save_key_def distinct_map inj_on_def)
qed

lemma upserts_refs:
  assumes "list_all (\<lambda>b. ref_ok c_changesetId (changesets d) (to_nullable (eb_changesetId b))) bs"
    and "fileId \<in> f_fileId ` set (files d)"
  shows "list_all (body_refs_ok d) (upserts fileId d bs)"
  using assms upserts_body [of _ fileId d bs]
  by (fastforce simp: list_all_iff body_refs_ok_def)

lemma upserted_rows_kept:
  assumes "e \<in> set (entities d)"
    and "e_fileId e \<noteq> fileId \<or> e_entityId e \<notin> set (map eb_entityId (upserts fileId d bs))"
  shows "e \<in> set (upserted_rows fileId d bs)"
proof -
  have "saved (upserts fileId d bs) e = e"
  proof (rule saved_unmatched)
    fix b
    assume b: "b \<in> set (upserts fileId d bs)"
    then have "eb_fileId b = Some fileId" by (auto dest: upserts_body)
    with b assms(2) show "\<not> matches_entity b e" by (auto simp: matches_entity_def)
  qed
  with assms(1) show ?thesis
    unfolding upserted_rows_def by (metis UnCI image_eqI set_append set_map)
qed

lemma upserted_rows_stored:
  assumes ids: "distinct (map eb_entityId bs)" and b: "b \<in> set bs" "upserted fileId d b"
  shows "\<exists>e \<in> set (upserted_rows fileId d bs). e_key e = (eb_entityId b, fileId) \<and>
    e_status e = (case eb_status b of Some st \<Rightarrow> st
      | None \<Rightarrow> if (eb_entityId b, fileId) \<in> e_key ` set (entities d) then E_IN_RERUN else E_IN_PROGRESS)"
proof -
  let ?b = "b\<lparr>eb_fileId := Some fileId\<rparr>" and ?up = "upserts fileId d bs"
  have up: "?b \<in> set ?up" using b by (auto simp: upserts_def on_file_def)
  show ?thesis
  proof (cases "list_ex (matches_entity ?b) (entities d)")
    case True
    then obtain e where e: "e \<in> set (entities d)" "matches_entity ?b e" by (auto simp: list_ex_iff)
    from e(2) have key: "e_key e = (eb_entityId b, fileId)" by (auto simp: matches_entity_def e_key_def)
    have "find (\<lambda>b. matches_entity b e) ?up = Some ?b"
      using up e(2) upserts_keys [OF ids] by (rule find_saved)
    then have "saved ?up e = update_entity_row (entity_update_of ?b) e" by (simp add: saved_def)
    moreover have "e_status e = E_IN_RERUN"
      using b(2) e(1) key by (auto simp: upserted_def list_all_iff)
    moreover have "(eb_entityId b, fileId) \<in> e_key ` set (entities d)" using e(1) key by force
    moreover have "saved ?up e \<in> set (upserted_rows fileId d bs)"
      using e(1) by (simp add: upserted_rows_def)
    ultimately show ?thesis
      using key by (intro bexI [of _ "saved ?up e"])
        (auto simp: update_entity_row_def entity_update_of_def e_key_def split: option.splits)
  next
    case False
    then have new: "?b \<in> set (new_bodies ?up d)" using up by (simp add: new_bodies_def)
    have "(eb_entityId b, fileId) \<notin> e_key ` set (entities d)"
      using False by (auto simp: list_ex_iff matches_entity_def e_key_def)
    moreover have "the (entity_row_of ?b) \<in> set (upserted_rows fileId d bs)"
      using new by (auto simp: upserted_rows_def intro: imageI)
    moreover have "e_key (the (entity_row_of ?b)) = (eb_entityId b, fileId)"
      "e_status (the (entity_row_of ?b)) = patch_col E_IN_PROGRESS (eb_status b)"
      by (simp_all add: entity_row_of_def e_key_def)
    ultimately show ?thesis
      by (intro bexI [of _ "the (entity_row_of ?b)"]) (simp_all split: option.splits)
  qed
qed

section \<open>Properties\<close>

text \<open>
  C12: a bulk creation of entities on a file whose sync has a rerun.  Every entity of the request
  is answered in exactly one of two lists: the created ones, those the file does not have or has
  in a rerun, and the previously completed ones.  A created entity is stored with the status of
  the request, or without one keeps its status, or starts in progress; every other entity of the
  database stays as it is, and no other table changes.
\<close>

theorem createEntities_on_rerun:
  assumes ld: "lodash_ok ld" and wf: "db_wf d"
    and f: "f \<in> set (files d)" "f_fileId f = fileId"
    and rerun: "\<exists>s \<in> set (syncs d). s_baseSyncId s = Some (f_syncId f)"
    and ids: "distinct (map eb_entityId bs)"
    and refs: "list_all (\<lambda>b. ref_ok c_changesetId (changesets d) (to_nullable (eb_changesetId b))) bs"
  defines "blocked b \<equiv> \<exists>e \<in> set (entities d). e_key e = (eb_entityId b, fileId) \<and> e_status e \<noteq> E_IN_RERUN"
  shows "\<exists>result es. run (createEntities ld fileId bs) d = (Inr result, d\<lparr>entities := es\<rparr>) \<and>
    created result = map eb_entityId (filter (\<lambda>b. \<not> blocked b) bs) \<and>
    previouslyCompleted result = map eb_entityId (filter blocked bs) \<and>
    (\<forall>e \<in> set (entities d). e_fileId e \<noteq> fileId \<or> e_entityId e \<notin> set (created result) \<longrightarrow> e \<in> set es) \<and>
    (\<forall>b \<in> set bs. \<not> blocked b \<longrightarrow> (\<exists>e \<in> set es. e_key e = (eb_entityId b, fileId) \<and>
       e_status e = (case eb_status b of Some st \<Rightarrow> st
         | None \<Rightarrow> if (eb_entityId b, fileId) \<in> e_key ` set (entities d) then E_IN_RERUN else E_IN_PROGRESS)))"
proof -
  have blocked: "blocked b \<longleftrightarrow> \<not> upserted fileId d b" for b
    by (auto simp: blocked_def upserted_def list_all_iff)
  then have prev: "filter blocked bs = filter (\<lambda>b. \<not> upserted fileId d b) bs"
    by (intro filter_cong) auto
  have row: "table_map f_fileId (files d) fileId = Some f"
    using f by (simp add: table_map_Some db_wfD(2) [OF wf])
  have reruns: "reruns_of (f_syncId f) d \<noteq> []"
    using rerun by (auto simp: reruns_of_def filter_empty_conv)
  have fileId: "fileId \<in> f_fileId ` set (files d)" using f by auto
  note upsert = updateEntities_rows_ok [OF upserts_keys [OF ids] upserts_refs [OF refs]]
  have run: "run (createEntities ld fileId bs) d =
      (Inr \<lparr>created = map eb_entityId (upserts fileId d bs), previouslyCompleted = map eb_entityId (filter blocked bs)\<rparr>,
       d\<lparr>entities := upserted_rows fileId d bs\<rparr>)"
    using upsert [of fileId] fileId
    by (simp add: createEntities_run [OF ld wf] createEntities_spec_def row ids reruns Let_def
        upserts_def [symmetric] upserted_rows_def [symmetric] prev)
  have "map eb_entityId (upserts fileId d bs) = map eb_entityId (filter (\<lambda>b. \<not> blocked b) bs)"
    by (simp add: upserts_def on_file_def filter_map comp_def blocked)
  then show ?thesis
    using run upserted_rows_kept [of _ d fileId bs] upserted_rows_stored [OF ids]
    by (intro exI [of _ "\<lparr>created = map eb_entityId (upserts fileId d bs),
        previouslyCompleted = map eb_entityId (filter blocked bs)\<rparr>"]
        exI [of _ "upserted_rows fileId d bs"]) (simp add: blocked)
qed

definition example_entity :: "string \<Rightarrow> entity_body" where
  "example_entity k = \<lparr>eb_entityId = k, eb_fileId = None, eb_changesetId = Undefined, eb_status = None,
     eb_action = Given CREATE, eb_failReason = Undefined\<rparr>"

theorem createEntities_on_rerun_witness:
  fixes d :: store
  defines "d \<equiv> a_store [a_sync ''s1'' FAILED (Some 1) None 0, a_sync ''r1'' IN_PROGRESS (Some 1) (Some ''s1'') 1]
    [a_file ''f1'' ''s1'' IN_PROGRESS (Some 3)]
    [an_entity ''e1'' ''f1'' None E_COMPLETED, an_entity ''e2'' ''f1'' None E_IN_RERUN]"
  shows "\<exists>result d'. run (createEntities lodash_impl ''f1''
      [example_entity ''e1'', example_entity ''e2'', example_entity ''e3'']) d = (Inr result, d') \<and>
    created result = [''e2'', ''e3''] \<and> previouslyCompleted result = [''e1''] \<and>
    an_entity ''e1'' ''f1'' None E_COMPLETED \<in> set (entities d')"
proof -
  let ?bs = "[example_entity ''e1'', example_entity ''e2'', example_entity ''e3'']"
  let ?f = "a_file ''f1'' ''s1'' IN_PROGRESS (Some 3)"
  have wf: "db_wf d" by (simp add: d_def db_wf_eval example_rows)
  have f: "?f \<in> set (files d)" "f_fileId ?f = ''f1''"
    and rerun: "\<exists>s \<in> set (syncs d). s_baseSyncId s = Some (f_syncId ?f)"
    by (simp_all add: d_def example_rows)
  have ids: "distinct (map eb_entityId ?bs)"
    and refs: "list_all (\<lambda>b. ref_ok c_changesetId (changesets d) (to_nullable (eb_changesetId b))) ?bs"
    by (simp_all add: example_entity_def)
  have blocked: "(\<exists>e \<in> set (entities d). e_key e = (eb_entityId b, ''f1'') \<and> e_status e \<noteq> E_IN_RERUN) \<longleftrightarrow>
      eb_entityId b = ''e1''" for b
    by (auto simp: d_def example_rows e_key_def)
  have e1: "an_entity ''e1'' ''f1'' None E_COMPLETED \<in> set (entities d)"
    by (simp add: d_def a_store_def)
  show ?thesis
    using createEntities_on_rerun [OF lodash_impl_ok wf f rerun ids refs] e1
    unfolding blocked by (auto simp: example_entity_def an_entity_def)
qed

text \<open>
  A bulk creation of entities on a file whose sync has no rerun stores all of them, on the
  file, or refuses the request and stores none: for a repeated identifier, or for the identifiers
  the file already has.
\<close>

lemma createEntities_all_or_none:
  assumes ld: "lodash_ok ld" and wf: "db_wf d"
    and f: "f \<in> set (files d)" "f_fileId f = fileId"
    and original: "\<not> (\<exists>s \<in> set (syncs d). s_baseSyncId s = Some (f_syncId f))"
    and refs: "list_all (\<lambda>b. ref_ok c_changesetId (changesets d) (to_nullable (eb_changesetId b))) bs"
  defines "new \<equiv> map (\<lambda>b. the (entity_row_of (b\<lparr>eb_fileId := Some fileId\<rparr>))) bs"
  shows "\<exists>r d'. run (createEntities ld fileId bs) d = (r, d') \<and>
    (if distinct (map eb_entityId bs) \<and> e_key ` set new \<inter> e_key ` set (entities d) = {}
     then r = Inr \<lparr>created = map eb_entityId bs, previouslyCompleted = []\<rparr> \<and>
       d' = d\<lparr>entities := entities d @ new\<rparr>
     else d' = d \<and>
       (if distinct (map eb_entityId bs)
        then \<exists>ids. r = Inl (EntityAlreadyExistsError ids) \<and>
          (\<lambda>k. (k, fileId)) ` set ids = e_key ` set new \<inter> e_key ` set (entities d)
        else \<exists>ids. r = Inl (DuplicateEntityError ids) \<and> ids \<noteq> []))"
proof -
  have row: "table_map f_fileId (files d) fileId = Some f"
    using f by (simp add: table_map_Some db_wfD(2) [OF wf])
  have reruns: "reruns_of (f_syncId f) d = []"
    using original by (auto simp: reruns_of_def filter_empty_conv)
  have keys: "e_key ` set new = (\<lambda>b. (eb_entityId b, fileId)) ` set bs"
    by (auto simp: new_def entity_row_of_key image_image)
  have existing: "(\<lambda>k. (k, fileId)) ` set (map e_entityId (existing_in_file fileId bs d)) =
      e_key ` set new \<inter> e_key ` set (entities d)"
    unfolding keys by (auto simp: existing_in_file_def e_key_def image_iff) metis
  then have none: "existing_in_file fileId bs d = [] \<longleftrightarrow> e_key ` set new \<inter> e_key ` set (entities d) = {}"
    by (metis image_is_empty map_is_Nil_conv set_empty)
  note spec = createEntities_run [OF ld wf] createEntities_spec_def row reruns Let_def
  show ?thesis
  proof (cases "distinct (map eb_entityId bs)")
    case False
    have "filter_indexed ld (map eb_entityId bs) (\<lambda>x i xs. includes_from ld xs x (i + 1)) \<noteq> []"
      using False duplicates_empty_iff [OF ld, of "map eb_entityId bs"] by blast
    with False show ?thesis by (simp add: spec)
  next
    case ids: True
    show ?thesis
    proof (cases "existing_in_file fileId bs d = []")
      case False
      with ids existing none show ?thesis by (simp add: spec)
    next
      case True
      have "those (map entity_row_of (on_file fileId bs)) = Some new"
        using those_entity_rows [of "on_file fileId bs"]
        by (simp add: on_file_def new_def list_all_iff comp_def)
      moreover have "sql_insert e_key (\<lambda>_. True) (\<lambda>_. entity_fk d) new (entities d) = Inr (entities d @ new)"
        unfolding sql_insert_Inr_iff
      proof (intro conjI)
        have "map e_key new = map (\<lambda>b. (eb_entityId b, fileId)) bs"
          by (simp add: new_def entity_row_of_key)
        then show "distinct (map e_key new)" using ids by (simp add: distinct_map inj_on_def)
        show "e_key ` set new \<inter> e_key ` set (entities d) = {}" using True none by blast
        show "\<forall>r \<in> set new. entity_fk d r"
          using refs f by (auto simp: new_def list_all_iff entity_fk_def entity_row_of_def)
      qed simp_all
      ultimately have "createEntities_rows (on_file fileId bs) d = (Inr (), d\<lparr>entities := entities d @ new\<rparr>)"
        by (simp add: createEntities_rows_def writing_def put_entities_def)
      with True ids none show ?thesis by (simp add: spec)
    qed
  qed
qed

lemma createEntities_all_or_none_example:
  "run (createEntities lodash_impl ''f1'' [example_entity ''e8'', example_entity ''e9'']) closable_db =
    (Inr \<lparr>created = [''e8'', ''e9''], previouslyCompleted = []\<rparr>, closable_db\<lparr>entities := entities closable_db @
      [an_entity ''e8'' ''f1'' None E_IN_PROGRESS, an_entity ''e9'' ''f1'' None E_IN_PROGRESS]\<rparr>)"
proof -
  let ?bs = "[example_entity ''e8'', example_entity ''e9'']" and ?f = "a_file ''f1'' ''s1'' IN_PROGRESS (Some 2)"
  have f: "?f \<in> set (files closable_db)" "f_fileId ?f = ''f1''"
    and original: "\<not> (\<exists>s \<in> set (syncs closable_db). s_baseSyncId s = Some (f_syncId ?f))"
    and refs: "list_all (\<lambda>b. ref_ok c_changesetId (changesets closable_db) (to_nullable (eb_changesetId b))) ?bs"
    by (simp_all add: example_dbs example_entity_def)
  show ?thesis
    using createEntities_all_or_none [OF lodash_impl_ok closable_db_wf f original refs]
    by (simp add: example_dbs example_entity_def entity_row_of_def e_key_def)
qed

text \<open>
  C28: a bulk update patches every entity of the request by its entity and file identifiers, and
  nothing else, when no entity identifier is repeated and all the entities exist; otherwise it is
  refused as a whole.
\<close>

theorem updateEntities_all_or_none:
  assumes ld: "lodash_ok ld" and wf: "db_wf d" and some: "bs \<noteq> []"
    and fileIds: "list_all (\<lambda>b. eb_fileId b \<noteq> None) bs"
    and refs: "list_all (\<lambda>b. ref_ok c_changesetId (changesets d) (to_nullable (eb_changesetId b))) bs"
  defines "names b e \<equiv> e_entityId e = eb_entityId b \<and> Some (e_fileId e) = eb_fileId b"
  shows "if distinct (map eb_entityId bs) \<and> (\<forall>b \<in> set bs. \<exists>e \<in> set (entities d). names b e)
    then run (updateEntities env ld bs) d = (Inr (), d\<lparr>entities := map (\<lambda>e.
      case find (\<lambda>b. names b e) bs of
        None \<Rightarrow> e
      | Some b \<Rightarrow> e\<lparr>e_changesetId := patch_nullable (e_changesetId e) (eb_changesetId b),
          e_status := (case eb_status b of None \<Rightarrow> e_status e | Some st \<Rightarrow> st),
          e_action := patch_nullable (e_action e) (eb_action b),
          e_failReason := patch_nullable (e_failReason e) (eb_failReason b)\<rparr>) (entities d)\<rparr>)
    else \<exists>err. run (updateEntities env ld bs) d = (Inl err, d) \<and>
      (if distinct (map eb_entityId bs) then err = EntityNotFoundError None
       else \<exists>ids. err = DuplicateEntityError ids)"
proof -
  have patch: "patch_col x y = (case y of None \<Rightarrow> x | Some z \<Rightarrow> z)" for x and y :: "'a option"
    by (cases y) simp_all
  have all: "list_all (\<lambda>b. list_ex (matches_entity b) (entities d)) bs \<longleftrightarrow>
      (\<forall>b \<in> set bs. \<exists>e \<in> set (entities d). names b e)"
    by (simp add: list_all_iff list_ex_iff matches_entity_def names_def)
  have "saved bs = (\<lambda>e. case find (\<lambda>b. names b e) bs of
        None \<Rightarrow> e
      | Some b \<Rightarrow> e\<lparr>e_changesetId := patch_nullable (e_changesetId e) (eb_changesetId b),
          e_status := (case eb_status b of None \<Rightarrow> e_status e | Some st \<Rightarrow> st),
          e_action := patch_nullable (e_action e) (eb_action b),
          e_failReason := patch_nullable (e_failReason e) (eb_failReason b)\<rparr>)"
    by (simp add: fun_eq_iff saved_def names_def matches_entity_def update_entity_row_def
        entity_update_of_def patch split: option.splits)
  with updateEntities_run [OF ld wf some fileIds refs, of env] all show ?thesis
    by (auto split: if_splits)
qed

theorem updateEntities_all_or_none_witness:
  "run (updateEntities example_env lodash_impl
      [(example_entity ''e2'')\<lparr>eb_fileId := Some ''f1'', eb_status := Some E_FAILED\<rparr>]) closable_db =
    (Inr (), closable_db\<lparr>entities := [an_entity ''e1'' ''f1'' (Some ''c1'') E_COMPLETED,
      an_entity ''e2'' ''f1'' None E_FAILED]\<rparr>)"
proof -
  let ?b = "(example_entity ''e2'')\<lparr>eb_fileId := Some ''f1'', eb_status := Some E_FAILED\<rparr>"
  have some: "[?b] \<noteq> []" and fileIds: "list_all (\<lambda>b. eb_fileId b \<noteq> None) [?b]"
    and refs: "list_all (\<lambda>b. ref_ok c_changesetId (changesets closable_db) (to_nullable (eb_changesetId b))) [?b]"
    by (simp_all add: example_entity_def)
  show ?thesis
    using updateEntities_all_or_none [OF lodash_impl_ok closable_db_wf some fileIds refs, of example_env]
    by (simp add: example_dbs example_entity_def)
qed

text \<open>
  The file of a single creation.  The checks are made on the file of the path, but the entity
  is stored on the file its body names, when it names one.
\<close>

lemma createEntity_file_of_body:
  assumes path: "path \<in> f_fileId ` set (files d)" "(eb_entityId b, path) \<notin> e_key ` set (entities d)"
    and own: "own \<in> f_fileId ` set (files d)" "(eb_entityId b, own) \<notin> e_key ` set (entities d)"
    and refs: "ref_ok c_changesetId (changesets d) (to_nullable (eb_changesetId b))"
    and owner: "own = (case eb_fileId b of None \<Rightarrow> path | Some k \<Rightarrow> k)"
  shows "\<exists>e. run (createEntity path b) d = (Inr (), d\<lparr>entities := entities d @ [e]\<rparr>) \<and>
    e_key e = (eb_entityId b, own) \<and>
    e_status e = (case eb_status b of None \<Rightarrow> E_IN_PROGRESS | Some st \<Rightarrow> st)"
proof -
  let ?b = "b\<lparr>eb_fileId := Some own\<rparr>"
  have body: "b\<lparr>eb_fileId := (case eb_fileId b of None \<Rightarrow> Some path | Some own \<Rightarrow> Some own)\<rparr> = ?b"
    using owner by (simp split: option.splits)
  obtain e where row: "entity_row_of ?b = Some e" by (simp add: entity_row_of_def)
  then have key: "e_key e = (eb_entityId b, own)"
    and status: "e_status e = (case eb_status b of None \<Rightarrow> E_IN_PROGRESS | Some st \<Rightarrow> st)"
    and fk: "entity_fk d e"
    using own(1) refs by (auto simp: entity_row_of_def e_key_def entity_fk_def split: option.splits)
  have "sql_insert e_key (\<lambda>_. True) (\<lambda>_. entity_fk d) [e] (entities d) = Inr (entities d @ [e])"
    using own(2) key fk unfolding sql_insert_Inr_iff by simp
  then have create: "createEntity_row ?b d = (Inr (), d\<lparr>entities := entities d @ [e]\<rparr>)"
    using row by (simp add: createEntity_row_def createEntities_rows_def writing_def put_entities_def)
  have "run (createEntity path b) d = (Inr (), d\<lparr>entities := entities d @ [e]\<rparr>)"
    using path create entity_repo.find_one_row [of "(eb_entityId b, path)" d]
    by (cases "table_map f_fileId (files d) path")
      (simp_all add: createEntity_def Let_def body file_repo.find_one_row in_keys_iff)
  then show ?thesis using key status by blast
qed

end
