(* ===== verification/Rerun_Creation.thy ===== *)
theory Rerun_Creation
  imports File_Repository Sync_Repository Transactions
begin

text \<open>
  The creation of a rerun: the raw SQL of \<^verbatim>\<open>src/src/sync/DAL/syncRepository.ts\<close> and its method
  \<open>createRerun\<close>.  The statements take the table contents literally: joins, EXCEPT, UNION and
  GROUP BY are the list functions that compute them.
\<close>

section \<open>The statements\<close>

definition deleteEmptyFiles :: "string \<Rightarrow> (js_error, store, string list \<times> nat) stmt" where
  "deleteEmptyFiles baseSyncId d =
     (let empty = sql_except
            [f_fileId f. f \<leftarrow> files d, f_syncId f = baseSyncId]
            (remdups [f_fileId f. e \<leftarrow> entities d, f \<leftarrow> files d, e_fileId e = f_fileId f,
               f_syncId f = baseSyncId]);
          gone = filter (\<lambda>f. f_fileId f \<in> set empty) (files d)
      in (Inr (map f_fileId gone, length gone), delete_files (\<lambda>f. f_fileId f \<in> set empty) d))"

text \<open>
  The subquery of \<open>tryClosingSync\<close> names the schema \<open>osm_sync_tracker\<close> whatever the configured
  \<open>schema\<close> is; \<open>tracker_files\<close> is that table when another schema is configured, if it exists.
\<close>

record rerun_env =
  re_env :: env
  schema :: string
  tracker_files :: "file_row list option"

definition osm_sync_tracker_files :: "rerun_env \<Rightarrow> store \<Rightarrow> file_row list option" where
  "osm_sync_tracker_files re d =
     (if schema re = ''osm_sync_tracker'' then Some (files d) else tracker_files re)"

definition tryClosingSync ::
  "rerun_env \<Rightarrow> string \<Rightarrow> (js_error, store, string list \<times> nat) stmt" where
  "tryClosingSync re baseSyncId d =
     (case osm_sync_tracker_files re d of
        None \<Rightarrow> (Inl undefined_table, d)
      | Some fs \<Rightarrow>
          let P = (\<lambda>s. s_id s = baseSyncId \<and>
                 s_totalFiles s = Some (int (length (filter (\<lambda>f. f_syncId f = s_id s \<and>
                   status_value (f_status f) = ''completed'') fs))));
              closed = filter P (syncs d)
          in (Inr (map s_id closed, length closed),
              d\<lparr>syncs := update_where P (close_sync (now (re_env re))) (syncs d)\<rparr>))"

text \<open>
  The row of an entity has exactly the six columns of the two queries.  A row the LEFT JOIN pads
  with NULLs does not pass the WHERE clause.
\<close>

definition entities_for_history :: "string \<Rightarrow> store \<Rightarrow> entity_row list" where
  "entities_for_history baseSyncId d =
     sql_except
       [e. e \<leftarrow> entities d, f \<leftarrow> files d, e_fileId e = f_fileId f, f_syncId f = baseSyncId,
          entity_status_value (e_status e) \<noteq> ''inrerun'']
       [e. e \<leftarrow> entities d, h \<leftarrow> history d, e_entityId e = h_entityId h,
          h_syncId h \<in> set ([s_id s. s \<leftarrow> syncs d, s_baseSyncId s = Some baseSyncId] @ [baseSyncId]),
          entity_status_value (h_status h) = ''completed'']"

definition history_row_of :: "string \<Rightarrow> string option \<Rightarrow> entity_row \<Rightarrow> history_row" where
  "history_row_of syncId histBaseSyncId e =
     \<lparr>h_syncId = syncId, h_baseSyncId = histBaseSyncId, h_entityId = e_entityId e,
      h_fileId = e_fileId e, h_changesetId = e_changesetId e, h_status = e_status e,
      h_action = e_action e, h_failReason = e_failReason e\<rparr>"

definition put_history :: "history_row list \<Rightarrow> store \<Rightarrow> store" where
  "put_history hs d = d\<lparr>history := hs\<rparr>"

definition createEntityHistory ::
  "string \<Rightarrow> string \<Rightarrow> string option \<Rightarrow> (js_error, store, unit) stmt" where
  "createEntityHistory baseSyncId syncId entityHistoryBaseSyncId d =
     writing put_history
       (sql_insert h_key (\<lambda>_. True) (\<lambda>_. history_fk d)
         (map (history_row_of syncId entityHistoryBaseSyncId) (entities_for_history baseSyncId d))
         (history d)) d"

definition prepareIncompleteFiles :: "string \<Rightarrow> (js_error, store, unit) stmt" where
  "prepareIncompleteFiles baseSyncId d =
     (Inr (), d\<lparr>files := update_where
        (\<lambda>f'. f_fileId f' \<in> set (remdups [f_fileId f. e \<leftarrow> entities d, f \<leftarrow> files d,
           e_fileId e = f_fileId f, f_syncId f = baseSyncId,
           entity_status_value (e_status e) = ''not_synced'']))
        (\<lambda>f. f\<lparr>f_status := IN_PROGRESS\<rparr>) (files d)\<rparr>)"

definition reset_entity :: "entity_row \<Rightarrow> entity_row" where
  "reset_entity e = e\<lparr>e_status := E_IN_RERUN, e_changesetId := None, e_failReason := None,
     e_action := None\<rparr>"

definition prepareIncompleteEntities ::
  "string \<Rightarrow> entity_status list \<Rightarrow> (js_error, store, unit) stmt" where
  "prepareIncompleteEntities baseSyncId entityStatusesForRerun d =
     (Inr (), d\<lparr>entities := update_where
        (\<lambda>r. list_ex (\<lambda>e. list_ex (\<lambda>f. e_fileId e = f_fileId f \<and> f_syncId f = baseSyncId \<and>
              e_fileId e = e_fileId r \<and> e_entityId e = e_entityId r \<and>
              e_status e \<in> set entityStatusesForRerun) (files d)) (entities d))
        reset_entity (entities d)\<rparr>)"

text \<open>\<open>files_to_update\<close> is the grouped subquery: one row per file that has a closed entity.\<close>

definition files_to_update :: "string \<Rightarrow> store \<Rightarrow> (string \<times> nat) list" where
  "files_to_update syncId d =
     (let dangling_files = [f_fileId f. f \<leftarrow> files d, f_syncId f = syncId \<and>
            status_value (f_status f) = ''inprogress''];
          selected = filter (\<lambda>e. e_fileId e \<in> set dangling_files \<and>
            (entity_status_value (e_status e) = ''completed'' \<or>
             entity_status_value (e_status e) = ''not_synced'')) (entities d)
      in map (\<lambda>k. (k, length (filter (\<lambda>e. e_fileId e = k) selected)))
           (remdups (map e_fileId selected)))"

definition updateDanglingFilesAsCompleted ::
  "date \<Rightarrow> string \<Rightarrow> (js_error, store, unit) stmt" where
  "updateDanglingFilesAsCompleted ts syncId d =
     (Inr (), d\<lparr>files := update_where
        (\<lambda>f. list_ex (\<lambda>(k, n). f_fileId f = k \<and> f_totalEntities f = Some (int n) \<and>
           status_value (f_status f) \<noteq> ''completed'') (files_to_update syncId d))
        (close_file ts) (files d)\<rparr>)"

section \<open>The transaction\<close>

text \<open>
  \<open>CreateRerunRequest\<close>, as destructured: the sync to insert and the flag.
\<close>

record rerun_request =
  rr_rerunId :: string
  rr_baseSyncId :: string
  rr_rerunSync :: sync_body
  rr_shouldRerunNotSynced :: bool

text \<open>
  The state of the transaction is what it sees (\<open>tx\<close>) and what is committed outside of it.  Most
  statements go through \<open>transactionalEntityManager\<close>; two go through \<open>this\<close>, the repository
  itself.  Whether a call on the repository joins the enclosing \<open>connection.transaction\<close> is
  decided by a library the sources do not contain: it is the parameter \<open>joins\<close>.
\<close>

type_synonym 'a tx_stmt = "(js_error, store \<times> store, 'a) stmt"

definition in_tx :: "(js_error, store, 'a) stmt \<Rightarrow> 'a tx_stmt" where
  "in_tx m s = (case s of (tx, out) \<Rightarrow> case m tx of (r, tx') \<Rightarrow> (r, (tx', out)))"

definition on_this :: "bool \<Rightarrow> (js_error, store, 'a) stmt \<Rightarrow> 'a tx_stmt" where
  "on_this joins m s =
     (if joins then in_tx m s
      else (case s of (tx, out) \<Rightarrow> case m out of (r, out') \<Rightarrow> (r, (tx, out'))))"

definition entityStatusesForRerun :: "bool \<Rightarrow> entity_status list" where
  "entityStatusesForRerun shouldRerunNotSynced =
     (if shouldRerunNotSynced then [E_IN_PROGRESS, E_NOT_SYNCED, E_FAILED]
      else [E_IN_PROGRESS, E_FAILED])"

definition latest_rerun_or_sync :: "string \<Rightarrow> (sync_row \<times> sync_row list) option \<Rightarrow> string" where
  "latest_rerun_or_sync baseSyncId latestSyncWithReruns =
     (case latestSyncWithReruns of
        Some (_, rerun # _) \<Rightarrow> s_id rerun
      | _ \<Rightarrow> baseSyncId)"

text \<open>The part of the callback after the base sync was not closed.\<close>

definition rerun_steps ::
  "rerun_env \<Rightarrow> bool \<Rightarrow> rerun_request \<Rightarrow> (js_error, store \<times> store, bool) prog" where
  "rerun_steps re joins rr =
     await (on_this joins (findOneSyncWithLastRerun (rr_baseSyncId rr))) (\<lambda>latestSyncWithReruns.
     let latest = latest_rerun_or_sync (rr_baseSyncId rr) latestSyncWithReruns
     in await (in_tx (createEntityHistory (rr_baseSyncId rr) latest
          (if latest = rr_baseSyncId rr then None else Some (rr_baseSyncId rr)))) (\<lambda>_.
        await (if rr_shouldRerunNotSynced rr
               then in_tx (prepareIncompleteFiles (rr_baseSyncId rr))
               else in_tx (updateDanglingFilesAsCompleted (now (re_env re)) (rr_baseSyncId rr))) (\<lambda>_.
        await (in_tx (prepareIncompleteEntities (rr_baseSyncId rr)
               (entityStatusesForRerun (rr_shouldRerunNotSynced rr)))) (\<lambda>_.
        await (on_this joins (createSync_row (rr_rerunSync rr))) (\<lambda>_.
        return True)))))"

definition rerun_transaction ::
  "rerun_env \<Rightarrow> bool \<Rightarrow> rerun_request \<Rightarrow> (js_error, store \<times> store, bool) prog" where
  "rerun_transaction re joins rr =
     await (in_tx (deleteEmptyFiles (rr_baseSyncId rr))) (\<lambda>deletedFilesResult.
     if snd deletedFilesResult \<noteq> 0
     then await (in_tx (tryClosingSync re (rr_baseSyncId rr))) (\<lambda>closedSync.
       if snd closedSync \<noteq> 0 then return False else rerun_steps re joins rr)
     else rerun_steps re joins rr)"

text \<open>
  The outcome of the transaction is the environment's: it may commit, a statement may be aborted
  before the rerun is inserted, or the commit itself may fail.  A commit adds to the outside what
  the transaction did; rows inserted outside are there in any case.
\<close>

datatype tx_outcome = Commits | Aborted js_error | Commit_fails js_error

definition committed :: "store \<Rightarrow> store \<times> store \<Rightarrow> store" where
  "committed d s = (case s of (tx, out) \<Rightarrow>
     tx\<lparr>syncs := syncs tx @ filter (\<lambda>r. s_id r \<notin> set (map s_id (syncs d))) (syncs out)\<rparr>)"

definition createRerun ::
  "rerun_env \<Rightarrow> bool \<Rightarrow> tx_outcome \<Rightarrow> rerun_request \<Rightarrow> (js_error, store, bool) stmt" where
  "createRerun re joins outcome rr d =
     (case outcome of
        Aborted e \<Rightarrow> (Inl (transaction_error e), d)
      | _ \<Rightarrow> (case run (rerun_transaction re joins rr) (d, d) of
           (Inl e, (tx, out)) \<Rightarrow> (Inl (transaction_error e), out)
         | (Inr created, (tx, out)) \<Rightarrow>
             (case outcome of
                Commit_fails e \<Rightarrow> (Inl (transaction_error e), out)
              | _ \<Rightarrow> (Inr created, committed d (tx, out)))))"

section \<open>A concrete request\<close>

definition example_rerun_env :: rerun_env where
  "example_rerun_env = \<lparr>re_env = example_env,
     schema = ''osm_sync_tracker'', tracker_files = None\<rparr>"

definition example_rerun :: "bool \<Rightarrow> rerun_request" where
  "example_rerun flag = \<lparr>rr_rerunId = ''r1'', rr_baseSyncId = ''s1'',
     rr_rerunSync = \<lparr>sb_id = ''r1'', sb_dumpDate = 10, sb_startDate = 30, sb_endDate = Null,
       sb_status = Some IN_PROGRESS, sb_layerId = 7, sb_isFull = False, sb_totalFiles = Given 1,
       sb_geometryType = POLYGON, sb_baseSyncId = Given ''s1'', sb_runNumber = Some 1,
       sb_metadata = Null\<rparr>,
     rr_shouldRerunNotSynced = flag\<rparr>"

lemma example_rerun_env_schema [simp]: "schema example_rerun_env = ''osm_sync_tracker''"
  by (simp add: example_rerun_env_def)

end
