(* ===== verification/Rerun_Properties.thy ===== *)
theory Rerun_Properties
  imports Rerun_Creation
begin

text \<open>
  What the statements of \<open>createRerun\<close> compute, in terms of rows instead of joins, and the
  invariant of the transaction.
\<close>

section \<open>The statements on a well-formed database\<close>

definition in_files_of :: "string \<Rightarrow> store \<Rightarrow> entity_row \<Rightarrow> bool" where
  "in_files_of syncId d e \<longleftrightarrow> list_ex (\<lambda>f. f_fileId f = e_fileId e \<and> f_syncId f = syncId) (files d)"

definition empty_file :: "string \<Rightarrow> store \<Rightarrow> file_row \<Rightarrow> bool" where
  "empty_file syncId d f \<longleftrightarrow> f_syncId f = syncId \<and>
     list_all (\<lambda>e. e_fileId e \<noteq> f_fileId f) (entities d)"

lemma in_files_of_cong: "files d = files d' \<Longrightarrow> in_files_of k d = in_files_of k d'"
  by (simp add: in_files_of_def fun_eq_iff)

lemma deleteEmptyFiles_result:
  fixes b :: string
  assumes wf: "db_wf d"
  defines "gone \<equiv> filter (empty_file b d) (files d)"
  shows "deleteEmptyFiles b d =
    (Inr (map f_fileId gone, length gone),
     d\<lparr>files := filter (\<lambda>f. \<not> empty_file b d f) (files d),
       history := filter (\<lambda>h. h_fileId h \<notin> f_fileId ` set gone) (history d)\<rparr>)"
proof -
  define empty where "empty = sql_except
    [f_fileId f. f \<leftarrow> files d, f_syncId f = b]
    (remdups [f_fileId f. e \<leftarrow> entities d, f \<leftarrow> files d, e_fileId e = f_fileId f, f_syncId f = b])"
  have owned: "k \<in> set [f_fileId f. f \<leftarrow> files d, f_syncId f = b] \<longleftrightarrow>
      (\<exists>f \<in> set (files d). f_fileId f = k \<and> f_syncId f = b)" for k by auto
  have used: "k \<in> set (remdups [f_fileId f. e \<leftarrow> entities d, f \<leftarrow> files d,
        e_fileId e = f_fileId f, f_syncId f = b]) \<longleftrightarrow>
      (\<exists>f \<in> set (files d). f_fileId f = k \<and> f_syncId f = b) \<and> (\<exists>e \<in> set (entities d). e_fileId e = k)" for k
    by (auto simp: join_simps) metis
  have empty: "f_fileId f \<in> set empty \<longleftrightarrow> empty_file b d f" if "f \<in> set (files d)" for f
  proof -
    have "(\<exists>f' \<in> set (files d). f_fileId f' = f_fileId f \<and> f_syncId f' = b) \<longleftrightarrow> f_syncId f = b"
      using that distinct_key_eq [OF db_wfD(2) [OF wf], of _ f] by blast
    then show ?thesis
      by (auto simp only: empty_def set_sql_except Diff_iff owned used empty_file_def list_all_iff)
  qed
  have gone: "filter (\<lambda>f. f_fileId f \<in> set empty) (files d) = gone"
    unfolding gone_def by (intro filter_cong) (simp_all add: empty)
  have kept: "filter (\<lambda>f. f_fileId f \<notin> set empty) (files d) = filter (\<lambda>f. \<not> empty_file b d f) (files d)"
    by (intro filter_cong) (simp_all add: empty)
  have ents: "filter (\<lambda>e. e_fileId e \<notin> f_fileId ` set gone) (entities d) = entities d"
    by (auto simp: gone_def empty_file_def list_all_iff filter_id_conv)
  show ?thesis
    unfolding deleteEmptyFiles_def empty_def [symmetric] Let_def delete_files_def gone kept
    by (simp add: ents)
qed

lemma prepareIncompleteEntities_result:
  assumes wf: "db_wf d"
  shows "prepareIncompleteEntities b sts d = (Inr (), d\<lparr>entities := update_where
    (\<lambda>e. in_files_of b d e \<and> e_status e \<in> set sts) reset_entity (entities d)\<rparr>)"
proof -
  have "list_ex (\<lambda>e. list_ex (\<lambda>f. e_fileId e = f_fileId f \<and> f_syncId f = b \<and>
      e_fileId e = e_fileId r \<and> e_entityId e = e_entityId r \<and> e_status e \<in> set sts) (files d))
      (entities d) \<longleftrightarrow> in_files_of b d r \<and> e_status r \<in> set sts" (is "?sub \<longleftrightarrow> ?in")
    if "r \<in> set (entities d)" for r
  proof
    assume ?sub
    then obtain e f where ef: "e \<in> set (entities d)" "f \<in> set (files d)" "e_fileId e = f_fileId f"
        "f_syncId f = b" "e_key e = e_key r" "e_status e \<in> set sts"
      by (auto simp: list_ex_iff e_key_def)
    have "e = r"
      by (rule distinct_key_eq [OF db_wfD(3) [OF wf] ef(1) that ef(5)])
    with ef show ?in by (auto simp: in_files_of_def list_ex_iff)
  next
    assume ?in
    then obtain f where "f \<in> set (files d)" "f_fileId f = e_fileId r" "f_syncId f = b" "e_status r \<in> set sts"
      by (auto simp: in_files_of_def list_ex_iff)
    with that show ?sub unfolding list_ex_iff by metis
  qed
  then show ?thesis
    by (simp add: prepareIncompleteEntities_def update_where_def cong: map_cong)
qed

lemma files_to_update_iff:
  "(k, n) \<in> set (files_to_update s d) \<longleftrightarrow>
    (\<exists>f \<in> set (files d). f_fileId f = k \<and> f_syncId f = s \<and> f_status f = IN_PROGRESS) \<and>
    closed_entities k d \<noteq> [] \<and> n = length (closed_entities k d)"
proof -
  let ?ids = "[f_fileId f. f \<leftarrow> files d, f_syncId f = s \<and> status_value (f_status f) = ''inprogress'']"
  let ?sel = "filter (\<lambda>e. e_fileId e \<in> set ?ids \<and> (entity_status_value (e_status e) = ''completed'' \<or>
    entity_status_value (e_status e) = ''not_synced'')) (entities d)"
  have ids: "k \<in> set ?ids \<longleftrightarrow>
      (\<exists>f \<in> set (files d). f_fileId f = k \<and> f_syncId f = s \<and> f_status f = IN_PROGRESS)" for k
    by auto
  have sel: "filter (\<lambda>e. e_fileId e = k) ?sel = (if k \<in> set ?ids then closed_entities k d else [])"
  proof (cases "k \<in> set ?ids")
    case True
    have "filter (\<lambda>e. e_fileId e = k) ?sel = filter (\<lambda>e. e_fileId e = k \<and> (e_fileId e \<in> set ?ids \<and>
        (entity_status_value (e_status e) = ''completed'' \<or>
         entity_status_value (e_status e) = ''not_synced''))) (entities d)"
      by (simp only: filter_filter conj_commute)
    also have "\<dots> = closed_entities k d"
      unfolding closed_entities_def using True by (intro filter_cong) (auto simp only: entity_status_value_eq insert_iff empty_iff)
    finally show ?thesis using True by simp
  next
    case False
    then show ?thesis by (simp only: filter_filter filter_empty_conv if_False) blast
  qed
  have "(k, n) \<in> set (files_to_update s d) \<longleftrightarrow>
      k \<in> e_fileId ` set ?sel \<and> n = length (filter (\<lambda>e. e_fileId e = k) ?sel)"
    unfolding files_to_update_def Let_def set_map set_remdups image_iff by blast
  also have "k \<in> e_fileId ` set ?sel \<longleftrightarrow> filter (\<lambda>e. e_fileId e = k) ?sel \<noteq> []"
    unfolding filter_empty_conv by blast
  finally show ?thesis unfolding sel unfolding ids by (auto split: if_splits)
qed

definition dangling_file :: "string \<Rightarrow> store \<Rightarrow> file_row \<Rightarrow> bool" where
  "dangling_file syncId d f \<longleftrightarrow> f_syncId f = syncId \<and> f_status f = IN_PROGRESS \<and>
     closed_entities (f_fileId f) d \<noteq> [] \<and>
     f_totalEntities f = Some (int (length (closed_entities (f_fileId f) d)))"

lemma updateDanglingFilesAsCompleted_result:
  assumes wf: "db_wf d"
  shows "updateDanglingFilesAsCompleted ts s d =
    (Inr (), d\<lparr>files := update_where (dangling_file s d) (close_file ts) (files d)\<rparr>)"
proof -
  have "list_ex (\<lambda>(k, n). f_fileId f = k \<and> f_totalEntities f = Some (int n) \<and>
      status_value (f_status f) \<noteq> ''completed'') (files_to_update s d) \<longleftrightarrow> dangling_file s d f"
    if "f \<in> set (files d)" for f
  proof -
    have "(\<exists>f' \<in> set (files d). f_fileId f' = f_fileId f \<and> f_syncId f' = s \<and> f_status f' = IN_PROGRESS)
        \<longleftrightarrow> f_syncId f = s \<and> f_status f = IN_PROGRESS"
      using that distinct_key_eq [OF db_wfD(2) [OF wf], of _ f] by blast
    then show ?thesis
      by (auto simp: list_ex_iff Bex_def files_to_update_iff dangling_file_def)
  qed
  then show ?thesis
    by (simp add: updateDanglingFilesAsCompleted_def update_where_def cong: map_cong)
qed

definition not_synced_file :: "string \<Rightarrow> store \<Rightarrow> file_row \<Rightarrow> bool" where
  "not_synced_file syncId d f \<longleftrightarrow> f_syncId f = syncId \<and>
     list_ex (\<lambda>e. e_fileId e = f_fileId f \<and> e_status e = E_NOT_SYNCED) (entities d)"

lemma prepareIncompleteFiles_result:
  assumes wf: "db_wf d"
  shows "prepareIncompleteFiles b d = (Inr (), d\<lparr>files := update_where (not_synced_file b d)
    (\<lambda>f. f\<lparr>f_status := IN_PROGRESS\<rparr>) (files d)\<rparr>)"
proof -
  have "f_fileId f' \<in> set (remdups [f_fileId f. e \<leftarrow> entities d, f \<leftarrow> files d, e_fileId e = f_fileId f,
      f_syncId f = b, entity_status_value (e_status e) = ''not_synced'']) \<longleftrightarrow> not_synced_file b d f'"
    if "f' \<in> set (files d)" for f'
  proof -
    have "f_fileId f' \<in> set (remdups [f_fileId f. e \<leftarrow> entities d, f \<leftarrow> files d,
        e_fileId e = f_fileId f, f_syncId f = b, entity_status_value (e_status e) = ''not_synced'']) \<longleftrightarrow>
      (\<exists>f \<in> set (files d). f_fileId f = f_fileId f' \<and> f_syncId f = b) \<and>
      (\<exists>e \<in> set (entities d). e_fileId e = f_fileId f' \<and> e_status e = E_NOT_SYNCED)"
      by (auto simp: join_simps) metis
    moreover have "(\<exists>f \<in> set (files d). f_fileId f = f_fileId f' \<and> f_syncId f = b) \<longleftrightarrow> f_syncId f' = b"
      using that distinct_key_eq [OF db_wfD(2) [OF wf], of _ f'] by blast
    ultimately show ?thesis by (simp only: not_synced_file_def list_ex_iff)
  qed
  then show ?thesis
    by (simp add: prepareIncompleteFiles_def update_where_def cong: map_cong)
qed

lemma set_entities_for_history:
  assumes wf: "db_wf d"
  shows "set (entities_for_history b d) =
    {e \<in> set (entities d). in_files_of b d e \<and> e_status e \<noteq> E_IN_RERUN \<and>
      \<not> (\<exists>h \<in> set (history d). h_entityId h = e_entityId e \<and> h_status h = E_COMPLETED \<and>
          (h_syncId h = b \<or> (\<exists>s \<in> set (syncs d). s_id s = h_syncId h \<and> s_baseSyncId s = Some b)))}"
proof -
  have q1: "e \<in> set [e. e \<leftarrow> entities d, f \<leftarrow> files d, e_fileId e = f_fileId f, f_syncId f = b,
      entity_status_value (e_status e) \<noteq> ''inrerun''] \<longleftrightarrow>
    e \<in> set (entities d) \<and> in_files_of b d e \<and> e_status e \<noteq> E_IN_RERUN" for e
    by (auto simp: in_files_of_def list_ex_iff)
  have q2: "e \<in> set [e. e \<leftarrow> entities d, h \<leftarrow> history d, e_entityId e = h_entityId h,
      h_syncId h \<in> set ([s_id s. s \<leftarrow> syncs d, s_baseSyncId s = Some b] @ [b]),
      entity_status_value (h_status h) = ''completed''] \<longleftrightarrow>
    e \<in> set (entities d) \<and> (\<exists>h \<in> set (history d). h_entityId h = e_entityId e \<and>
      h_status h = E_COMPLETED \<and>
      (h_syncId h = b \<or> (\<exists>s \<in> set (syncs d). s_id s = h_syncId h \<and> s_baseSyncId s = Some b)))" for e
    by (auto simp: join_simps) metis+
  show ?thesis
    unfolding entities_for_history_def set_sql_except by (rule set_eqI) (simp only: Diff_iff q1 q2 mem_Collect_eq, blast)
qed

section \<open>Well-formedness\<close>

lemma deleteEmptyFiles_wf [inv_intros]: "db_wf d \<Longrightarrow> db_wf (snd (deleteEmptyFiles b d))"
  by (simp add: deleteEmptyFiles_def Let_def db_wf_delete_files)

lemma tryClosingSync_wf [inv_intros]: "db_wf d \<Longrightarrow> db_wf (snd (tryClosingSync re b d))"
  by (auto simp: tryClosingSync_def Let_def sync_typed_def close_sync_def sync_fk_def
      intro!: db_wf_update_syncs dest: db_wf_fkD(1) split: option.splits)

lemma createEntityHistory_wf [inv_intros]:
  assumes "db_wf d"
  shows "db_wf (snd (createEntityHistory b s hb d))"
  unfolding createEntityHistory_def
proof (rule writing_wf)
  fix hs
  assume ins: "sql_insert h_key (\<lambda>_. True) (\<lambda>_. history_fk d)
    (map (history_row_of s hb) (entities_for_history b d)) (history d) = Inr hs"
  show "db_wf (put_history hs d)"
    using ins sql_insert_distinct [OF ins db_wfD(5) [OF assms]] assms unfolding put_history_def
    by (intro db_wf_history [OF assms])
      (auto simp: sql_insert_Inr_iff list_all_iff dest: db_wf_fkD(4))
qed (rule assms)

lemma prepareIncompleteFiles_wf [inv_intros]:
  "db_wf d \<Longrightarrow> db_wf (snd (prepareIncompleteFiles b d))"
  by (auto simp: prepareIncompleteFiles_def file_typed_def intro!: db_wf_update_files)

lemma prepareIncompleteEntities_wf [inv_intros]:
  "db_wf d \<Longrightarrow> db_wf (snd (prepareIncompleteEntities b sts d))"
  by (auto simp: prepareIncompleteEntities_def reset_entity_def e_key_def entity_fk_def
      intro!: db_wf_update_entities)

lemma updateDanglingFilesAsCompleted_wf [inv_intros]:
  "db_wf d \<Longrightarrow> db_wf (snd (updateDanglingFilesAsCompleted ts s d))"
  by (auto simp: updateDanglingFilesAsCompleted_def file_typed_def intro!: db_wf_update_files)

section \<open>The transaction\<close>

text \<open>
  What holds at every point of the transaction: both views are well-formed, and the syncs that
  are outside but not in the transaction are the ones a statement on the repository inserted.
\<close>

definition tx_inv :: "bool \<Rightarrow> store \<Rightarrow> store \<times> store \<Rightarrow> bool" where
  "tx_inv joins d s = (case s of (tx, out) \<Rightarrow> db_wf tx \<and> db_wf out \<and>
     (if joins then out = d
      else map s_id (syncs tx) = map s_id (syncs d) \<and> (\<exists>new. syncs out = syncs d @ new)))"

lemma tx_invD:
  assumes "tx_inv joins d (tx, out)"
  shows "db_wf tx" "db_wf out" "joins \<Longrightarrow> out = d"
    "\<not> joins \<Longrightarrow> map s_id (syncs tx) = map s_id (syncs d) \<and> (\<exists>new. syncs out = syncs d @ new)"
  using assms by (auto simp: tx_inv_def split: if_splits)

lemma in_tx_inv:
  assumes "tx_inv joins d s" and "\<And>t. db_wf t \<Longrightarrow> db_wf (snd (m t))"
    and "\<And>t. map s_id (syncs (snd (m t))) = map s_id (syncs t)"
  shows "tx_inv joins d (snd (in_tx m s))"
  using assms(1) assms(2,3) [of "fst s"]
  by (cases s; cases "m (fst s)") (auto simp: tx_inv_def in_tx_def)

lemma on_this_query_inv:
  assumes "tx_inv joins d s" and "\<And>t. snd (m t) = t"
  shows "tx_inv joins d (snd (on_this joins m s))"
proof (cases s)
  case (Pair tx out)
  then show ?thesis
    using assms(1) assms(2) [of tx] assms(2) [of out]
    by (cases "m tx"; cases "m out") (auto simp: on_this_def in_tx_def)
qed

lemma on_this_createSync_inv:
  assumes "tx_inv joins d s"
  shows "tx_inv joins d (snd (on_this joins (createSync_row b) s))"
proof (cases s)
  case (Pair tx out)
  obtain r t where tx: "createSync_row b tx = (r, t)" by fastforce
  obtain r' t' where out: "createSync_row b out = (r', t')" by fastforce
  have wf: "db_wf t" "db_wf t'"
    using createSync_row_wf [of tx b] createSync_row_wf [of out b] assms Pair tx out
    by (auto simp: tx_inv_def)
  have "\<exists>new. syncs t' = syncs out @ new"
    using out by (auto simp: createSync_row_def createSyncs_rows_def writing_def put_syncs_def
        sql_insert_Inr_iff split: sum.splits)
  with assms Pair tx out wf show ?thesis
    by (auto simp: tx_inv_def on_this_def in_tx_def)
qed

lemma syncs_kept [table_simps]:
  "syncs (snd (deleteEmptyFiles b d)) = syncs d"
  "syncs (snd (createEntityHistory b s hb d)) = syncs d"
  "syncs (snd (prepareIncompleteFiles b d)) = syncs d"
  "syncs (snd (prepareIncompleteEntities b sts d)) = syncs d"
  "syncs (snd (updateDanglingFilesAsCompleted ts b d)) = syncs d"
  by (auto simp: deleteEmptyFiles_def createEntityHistory_def prepareIncompleteFiles_def
      prepareIncompleteEntities_def updateDanglingFilesAsCompleted_def delete_files_def Let_def
      writing_def put_history_def split: sum.splits)

lemma tryClosingSync_ids [table_simps]:
  "map s_id (syncs (snd (tryClosingSync re b d))) = map s_id (syncs d)"
  by (auto simp: tryClosingSync_def Let_def map_update_where_key split: option.splits)

lemma findOneSyncWithLastRerun_state [simp]: "snd (findOneSyncWithLastRerun b d) = d"
  by (simp add: findOneSyncWithLastRerun_def)

lemma rerun_steps_keeps: "keeps (tx_inv joins d) (rerun_steps re joins rr)"
  unfolding rerun_steps_def Let_def
  by (intro keeps_await keeps_return on_this_createSync_inv on_this_query_inv in_tx_inv
      inv_intros if_split [THEN iffD2])
    (auto intro: in_tx_inv inv_intros simp: table_simps split: if_splits)

lemma rerun_transaction_keeps: "keeps (tx_inv joins d) (rerun_transaction re joins rr)"
  unfolding rerun_transaction_def
  by (intro keeps_await keeps_if keeps_return rerun_steps_keeps in_tx_inv inv_intros)
    (auto simp: table_simps)

lemma committed_wf:
  assumes "db_wf d" and inv: "tx_inv joins d (tx, out)"
  shows "db_wf (committed d (tx, out))"
proof (cases joins)
  case True
  then have "out = d" using inv by (auto simp: tx_inv_def)
  then have "filter (\<lambda>r. s_id r \<notin> set (map s_id (syncs d))) (syncs out) = []"
    by (auto simp: filter_empty_conv)
  then show ?thesis using inv by (simp add: committed_def tx_inv_def)
next
  case False
  note wf = tx_invD(1,2) [OF inv]
  from tx_invD(4) [OF inv False] obtain new
    where ids: "map s_id (syncs tx) = map s_id (syncs d)" and out: "syncs out = syncs d @ new" by blast
  have "\<forall>r \<in> set new. s_id r \<notin> set (map s_id (syncs d))"
    using db_wfD(1) [OF wf(2)] by (auto simp: out)
  then have new: "filter (\<lambda>r. s_id r \<notin> set (map s_id (syncs d))) (syncs out) = new"
    by (auto simp: out filter_empty_conv filter_id_conv)
  have keys: "s_id ` set (syncs tx @ new) = s_id ` set (syncs out)"
    using arg_cong [OF ids, of set] by (simp add: out image_Un)
  have "db_wf (tx\<lparr>syncs := syncs tx @ new\<rparr>)"
  proof (rule db_wf_syncs [OF wf(1)])
    have "map s_id (syncs tx @ new) = map s_id (syncs out)" by (simp add: ids out)
    then show "distinct (map s_id (syncs tx @ new))" using db_wfD(1) [OF wf(2)] by metis
    have "list_all (sync_fk (syncs tx)) (syncs tx)" "list_all (sync_fk (syncs out)) (syncs out)"
      "list_all sync_typed (syncs tx)" "list_all sync_typed (syncs out)"
      using wf by (auto simp: db_wf_def refs_ok_def columns_typed_def)
    then show "list_all sync_typed (syncs tx @ new)"
      and "list_all (sync_fk (syncs tx @ new)) (syncs tx @ new)"
      unfolding sync_fk_keys [OF keys]
      by (auto simp: out list_all_iff sync_fk_def keys [unfolded out, symmetric]
          intro: ref_ok_mono [of s_id "syncs tx"]) (metis keys ref_ok_mono sup_ge1 image_Un set_append out)
  qed auto
  then show ?thesis by (simp only: committed_def prod.case new)
qed

lemma createRerun_wf [inv_intros]:
  assumes "db_wf d"
  shows "db_wf (snd (createRerun re joins outcome rr d))"
proof -
  obtain r tx out where run: "run (rerun_transaction re joins rr) (d, d) = (r, (tx, out))"
    by (metis prod.exhaust)
  have "tx_inv joins d (d, d)" using assms by (simp add: tx_inv_def)
  from keeps_run [OF rerun_transaction_keeps this] have inv: "tx_inv joins d (tx, out)"
    using run by (metis snd_conv)
  from committed_wf [OF assms inv] tx_invD(2) [OF inv] assms run show ?thesis
    by (auto simp: createRerun_def split: tx_outcome.splits sum.splits)
qed

end
