(* ===== verification/Rerun_Outcome.thy ===== *)
theory Rerun_Outcome
  imports Rerun_Properties
begin

text \<open>
  What \<open>createRerun\<close> does to the database as a whole: when no rerun is needed, what a created
  rerun leaves behind, and what a failed transaction leaves behind.
\<close>

section \<open>Steps on a well-formed database\<close>

definition without_empty_files :: "string \<Rightarrow> store \<Rightarrow> store" where
  "without_empty_files b d =
     d\<lparr>files := filter (\<lambda>f. \<not> empty_file b d f) (files d),
       history := filter (\<lambda>h. h_fileId h \<notin> f_fileId ` {f \<in> set (files d). empty_file b d f}) (history d)\<rparr>"

lemma deleteEmptyFiles_state:
  assumes "db_wf d"
  shows "deleteEmptyFiles b d = (Inr (map f_fileId (filter (empty_file b d) (files d)),
    length (filter (empty_file b d) (files d))), without_empty_files b d)"
  using deleteEmptyFiles_result [OF assms, of b] by (simp add: without_empty_files_def)

lemma without_empty_files_wf [inv_intros]: "db_wf d \<Longrightarrow> db_wf (without_empty_files b d)"
  using deleteEmptyFiles_wf [of d b] by (simp add: deleteEmptyFiles_state)

lemma without_empty_files_simps [simp]:
  "syncs (without_empty_files b d) = syncs d" "entities (without_empty_files b d) = entities d"
  "changesets (without_empty_files b d) = changesets d"
  "files (without_empty_files b d) = filter (\<lambda>f. \<not> empty_file b d f) (files d)"
  by (simp_all add: without_empty_files_def)

lemma in_files_of_without_empty_files [simp]:
  "e \<in> set (entities d) \<Longrightarrow> in_files_of b (without_empty_files b d) e \<longleftrightarrow> in_files_of b d e"
  by (auto simp: in_files_of_def list_ex_iff empty_file_def list_all_iff) metis

lemma in_files_of_history [simp]: "in_files_of b (d\<lparr>history := hs\<rparr>) = in_files_of b d"
  by (simp add: in_files_of_def fun_eq_iff)

lemma file_predicates_history [simp]:
  "not_synced_file b (d\<lparr>history := hs\<rparr>) = not_synced_file b d"
  "dangling_file b (d\<lparr>history := hs\<rparr>) = dangling_file b d"
  by (simp_all add: not_synced_file_def dangling_file_def closed_entities_def fun_eq_iff)

lemma file_predicates_without_empty_files [simp]:
  "not_synced_file b (without_empty_files b' d) = not_synced_file b d"
  "dangling_file b (without_empty_files b' d) = dangling_file b d"
  by (simp_all add: not_synced_file_def dangling_file_def closed_entities_def fun_eq_iff)

section \<open>The statements after the base sync stayed open\<close>

text \<open>The files a rerun touches: reopened for their not-synced entities, or closed as dangling.\<close>

definition rerun_files :: "rerun_env \<Rightarrow> rerun_request \<Rightarrow> store \<Rightarrow> file_row list" where
  "rerun_files re rr d =
     (if rr_shouldRerunNotSynced rr
      then update_where (not_synced_file (rr_baseSyncId rr) d) (\<lambda>f. f\<lparr>f_status := IN_PROGRESS\<rparr>) (files d)
      else update_where (dangling_file (rr_baseSyncId rr) d) (close_file (now (re_env re))) (files d))"

definition rerun_entities :: "rerun_request \<Rightarrow> store \<Rightarrow> entity_row list" where
  "rerun_entities rr d =
     update_where (\<lambda>e. in_files_of (rr_baseSyncId rr) d e \<and>
        e_status e \<in> set (entityStatusesForRerun (rr_shouldRerunNotSynced rr)))
       reset_entity (entities d)"

definition latest_run :: "string \<Rightarrow> store \<Rightarrow> string" where
  "latest_run b d = latest_rerun_or_sync b
     (map_option (\<lambda>s. (s, last_rerun b (syncs d))) (select_one (\<lambda>s. s_id s = b) (syncs d)))"

definition rerun_history :: "rerun_request \<Rightarrow> store \<Rightarrow> history_row list" where
  "rerun_history rr d =
     (let b = rr_baseSyncId rr; latest = latest_run b d
      in map (history_row_of latest (if latest = b then None else Some b)) (entities_for_history b d))"

lemma createEntityHistory_Inr_iff:
  "createEntityHistory b s hb d = (Inr u, d') \<longleftrightarrow>
    (\<exists>hs. sql_insert h_key (\<lambda>_. True) (\<lambda>_. history_fk d)
       (map (history_row_of s hb) (entities_for_history b d)) (history d) = Inr hs \<and>
     d' = d\<lparr>history := hs\<rparr>)"
  by (auto simp: createEntityHistory_def writing_Inr_iff put_history_def)

lemma createSync_row_Inr_iff:
  "createSync_row b d = (Inr u, d') \<longleftrightarrow>
    sql_insert s_id sync_typed sync_fk [sync_row_of b] (syncs d) = Inr (syncs d @ [sync_row_of b]) \<and>
    d' = d\<lparr>syncs := syncs d @ [sync_row_of b]\<rparr>"
  by (auto simp: createSync_row_def createSyncs_rows_def writing_Inr_iff put_syncs_def sql_insert_Inr_iff)

lemma in_files_of_same_keys:
  assumes "map (\<lambda>f. (f_fileId f, f_syncId f)) (files d') = map (\<lambda>f. (f_fileId f, f_syncId f)) (files d)"
  shows "in_files_of b d' = in_files_of b d"
proof -
  have "in_files_of b t e \<longleftrightarrow> (e_fileId e, b) \<in> set (map (\<lambda>f. (f_fileId f, f_syncId f)) (files t))" for t e
    by (auto simp: in_files_of_def list_ex_iff image_iff) metis
  with assms show ?thesis by (auto simp only: fun_eq_iff)
qed

lemma rerun_files_keys:
  "map (\<lambda>f. (f_fileId f, f_syncId f)) (rerun_files re rr d) = map (\<lambda>f. (f_fileId f, f_syncId f)) (files d)"
  by (simp add: rerun_files_def map_update_where_key)

lemma rerun_steps_joined:
  assumes wf: "db_wf d"
    and run: "run (rerun_steps re True rr) (d, d0) = (Inr created, (tx, out))"
  shows "created \<and> out = d0 \<and> tx = d\<lparr>syncs := syncs d @ [sync_row_of (rr_rerunSync rr)],
    files := rerun_files re rr d, entities := rerun_entities rr d,
    history := history d @ rerun_history rr d\<rparr>"
proof -
  let ?b = "rr_baseSyncId rr" and ?latest = "latest_run (rr_baseSyncId rr) d"
  let ?hb = "if ?latest = ?b then None else Some ?b"
  have find: "on_this True (findOneSyncWithLastRerun ?b) (d, d0) = (Inr (map_option
      (\<lambda>s. (s, last_rerun ?b (syncs d))) (select_one (\<lambda>s. s_id s = ?b) (syncs d))), (d, d0))"
    by (simp add: on_this_def in_tx_def findOneSyncWithLastRerun_def reading_def)
  note r1 = run [unfolded rerun_steps_def run_await_ok [of "on_this True (findOneSyncWithLastRerun ?b)",
      OF find] Let_def latest_run_def [symmetric]]
  from r1 obtain u s1 where hist: "in_tx (createEntityHistory ?b ?latest ?hb) (d, d0) = (Inr u, s1)"
    and r2: "run (await (if rr_shouldRerunNotSynced rr then in_tx (prepareIncompleteFiles ?b)
        else in_tx (updateDanglingFilesAsCompleted (now (re_env re)) ?b)) (\<lambda>_.
      await (in_tx (prepareIncompleteEntities ?b
        (entityStatusesForRerun (rr_shouldRerunNotSynced rr)))) (\<lambda>_.
      await (on_this True (createSync_row (rr_rerunSync rr))) (\<lambda>_. return True)))) s1 =
      (Inr created, (tx, out))"
    by (rule run_await_InrE)
  from hist obtain h where s1: "s1 = (h, d0)" and created: "createEntityHistory ?b ?latest ?hb d = (Inr u, h)"
    by (cases "createEntityHistory ?b ?latest ?hb d") (simp add: in_tx_def)
  have wfh: "db_wf h"
    using createEntityHistory_wf [OF wf, of ?b ?latest ?hb] by (simp only: created snd_conv)
  from created obtain hs where "hs = history d @ rerun_history rr d" "h = d\<lparr>history := hs\<rparr>"
    unfolding createEntityHistory_Inr_iff sql_insert_Inr_iff rerun_history_def Let_def by blast
  then have h: "h = d\<lparr>history := history d @ rerun_history rr d\<rparr>" by simp
  let ?f = "h\<lparr>files := rerun_files re rr d\<rparr>"
  have files: "(if rr_shouldRerunNotSynced rr then in_tx (prepareIncompleteFiles ?b)
      else in_tx (updateDanglingFilesAsCompleted (now (re_env re)) ?b)) (h, d0) = (Inr (), (?f, d0))"
    by (simp add: in_tx_def prepareIncompleteFiles_result [OF wfh [unfolded h]]
        updateDanglingFilesAsCompleted_result [OF wfh [unfolded h]] rerun_files_def h)
  have wff: "db_wf ?f"
    using prepareIncompleteFiles_wf [OF wfh, of ?b]
      updateDanglingFilesAsCompleted_wf [OF wfh, of "now (re_env re)" ?b]
    by (cases "rr_shouldRerunNotSynced rr")
      (simp_all add: prepareIncompleteFiles_result [OF wfh [unfolded h]]
        updateDanglingFilesAsCompleted_result [OF wfh [unfolded h]] rerun_files_def h)
  have inf: "in_files_of ?b ?f = in_files_of ?b d"
    by (rule in_files_of_same_keys) (simp add: rerun_files_keys)
  have ents: "in_tx (prepareIncompleteEntities ?b (entityStatusesForRerun (rr_shouldRerunNotSynced rr)))
      (?f, d0) = (Inr (), (?f\<lparr>entities := rerun_entities rr d\<rparr>, d0))"
    unfolding in_tx_def prod.case prepareIncompleteEntities_result [OF wff] inf
    by (simp add: rerun_entities_def h)
  from r2 have r3: "run (await (on_this True (createSync_row (rr_rerunSync rr)))
      (\<lambda>_. return True)) (?f\<lparr>entities := rerun_entities rr d\<rparr>, d0) = (Inr created, (tx, out))"
    by (simp only: s1 run_await [of _ _ "(h, d0)"] run_await [of _ _ "(?f, d0)"] files ents
        prod.case sum.case)
  then obtain v s2
    where "on_this True (createSync_row (rr_rerunSync rr))
        (?f\<lparr>entities := rerun_entities rr d\<rparr>, d0) = (Inr v, s2)"
      and last: "run (return True) s2 = (Inr created :: js_error + bool, (tx, out))"
    by (rule run_await_InrE)
  then have "s2 = (?f\<lparr>entities := rerun_entities rr d,
      syncs := syncs d @ [sync_row_of (rr_rerunSync rr)]\<rparr>, d0)"
    by (auto simp: on_this_def in_tx_def createSync_row_Inr_iff h split: prod.splits)
  with last show ?thesis by (auto simp: h)
qed

section \<open>Outcomes\<close>

text \<open>Whether the base sync closes once its empty files are gone.\<close>

definition closes_without_empty_files :: "string \<Rightarrow> store \<Rightarrow> bool" where
  "closes_without_empty_files b d \<longleftrightarrow> list_ex (empty_file b d) (files d) \<and>
     list_ex (\<lambda>s. s_id s = b \<and>
       s_totalFiles s = Some (int (length (completed_files b (without_empty_files b d))))) (syncs d)"

lemma tryClosingSync_result:
  assumes "schema re = ''osm_sync_tracker''"
  shows "tryClosingSync re b d =
    (let P = (\<lambda>s. s_id s = b \<and> s_totalFiles s = Some (int (length (completed_files b d))));
         closed = filter P (syncs d)
     in (Inr (map s_id closed, length closed),
         d\<lparr>syncs := update_where P (close_sync (now (re_env re))) (syncs d)\<rparr>))"
  using assms
  by (simp add: tryClosingSync_def osm_sync_tracker_files_def completed_files_def Let_def
      cong: conj_cong)

lemma rerun_transaction_joined:
  assumes wf: "db_wf d" and sch: "schema re = ''osm_sync_tracker''"
    and run: "run (rerun_transaction re True rr) (d, d) = (Inr created, (tx, out))"
  defines "b \<equiv> rr_baseSyncId rr" and "t \<equiv> without_empty_files (rr_baseSyncId rr) d"
  shows "out = d \<and> (created \<longleftrightarrow> \<not> closes_without_empty_files b d) \<and>
    (if created then tx = t\<lparr>syncs := syncs d @ [sync_row_of (rr_rerunSync rr)],
       files := rerun_files re rr t, entities := rerun_entities rr t,
       history := history t @ rerun_history rr t\<rparr>
     else tx = t\<lparr>syncs := update_where (\<lambda>s. s_id s = b \<and>
         s_totalFiles s = Some (int (length (completed_files b t))))
       (close_sync (now (re_env re))) (syncs d)\<rparr>)"
proof -
  let ?P = "\<lambda>s. s_id s = b \<and> s_totalFiles s = Some (int (length (completed_files b t)))"
  have del: "in_tx (deleteEmptyFiles b) (d, d) = (Inr (map f_fileId (filter (empty_file b d) (files d)),
      length (filter (empty_file b d) (files d))), (t, d))"
    by (simp add: in_tx_def deleteEmptyFiles_state [OF wf] t_def b_def)
  have close: "in_tx (tryClosingSync re b) (t, d) =
      (Inr (map s_id (filter ?P (syncs d)), length (filter ?P (syncs d))),
       (t\<lparr>syncs := update_where ?P (close_sync (now (re_env re))) (syncs d)\<rparr>, d))"
    by (simp add: in_tx_def tryClosingSync_result [OF sch] Let_def) (simp add: t_def)
  have none: "filter ?P (syncs d) = [] \<Longrightarrow>
      t\<lparr>syncs := update_where ?P (close_sync (now (re_env re))) (syncs d)\<rparr> = t"
    by (simp add: filter_empty_conv update_where_none t_def without_empty_files_def)
  have closes: "closes_without_empty_files b d \<longleftrightarrow>
      filter (empty_file b d) (files d) \<noteq> [] \<and> filter ?P (syncs d) \<noteq> []"
    by (simp only: closes_without_empty_files_def list_ex_iff filter_empty_conv t_def b_def) blast
  show ?thesis
  proof (cases "closes_without_empty_files b d")
    case True
    then have "filter (empty_file b d) (files d) \<noteq> []" "filter ?P (syncs d) \<noteq> []"
      unfolding closes by blast+
    with run have "\<not> created \<and> out = d \<and>
        tx = t\<lparr>syncs := update_where ?P (close_sync (now (re_env re))) (syncs d)\<rparr>"
      by (auto simp: rerun_transaction_def b_def [symmetric] del close)
    with True show ?thesis by simp
  next
    case False
    then have steps: "run (rerun_steps re True rr) (t, d) = (Inr created, (tx, out))"
      using run none unfolding closes
      by (auto simp: rerun_transaction_def b_def [symmetric] del close split: if_splits)
    from rerun_steps_joined [OF without_empty_files_wf [OF wf, of b] steps [unfolded t_def b_def [symmetric]]]
    show ?thesis using False by (simp add: t_def b_def)
  qed
qed

section \<open>Properties\<close>

text \<open>
  C19: \<open>deleteEmptyFiles\<close> deletes exactly the files of the sync that have no entity, with the
  history rows that reference them, and no entity.
\<close>

theorem deleteEmptyFiles_correct:
  assumes "db_wf d"
  shows "\<exists>ids d'. deleteEmptyFiles b d = (Inr (ids, length ids), d') \<and>
    set ids = f_fileId ` {f \<in> set (files d). f_syncId f = b \<and>
      (\<forall>e \<in> set (entities d). e_fileId e \<noteq> f_fileId f)} \<and>
    files d' = filter (\<lambda>f. f_fileId f \<notin> set ids) (files d) \<and>
    history d' = filter (\<lambda>h. h_fileId h \<notin> set ids) (history d) \<and>
    entities d' = entities d \<and> syncs d' = syncs d \<and> changesets d' = changesets d"
proof -
  let ?ids = "map f_fileId (filter (empty_file b d) (files d))"
  have gone: "f_fileId f \<in> set ?ids \<longleftrightarrow> empty_file b d f" if f: "f \<in> set (files d)" for f
  proof
    assume "f_fileId f \<in> set ?ids"
    then obtain f' where "f' \<in> set (files d)" "empty_file b d f'" "f_fileId f' = f_fileId f" by auto
    with distinct_key_eq [OF db_wfD(2) [OF assms] this(1) f] show "empty_file b d f" by simp
  qed (use f in auto)
  have ids: "set ?ids = f_fileId ` {f \<in> set (files d). f_syncId f = b \<and>
      (\<forall>e \<in> set (entities d). e_fileId e \<noteq> f_fileId f)}"
    by (simp add: empty_file_def list_all_iff)
  have kept: "files (without_empty_files b d) = filter (\<lambda>f. f_fileId f \<notin> set ?ids) (files d)"
    unfolding without_empty_files_simps by (rule filter_cong [OF HOL.refl]) (simp only: gone)
  have hist: "history (without_empty_files b d) = filter (\<lambda>h. h_fileId h \<notin> set ?ids) (history d)"
    by (simp add: without_empty_files_def)
  show ?thesis
  proof (intro exI conjI)
    show "deleteEmptyFiles b d = (Inr (?ids, length ?ids), without_empty_files b d)"
      by (simp add: deleteEmptyFiles_state [OF assms])
  qed (fact ids, fact kept, fact hist, simp_all)
qed

theorem deleteEmptyFiles_correct_witness:
  "\<exists>ids d'. deleteEmptyFiles ''s1'' failed_db = (Inr (ids, length ids), d') \<and> set ids = {''f3''} \<and>
    files d' = [a_file ''f1'' ''s1'' IN_PROGRESS (Some 2)]"
proof -
  obtain ids d' where "deleteEmptyFiles ''s1'' failed_db = (Inr (ids, length ids), d')"
    and ids: "set ids = f_fileId ` {f \<in> set (files failed_db). f_syncId f = ''s1'' \<and>
      (\<forall>e \<in> set (entities failed_db). e_fileId e \<noteq> f_fileId f)}"
    and fs: "files d' = filter (\<lambda>f. f_fileId f \<notin> set ids) (files failed_db)"
    using deleteEmptyFiles_correct [OF failed_db_wf, of "''s1''"] by blast
  moreover have one: "set ids = {''f3''}"
    unfolding ids set_filter [symmetric] by (simp add: example_dbs)
  moreover have "files d' = [a_file ''f1'' ''s1'' IN_PROGRESS (Some 2)]"
    unfolding fs one by (simp add: example_dbs)
  ultimately show ?thesis by blast
qed

text \<open>
  C20: \<open>updateDanglingFilesAsCompleted\<close> closes the files that \<open>attemptFileClosure\<close> would close among
  the in-progress files of the sync with at least one closed entity, each exactly as
  \<open>attemptFileClosure\<close> does; it is the sequence of those attempts, in one statement.
\<close>

theorem updateDangling_is_closures:
  assumes wf: "db_wf d"
  shows "updateDanglingFilesAsCompleted ts b d = (Inr (), fold (\<lambda>k t. snd (attemptFileClosure ts k t))
    (map f_fileId (filter (\<lambda>f. f_syncId f = b \<and> f_status f = IN_PROGRESS \<and>
       list_ex (\<lambda>e. e_fileId e = f_fileId f \<and> e_status e \<in> {E_COMPLETED, E_NOT_SYNCED}) (entities d))
      (files d))) d)"
proof -
  let ?sel = "filter (\<lambda>f. f_syncId f = b \<and> f_status f = IN_PROGRESS \<and>
       list_ex (\<lambda>e. e_fileId e = f_fileId f \<and> e_status e \<in> {E_COMPLETED, E_NOT_SYNCED}) (entities d))
      (files d)"
  have "dangling_file b d f \<longleftrightarrow> f_fileId f \<in> set (map f_fileId ?sel) \<and> file_up_for_closure (f_fileId f) d f"
    if f: "f \<in> set (files d)" for f
  proof -
    have "f_fileId f \<in> set (map f_fileId ?sel) \<longleftrightarrow> f \<in> set ?sel"
    proof
      assume "f_fileId f \<in> set (map f_fileId ?sel)"
      then obtain f' where f': "f' \<in> set ?sel" "f_fileId f' = f_fileId f" by auto
      with distinct_key_eq [OF db_wfD(2) [OF wf] _ f, of f'] show "f \<in> set ?sel" by auto
    qed simp
    moreover have "list_ex (\<lambda>e. e_fileId e = f_fileId f \<and> e_status e \<in> {E_COMPLETED, E_NOT_SYNCED}) (entities d)
        \<longleftrightarrow> closed_entities (f_fileId f) d \<noteq> []"
      by (auto simp: closed_entities_def filter_empty_conv list_ex_iff)
    ultimately show ?thesis
      using f by (auto simp: dangling_file_def file_up_for_closure_def)
  qed
  then have "update_where (dangling_file b d) (close_file ts) (files d) = update_where
      (\<lambda>f. f_fileId f \<in> set (map f_fileId ?sel) \<and> file_up_for_closure (f_fileId f) d f)
      (close_file ts) (files d)"
    by (rule update_where_cong)
  then show ?thesis
    unfolding updateDanglingFilesAsCompleted_result [OF wf] fold_attemptFileClosure files_closed_def
    by (simp only:)
qed

theorem updateDangling_is_closures_witness:
  "updateDanglingFilesAsCompleted 99 ''s1'' closable_db =
    (Inr (), snd (attemptFileClosure 99 ''f1'' closable_db))"
proof -
  have one: "map f_fileId (filter (\<lambda>f. f_syncId f = ''s1'' \<and> f_status f = IN_PROGRESS \<and>
       list_ex (\<lambda>e. e_fileId e = f_fileId f \<and> e_status e \<in> {E_COMPLETED, E_NOT_SYNCED}) (entities closable_db))
      (files closable_db)) = [''f1'']"
    by (simp add: example_dbs)
  show ?thesis
    unfolding updateDangling_is_closures [OF closable_db_wf, of 99 "''s1''"] one fold_simps ..
qed

subsection \<open>The transaction as a whole\<close>

lemma createRerun_joined:
  assumes wf: "db_wf d" and sch: "schema re = ''osm_sync_tracker''"
    and run: "createRerun re True Commits rr d = (Inr created, d')"
  defines "b \<equiv> rr_baseSyncId rr" and "t \<equiv> without_empty_files (rr_baseSyncId rr) d"
  shows "(created \<longleftrightarrow> \<not> closes_without_empty_files b d) \<and>
    (if created then d' = t\<lparr>syncs := syncs d @ [sync_row_of (rr_rerunSync rr)],
       files := rerun_files re rr t, entities := rerun_entities rr t,
       history := history t @ rerun_history rr t\<rparr>
     else d' = t\<lparr>syncs := update_where (\<lambda>s. s_id s = b \<and>
         s_totalFiles s = Some (int (length (completed_files b t))))
       (close_sync (now (re_env re))) (syncs d)\<rparr>)"
proof -
  obtain tx out where tx: "run (rerun_transaction re True rr) (d, d) = (Inr created, (tx, out))"
    and d': "d' = committed d (tx, out)"
    using run by (auto simp: createRerun_def split: prod.splits sum.splits)
  from rerun_transaction_joined [OF wf sch tx] have "out = d" by blast
  then have "d' = tx" unfolding d' by (simp add: committed_def filter_empty_conv)
  with rerun_transaction_joined [OF wf sch tx] show ?thesis unfolding b_def t_def by blast
qed

lemma rerun_files_ids:
  "map f_fileId (rerun_files re rr d) = map f_fileId (files d)"
  by (simp add: rerun_files_def map_update_where_key)







lemma createRerun_unchanged:
  assumes wf: "db_wf d" and run: "createRerun re True outcome rr d = (Inl e, d')"
  shows "d' = d" and "\<not> isTransactionFailure e"
proof -
  obtain r tx out where tx: "run (rerun_transaction re True rr) (d, d) = (r, (tx, out))"
    by (metis prod.exhaust)
  have "tx_inv True d (d, d)" using wf by (simp add: tx_inv_def)
  from keeps_run [OF rerun_transaction_keeps this] have "tx_inv True d (tx, out)"
    using tx by (metis snd_conv)
  then have "out = d" by (simp add: tx_inv_def)
  moreover have "\<not> isTransactionFailure (transaction_error x)" for x
    by (simp add: transaction_error_def)
  ultimately show "d' = d" and "\<not> isTransactionFailure e"
    using run tx by (auto simp: createRerun_def split: tx_outcome.splits sum.splits)
qed



text \<open>The state outside the transaction when the repository's statements do not join it.\<close>

lemma in_tx_out: "in_tx m s = (r, t) \<Longrightarrow> snd t = snd s"
  by (auto simp: in_tx_def split: prod.splits)

lemma rerun_steps_out:
  assumes "run (rerun_steps re False rr) s = (Inr created, t)"
  shows "created \<and> snd t = (snd s)\<lparr>syncs := syncs (snd s) @ [sync_row_of (rr_rerunSync rr)]\<rparr>"
proof -
  from assms [unfolded rerun_steps_def Let_def] obtain x1 s1 where
    1: "on_this False (findOneSyncWithLastRerun (rr_baseSyncId rr)) s = (Inr x1, s1)"
    and r1: "run (await (in_tx (createEntityHistory (rr_baseSyncId rr) (latest_rerun_or_sync (rr_baseSyncId rr) x1)
          (if latest_rerun_or_sync (rr_baseSyncId rr) x1 = rr_baseSyncId rr then None else Some (rr_baseSyncId rr))))
        (\<lambda>_. await (if rr_shouldRerunNotSynced rr
               then in_tx (prepareIncompleteFiles (rr_baseSyncId rr))
               else in_tx (updateDanglingFilesAsCompleted (now (re_env re)) (rr_baseSyncId rr)))
        (\<lambda>_. await (in_tx (prepareIncompleteEntities (rr_baseSyncId rr)
               (entityStatusesForRerun (rr_shouldRerunNotSynced rr))))
        (\<lambda>_. await (on_this False (createSync_row (rr_rerunSync rr))) (\<lambda>_. return True))))) s1 =
      (Inr created :: js_error + bool, t)"
    by (rule run_await_InrE)
  from r1 obtain x2 s2 where 2: "in_tx (createEntityHistory (rr_baseSyncId rr) (latest_rerun_or_sync (rr_baseSyncId rr) x1)
          (if latest_rerun_or_sync (rr_baseSyncId rr) x1 = rr_baseSyncId rr then None else Some (rr_baseSyncId rr))) s1 = (Inr x2, s2)"
    and r2: "run (await (if rr_shouldRerunNotSynced rr
               then in_tx (prepareIncompleteFiles (rr_baseSyncId rr))
               else in_tx (updateDanglingFilesAsCompleted (now (re_env re)) (rr_baseSyncId rr)))
        (\<lambda>_. await (in_tx (prepareIncompleteEntities (rr_baseSyncId rr)
               (entityStatusesForRerun (rr_shouldRerunNotSynced rr))))
        (\<lambda>_. await (on_this False (createSync_row (rr_rerunSync rr))) (\<lambda>_. return True)))) s2 =
      (Inr created :: js_error + bool, t)"
    by (rule run_await_InrE)
  from r2 obtain x3 s3 where 3: "(if rr_shouldRerunNotSynced rr
               then in_tx (prepareIncompleteFiles (rr_baseSyncId rr))
               else in_tx (updateDanglingFilesAsCompleted (now (re_env re)) (rr_baseSyncId rr))) s2 = (Inr x3, s3)"
    and r3: "run (await (in_tx (prepareIncompleteEntities (rr_baseSyncId rr)
               (entityStatusesForRerun (rr_shouldRerunNotSynced rr))))
        (\<lambda>_. await (on_this False (createSync_row (rr_rerunSync rr))) (\<lambda>_. return True))) s3 =
      (Inr created :: js_error + bool, t)"
    by (rule run_await_InrE)
  from r3 obtain x4 s4 where 4: "in_tx (prepareIncompleteEntities (rr_baseSyncId rr)
               (entityStatusesForRerun (rr_shouldRerunNotSynced rr))) s3 = (Inr x4, s4)"
    and r4: "run (await (on_this False (createSync_row (rr_rerunSync rr))) (\<lambda>_. return True)) s4 =
      (Inr created :: js_error + bool, t)"
    by (rule run_await_InrE)
  have "snd s1 = snd s" using 1
    by (auto simp: on_this_def findOneSyncWithLastRerun_def reading_def split: prod.splits)
  with in_tx_out [OF 2] in_tx_out [OF 4] in_tx_out [of _ s2 "Inr x3" s3] 3
  have s4: "snd s4 = snd s" by (auto split: if_splits)
  from r4 show ?thesis
    unfolding s4 [symmetric]
    by (auto simp: on_this_def createSync_row_Inr_iff split: prod.splits sum.splits)
qed

text \<open>
  When the repository's own statements do not join the transaction, a rerun whose commit
  fails is not atomic: the caller gets the error, and the sync of the rerun stays in the database.
\<close>

lemma createRerun_orphan:
  assumes "createRerun re False Commits rr d = (Inr True, d')"
  shows "createRerun re False (Commit_fails e) rr d =
    (Inl (transaction_error e), d\<lparr>syncs := syncs d @ [sync_row_of (rr_rerunSync rr)]\<rparr>)"
proof -
  obtain tx out where tx: "run (rerun_transaction re False rr) (d, d) = (Inr True, (tx, out))"
    using assms by (auto simp: createRerun_def split: prod.splits sum.splits)
  have "\<exists>t. snd t = d \<and> run (rerun_steps re False rr) t = (Inr True, (tx, out))"
    using tx unfolding rerun_transaction_def
    by (auto simp: in_tx_def split: if_splits prod.splits sum.splits)
  then have "out = d\<lparr>syncs := syncs d @ [sync_row_of (rr_rerunSync rr)]\<rparr>"
    using rerun_steps_out by fastforce
  with tx show ?thesis by (simp add: createRerun_def)
qed

lemma createRerun_orphan_example:
  "createRerun example_rerun_env False (Commit_fails (OtherError ''connection lost'')) (example_rerun False) failed_db =
    (Inl (OtherError ''connection lost''), failed_db\<lparr>syncs := syncs failed_db @
      [sync_row_of (rr_rerunSync (example_rerun False))]\<rparr>)"
proof -
  have "createRerun example_rerun_env False Commits (example_rerun False) failed_db = (Inr True,
      snd (createRerun example_rerun_env False Commits (example_rerun False) failed_db))" by code_simp
  from createRerun_orphan [OF this, of "OtherError ''connection lost''"] show ?thesis
    by (simp add: transaction_error_def)
qed

end
