(* ===== verification/Sync_Manager.thy ===== *)
theory Sync_Manager
  imports Rerun_Outcome
begin

text \<open>
  \<^verbatim>\<open>src/src/sync/models/syncManager.ts\<close>, without the closures (a queue's client).
\<close>

definition getSyncs :: "syncs_filter \<Rightarrow> (js_error, store, sync_row list) prog" where
  "getSyncs w = await (filterSyncs w) return"

definition getLatestSync :: "int \<Rightarrow> geometry_type \<Rightarrow> (js_error, store, sync_row) prog" where
  "getLatestSync layerId geometryType =
     await (getLatestSync_row layerId geometryType) (\<lambda>latestSync.
     case latestSync of
       None \<Rightarrow> throw (LatestSyncNotFoundError layerId geometryType)
     | Some s \<Rightarrow> return s)"

definition createSync :: "sync_body \<Rightarrow> (js_error, store, unit) prog" where
  "createSync sync =
     await (findOneSync (sb_id sync)) (\<lambda>syncEntity.
     case syncEntity of
       Some s \<Rightarrow> throw (SyncAlreadyExistsError (s_id s))
     | None \<Rightarrow>
         if sb_isFull sync
         then await (findSyncs \<lparr>sp_layerId = Some (sb_layerId sync),
                sp_geometryType = Some (sb_geometryType sync), sp_isFull = Some (sb_isFull sync),
                sp_baseSyncId = None\<rparr>) (\<lambda>alreadyExistingFullSync.
              case alreadyExistingFullSync of
                existing # _ \<Rightarrow> throw (FullSyncAlreadyExistsError (sb_layerId sync)
                  (sb_geometryType sync) (s_id existing))
              | [] \<Rightarrow> await (createSync_row sync) (\<lambda>_. return ()))
         else await (createSync_row sync) (\<lambda>_. return ()))"

text \<open>Spreading \<open>null\<close> or \<open>undefined\<close> adds no property.\<close>

definition json_properties :: "json_object js \<Rightarrow> json_object" where
  "json_properties m = (case m of Given ps \<Rightarrow> ps | _ \<Rightarrow> [])"

definition updateSync :: "env \<Rightarrow> string \<Rightarrow> sync_update \<Rightarrow> (js_error, store, unit) prog" where
  "updateSync env syncId updatedSync =
     await (findOneSync syncId) (\<lambda>currentSync.
     case currentSync of
       None \<Rightarrow> throw (SyncNotFoundError syncId)
     | Some current \<Rightarrow>
         await (updateSync_row env syncId (updatedSync\<lparr>su_metadata := Given
            (spread (json_properties (of_nullable (s_metadata current)))
              (json_properties (su_metadata updatedSync)))\<rparr>)) (\<lambda>_. return ()))"

text \<open>\<open>rerunSyncForCreation\<close>: the base sync's properties, those of the rerun over them.\<close>

definition rerunSyncForCreation :: "sync_row \<Rightarrow> string \<Rightarrow> int \<Rightarrow> date \<Rightarrow> bool option \<Rightarrow> rerun_request" where
  "rerunSyncForCreation base rerunId runNumber startDate shouldRerunNotSynced =
     \<lparr>rr_rerunId = rerunId, rr_baseSyncId = s_id base,
      rr_rerunSync = \<lparr>sb_id = rerunId, sb_dumpDate = s_dumpDate base, sb_startDate = startDate,
        sb_endDate = Null, sb_status = Some IN_PROGRESS, sb_layerId = s_layerId base,
        sb_isFull = s_isFull base, sb_totalFiles = of_nullable (s_totalFiles base),
        sb_geometryType = s_geometryType base, sb_baseSyncId = Given (s_id base),
        sb_runNumber = Some runNumber, sb_metadata = of_nullable (s_metadata base)\<rparr>,
      rr_shouldRerunNotSynced = (case shouldRerunNotSynced of None \<Rightarrow> False | Some b \<Rightarrow> b)\<rparr>"

definition rerunSyncIfNeeded ::
  "rerun_env \<Rightarrow> bool \<Rightarrow> tx_outcome \<Rightarrow> string \<Rightarrow> string \<Rightarrow> date \<Rightarrow> bool option \<Rightarrow>
    (js_error, store, bool) prog" where
  "rerunSyncIfNeeded re joins outcome syncId rerunId startDate shouldRerunNotSynced =
     await (findOneSync rerunId) (\<lambda>rerunEntity.
     case rerunEntity of
       Some _ \<Rightarrow> throw (RerunAlreadyExistsError rerunId)
     | None \<Rightarrow>
         await (findOneSyncWithLastRerun syncId) (\<lambda>baseSyncWithLastRerun.
         case baseSyncWithLastRerun of
           None \<Rightarrow> throw (SyncNotFoundError syncId)
         | Some (base, reruns) \<Rightarrow>
             if s_runNumber base \<noteq> 0 \<or> s_status base \<noteq> FAILED
             then throw (InvalidSyncForRerunError syncId None)
             else (case reruns of
                 [] \<Rightarrow> await (createRerun re joins outcome
                   (rerunSyncForCreation base rerunId 1 startDate shouldRerunNotSynced)) return
               | latestRerun # _ \<Rightarrow>
                   if s_status latestRerun \<noteq> FAILED
                   then throw (InvalidSyncForRerunError syncId
                     (Some (s_status latestRerun, s_id latestRerun)))
                   else await (createRerun re joins outcome
                     (rerunSyncForCreation base rerunId (s_runNumber latestRerun + 1) startDate
                       shouldRerunNotSynced)) return)))"

section \<open>Invariant\<close>

lemma keeps_case_list [inv_intros]:
  "keeps I p \<Longrightarrow> (\<And>y ys. keeps I (q y ys)) \<Longrightarrow> keeps I (case xs of [] \<Rightarrow> p | y # ys \<Rightarrow> q y ys)"
  by (cases xs) simp_all

lemma sync_manager_keeps [inv_intros]:
  "keeps db_wf (getSyncs w)"
  "keeps db_wf (getLatestSync l g)"
  "keeps db_wf (createSync b)"
  "keeps db_wf (updateSync env syncId u)"
  "keeps db_wf (rerunSyncIfNeeded re joins outcome syncId rerunId startDate flag)"
  unfolding getSyncs_def getLatestSync_def createSync_def updateSync_def rerunSyncIfNeeded_def
    case_prod_unfold
  by (intro inv_intros | assumption)+

section \<open>Results\<close>

lemma getLatestSync_row_query [queries]:
  "getLatestSync_row l g d = (Inr (case sort_key (\<lambda>s. (- s_dumpDate s, - s_startDate s))
     (filter (latest_candidate l g) (syncs d)) of [] \<Rightarrow> None | s # _ \<Rightarrow> Some s), d)"
  by (simp add: getLatestSync_row_def reading_def)

text \<open>The head of a sorted list is a least element of the list that was sorted.\<close>

lemma sort_key_head:
  assumes "sort_key k xs = y # ys"
  shows "y \<in> set xs \<and> (\<forall>x \<in> set xs. k y \<le> k x)"
proof -
  have "set (sort_key k xs) = set xs" "sorted (map k (sort_key k xs))" by simp_all
  with assms show ?thesis by auto
qed

lemma getLatestSync_run:
  "case run (getLatestSync l g) d of
     (Inr s, t) \<Rightarrow> t = d \<and> s \<in> set (syncs d) \<and> latest_candidate l g s \<and>
       (\<forall>s' \<in> set (syncs d). latest_candidate l g s' \<longrightarrow>
          s_dumpDate s' < s_dumpDate s \<or>
          s_dumpDate s' = s_dumpDate s \<and> s_startDate s' \<le> s_startDate s)
   | (Inl e, t) \<Rightarrow> t = d \<and> e = LatestSyncNotFoundError l g \<and>
       (\<forall>s \<in> set (syncs d). \<not> latest_candidate l g s)"
proof (cases "sort_key (\<lambda>s. (- s_dumpDate s, - s_startDate s)) (filter (latest_candidate l g) (syncs d))")
  case Nil
  then have "filter (latest_candidate l g) (syncs d) = []"
    by (metis length_0_conv length_sort)
  with Nil show ?thesis by (simp add: getLatestSync_def queries filter_empty_conv)
next
  case (Cons s ss)
  with sort_key_head [OF Cons] show ?thesis
    by (auto simp: getLatestSync_def queries less_eq_prod_def)
qed

lemma reruns_sorted_head:
  assumes "last_rerun b ss = r # rs"
  shows "r \<in> set ss \<and> s_baseSyncId r = Some b \<and> rs = [] \<and>
    (\<forall>r' \<in> set ss. s_baseSyncId r' = Some b \<longrightarrow> s_runNumber r' \<le> s_runNumber r)"
proof (cases "sort_key (\<lambda>s. - s_runNumber s) (filter (\<lambda>s. s_baseSyncId s = Some b) ss)")
  case Nil
  with assms show ?thesis by (simp add: last_rerun_def)
next
  case (Cons y ys)
  with assms have "y = r" "rs = []" by (simp_all add: last_rerun_def)
  with sort_key_head [OF Cons] show ?thesis by auto
qed

lemma last_rerun_Nil: "last_rerun b ss = [] \<longleftrightarrow> (\<forall>s \<in> set ss. s_baseSyncId s \<noteq> Some b)"
proof -
  have "last_rerun b ss = [] \<longleftrightarrow>
      sort_key (\<lambda>s. - s_runNumber s) (filter (\<lambda>s. s_baseSyncId s = Some b) ss) = []"
    by (simp add: last_rerun_def)
  also have "\<dots> \<longleftrightarrow> filter (\<lambda>s. s_baseSyncId s = Some b) ss = []"
    by (metis length_0_conv length_sort)
  finally show ?thesis by (simp add: filter_empty_conv)
qed

lemma findOneSyncWithLastRerun_query [queries]:
  "findOneSyncWithLastRerun k d =
    (Inr (map_option (\<lambda>s. (s, last_rerun k (syncs d))) (table_map s_id (syncs d) k)), d)"
  by (simp add: findOneSyncWithLastRerun_def reading_def table_map_def)

lemma createSync_row_ok:
  assumes "sync_typed (sync_row_of b)" and "ref_ok s_id (syncs d @ [sync_row_of b]) (to_nullable (sb_baseSyncId b))"
    and "sb_id b \<notin> s_id ` set (syncs d)"
  shows "createSync_row b d = (Inr (), d\<lparr>syncs := syncs d @ [sync_row_of b]\<rparr>)"
  using assms unfolding createSync_row_Inr_iff sql_insert_Inr_iff
  by (simp add: sync_row_of_def sync_fk_def)

text \<open>The guard a full sync adds: no other full sync of the layer and geometry type.\<close>

definition full_syncs :: "int \<Rightarrow> geometry_type \<Rightarrow> store \<Rightarrow> sync_row list" where
  "full_syncs l g d = filter (\<lambda>s. s_layerId s = l \<and> s_geometryType s = g \<and> s_isFull s) (syncs d)"

lemma createSync_run:
  assumes "sync_typed (sync_row_of b)"
    and "ref_ok s_id (syncs d @ [sync_row_of b]) (to_nullable (sb_baseSyncId b))"
  shows "run (createSync b) d =
    (if sb_id b \<in> s_id ` set (syncs d) then (Inl (SyncAlreadyExistsError (sb_id b)), d)
     else if sb_isFull b \<and> full_syncs (sb_layerId b) (sb_geometryType b) d \<noteq> []
     then (Inl (FullSyncAlreadyExistsError (sb_layerId b) (sb_geometryType b)
       (s_id (hd (full_syncs (sb_layerId b) (sb_geometryType b) d)))), d)
     else (Inr (), d\<lparr>syncs := syncs d @ [sync_row_of b]\<rparr>))"
proof (cases "table_map s_id (syncs d) (sb_id b)")
  case (Some s)
  then have "s_id s = sb_id b" by (auto dest: table_map_SomeD)
  with Some show ?thesis by (simp add: createSync_def queries in_keys_iff)
next
  case None
  then have create: "createSync_row b d = (Inr (), d\<lparr>syncs := syncs d @ [sync_row_of b]\<rparr>)"
    using assms by (intro createSync_row_ok) (auto simp: in_keys_iff)
  have find: "findSyncs \<lparr>sp_layerId = Some l, sp_geometryType = Some g, sp_isFull = Some True,
      sp_baseSyncId = None\<rparr> d = (Inr (full_syncs l g d), d)" for l g
    by (simp add: findSyncs_def reading_def where_ok_def full_syncs_def)
  show ?thesis
    using None create
    by (simp add: createSync_def sync_repo.find_one_row in_keys_iff find
        split: list.splits)
qed

lemma updateSync_run:
  "run (updateSync env syncId u) d =
    (case table_map s_id (syncs d) syncId of
       None \<Rightarrow> (Inl (SyncNotFoundError syncId), d)
     | Some s \<Rightarrow> updateSync_row env syncId (u\<lparr>su_metadata := Given
         (spread (case s_metadata s of None \<Rightarrow> [] | Some m \<Rightarrow> m) (json_properties (su_metadata u)))\<rparr>) d)"
  by (auto simp: updateSync_def queries json_properties_def split: option.splits prod.splits sum.splits)


section \<open>Properties\<close>

text \<open>
  C29: the latest sync of a layer and geometry type is an original sync (run number 0) that is
  no fix of a difference, or failed; no such sync has a later dump date, or the same dump date and
  a later start date.  When there is none the request fails, and nothing is written either way.
\<close>

theorem getLatestSync_latest:
  fixes l :: int and g :: geometry_type and d :: store
  defines "candidate s \<equiv> s_layerId s = l \<and> s_geometryType s = g \<and> s_runNumber s = 0 \<and>
    (s_status s = FAILED \<or> (case s_metadata s of None \<Rightarrow> True
      | Some m \<Rightarrow> map_of m ''isFixDiff'' \<noteq> Some (JStr ''true'')))"
  shows "\<exists>r. run (getLatestSync l g) d = (r, d) \<and>
    (case r of
       Inr s \<Rightarrow> s \<in> set (syncs d) \<and> candidate s \<and>
         \<not> (\<exists>s' \<in> set (syncs d). candidate s' \<and> (s_dumpDate s < s_dumpDate s' \<or>
            s_dumpDate s = s_dumpDate s' \<and> s_startDate s < s_startDate s'))
     | Inl e \<Rightarrow> e = LatestSyncNotFoundError l g \<and> \<not> (\<exists>s \<in> set (syncs d). candidate s))"
proof -
  have "latest_candidate l g s \<longleftrightarrow> candidate s" for s
    by (auto simp: latest_candidate_def candidate_def is_fix_diff_def split: option.splits)
  with getLatestSync_run [where l = l and g = g and d = d] show ?thesis
    by (cases "run (getLatestSync l g) d"; cases "fst (run (getLatestSync l g) d)") fastforce+
qed

text \<open>
  Creating a sync fails when its identifier is taken, and a full sync also when its layer
  and geometry type have one; otherwise its row, with the defaults of the absent columns, is
  appended and nothing else changes.
\<close>

lemma createSync_branches:
  assumes "int4 (sb_layerId b) \<and> int4_null (to_nullable (sb_totalFiles b)) \<and> int4_null (sb_runNumber b)"
    and "to_nullable (sb_baseSyncId b) \<in> insert None (Some ` s_id ` set (syncs d))"
  shows "run (createSync b) d =
    (let full = filter (\<lambda>s. s_layerId s = sb_layerId b \<and> s_geometryType s = sb_geometryType b \<and> s_isFull s) (syncs d)
     in if \<exists>s \<in> set (syncs d). s_id s = sb_id b then (Inl (SyncAlreadyExistsError (sb_id b)), d)
     else if sb_isFull b \<and> full \<noteq> []
     then (Inl (FullSyncAlreadyExistsError (sb_layerId b) (sb_geometryType b) (s_id (hd full))), d)
     else (Inr (), d\<lparr>syncs := syncs d @
       [\<lparr>s_id = sb_id b, s_dumpDate = sb_dumpDate b, s_startDate = sb_startDate b,
         s_endDate = to_nullable (sb_endDate b),
         s_status = (case sb_status b of None \<Rightarrow> IN_PROGRESS | Some st \<Rightarrow> st),
         s_layerId = sb_layerId b, s_isFull = sb_isFull b, s_totalFiles = to_nullable (sb_totalFiles b),
         s_geometryType = sb_geometryType b, s_baseSyncId = to_nullable (sb_baseSyncId b),
         s_runNumber = (case sb_runNumber b of None \<Rightarrow> 0 | Some n \<Rightarrow> n),
         s_metadata = to_nullable (sb_metadata b)\<rparr>]\<rparr>))"
proof -
  have patch: "patch_col x y = (case y of None \<Rightarrow> x | Some z \<Rightarrow> z)" for x and y :: "'a option"
    by (cases y) simp_all
  have typed: "sync_typed (sync_row_of b)"
    using assms(1) by (cases "sb_runNumber b") (auto simp: sync_typed_def sync_row_of_def int4_def)
  have "ref_ok s_id (syncs d @ [sync_row_of b]) (to_nullable (sb_baseSyncId b))"
    using assms(2) by (auto simp: ref_ok_def split: option.splits)
  moreover have "sb_id b \<in> s_id ` set (syncs d) \<longleftrightarrow> (\<exists>s \<in> set (syncs d). s_id s = sb_id b)" by force
  ultimately show ?thesis
    using createSync_run [OF typed, of d]
    by (simp add: full_syncs_def Let_def sync_row_of_def patch)
qed

definition example_sync :: "string \<Rightarrow> bool \<Rightarrow> sync_body" where
  "example_sync k full = \<lparr>sb_id = k, sb_dumpDate = 10, sb_startDate = 20, sb_endDate = Undefined,
     sb_status = None, sb_layerId = 7, sb_isFull = full, sb_totalFiles = Undefined,
     sb_geometryType = POLYGON, sb_baseSyncId = Undefined, sb_runNumber = None, sb_metadata = Undefined\<rparr>"

text \<open>
  C30: a patch of a sync changes that row alone; the metadata afterwards is the stored metadata
  with every property of the patch over it, and every other column takes the patch's value where
  the patch has one.
\<close>

theorem updateSync_merges:
  assumes wf: "db_wf d" and s: "s \<in> set (syncs d)" "s_id s = k"
    and typed: "int4_null (su_layerId u) \<and> int4_null (to_nullable (su_totalFiles u)) \<and> int4_null (su_runNumber u)"
    and base: "to_nullable (su_baseSyncId u) \<in> insert None (Some ` s_id ` set (syncs d))"
    and patch: "su_metadata u = Given ps \<and> distinct (map fst ps)"
  shows "\<exists>s'. run (updateSync env k u) d =
      (Inr (), d\<lparr>syncs := map (\<lambda>t. if t = s then s' else t) (syncs d)\<rparr>) \<and>
    s_id s' = k \<and> s_isFull s' = s_isFull s \<and>
    s_status s' = (case su_status u of None \<Rightarrow> s_status s | Some st \<Rightarrow> st) \<and>
    s_totalFiles s' = (case su_totalFiles u of Undefined \<Rightarrow> s_totalFiles s | Null \<Rightarrow> None | Given n \<Rightarrow> Some n) \<and>
    (\<exists>m. s_metadata s' = Some m \<and>
       map_of m = (case s_metadata s of None \<Rightarrow> Map.empty | Some old \<Rightarrow> map_of old) ++ map_of ps)"
proof -
  define m where "m = spread (case s_metadata s of None \<Rightarrow> [] | Some old \<Rightarrow> old) ps"
  define u' where "u' = u\<lparr>su_metadata := Given m\<rparr>"
  have row: "table_map s_id (syncs d) k = Some s"
    using s by (simp add: table_map_Some db_wfD(1) [OF wf])
  have one: "t = s \<longleftrightarrow> s_id t = k" if "t \<in> set (syncs d)" for t
    using distinct_key_eq [OF db_wfD(1) [OF wf] that s(1)] s(2) by auto
  let ?ss = "update_where (\<lambda>t. s_id t = k) (update_sync_row u') (syncs d)"
  have "?ss = map (\<lambda>t. if t = s then update_sync_row u' s else t) (syncs d)"
    unfolding update_where_def by (intro map_cong [OF HOL.refl]) (use one in auto)
  moreover have "u' \<noteq> no_sync_update"
  proof
    assume "u' = no_sync_update"
    then have "su_metadata u' = su_metadata no_sync_update" by (rule arg_cong)
    then show False by (simp add: u'_def no_sync_update_def)
  qed
  moreover have "sql_update (sync_update_typed u') (\<lambda>ss _. ref_ok s_id ss (to_nullable (su_baseSyncId u')))
      (\<lambda>t. s_id t = k) (update_sync_row u') (syncs d) = Inr ?ss"
    using typed base unfolding sql_update_Inr_iff
    by (auto simp: sync_update_typed_def u'_def ref_ok_def image_key_update_where split: option.splits)
  ultimately have "run (updateSync env k u) d =
      (Inr (), d\<lparr>syncs := map (\<lambda>t. if t = s then update_sync_row u' s else t) (syncs d)\<rparr>)"
    using row patch
    by (simp add: updateSync_run json_properties_def m_def [symmetric] u'_def [symmetric]
        updateSync_row_def writing_def put_syncs_def)
  moreover have "map_of m = (case s_metadata s of None \<Rightarrow> Map.empty | Some old \<Rightarrow> map_of old) ++ map_of ps"
    using patch by (simp add: m_def map_of_spread map_of_rev_distinct split: option.splits)
  ultimately show ?thesis
    using s(2) by (intro exI [of _ "update_sync_row u' s"])
      (auto simp: update_sync_row_def u'_def split: option.splits js.splits)
qed

definition a_patch :: "json_object \<Rightarrow> sync_update" where
  "a_patch ps = no_sync_update\<lparr>su_status := Some FAILED, su_metadata := Given ps\<rparr>"

theorem updateSync_merges_witness:
  "\<exists>s'. run (updateSync example_env ''s1'' (a_patch [(''k'', JNum 1)])) closable_db =
      (Inr (), closable_db\<lparr>syncs := [s']\<rparr>) \<and> s_status s' = FAILED \<and> s_totalFiles s' = Some 2 \<and>
    (\<exists>m. s_metadata s' = Some m \<and> map_of m ''k'' = Some (JNum 1))"
proof -
  let ?s = "a_sync ''s1'' IN_PROGRESS (Some 2) None 0"
  have "?s \<in> set (syncs closable_db)" "s_id ?s = ''s1''" by (simp_all add: example_dbs)
  from updateSync_merges [OF closable_db_wf this, of "a_patch [(''k'', JNum 1)]" "[(''k'', JNum 1)]"
      example_env]
  obtain s' where "run (updateSync example_env ''s1'' (a_patch [(''k'', JNum 1)])) closable_db =
      (Inr (), closable_db\<lparr>syncs := map (\<lambda>t. if t = ?s then s' else t) (syncs closable_db)\<rparr>)"
    "s_status s' = FAILED" "s_totalFiles s' = Some 2"
    and m: "\<exists>m. s_metadata s' = Some m \<and> map_of m = Map.empty ++ map_of [(''k'', JNum 1)]"
    by (auto simp: a_patch_def no_sync_update_def example_rows)
  moreover have "map (\<lambda>t. if t = ?s then s' else t) (syncs closable_db) = [s']"
    by (simp add: closable_db_def a_store_def)
  moreover from m have "\<exists>m. s_metadata s' = Some m \<and> map_of m ''k'' = Some (JNum 1)" by auto
  ultimately show ?thesis by auto
qed

text \<open>
  The sync a rerun request is about: an original sync that failed and whose latest rerun, if any,
  failed; the run number the new rerun gets is one more than the greatest.
\<close>

definition rerun_number :: "string \<Rightarrow> store \<Rightarrow> int" where
  "rerun_number k d = (case last_rerun k (syncs d) of [] \<Rightarrow> 1 | r # _ \<Rightarrow> s_runNumber r + 1)"

lemma rerunSyncIfNeeded_run:
  "run (rerunSyncIfNeeded re joins outcome k rerunId date flag) d =
    (if rerunId \<in> s_id ` set (syncs d) then (Inl (RerunAlreadyExistsError rerunId), d)
     else (case table_map s_id (syncs d) k of
        None \<Rightarrow> (Inl (SyncNotFoundError k), d)
      | Some base \<Rightarrow>
          if s_runNumber base \<noteq> 0 \<or> s_status base \<noteq> FAILED then (Inl (InvalidSyncForRerunError k None), d)
          else (case last_rerun k (syncs d) of
              r # _ \<Rightarrow> if s_status r \<noteq> FAILED then (Inl (InvalidSyncForRerunError k (Some (s_status r, s_id r))), d)
                else createRerun re joins outcome (rerunSyncForCreation base rerunId (rerun_number k d) date flag) d
            | [] \<Rightarrow> createRerun re joins outcome (rerunSyncForCreation base rerunId (rerun_number k d) date flag) d)))"
  by (cases "table_map s_id (syncs d) rerunId"; cases "table_map s_id (syncs d) k";
      cases "last_rerun k (syncs d)")
    (auto simp: rerunSyncIfNeeded_def queries in_keys_iff rerun_number_def
      split: prod.splits sum.splits)

lemma rerunSyncIfNeeded_createdE:
  assumes "run (rerunSyncIfNeeded re joins outcome k rerunId date flag) d = (Inr True, d')"
  obtains base where "rerunId \<notin> s_id ` set (syncs d)" "table_map s_id (syncs d) k = Some base"
    "s_runNumber base = 0" "s_status base = FAILED"
    "case last_rerun k (syncs d) of r # _ \<Rightarrow> s_status r = FAILED | [] \<Rightarrow> True"
    "createRerun re joins outcome (rerunSyncForCreation base rerunId (rerun_number k d) date flag) d =
      (Inr True, d')"
  using assms unfolding rerunSyncIfNeeded_run by (auto split: if_splits option.splits list.splits)



text \<open>
  C17: a rerun request that is refused has written nothing, and the error says why: the
  identifier is taken, the sync is unknown, or the sync or its latest rerun did not fail.
\<close>

theorem rerunSyncIfNeeded_refuses:
  defines "request re joins outcome k rerunId date flag \<equiv>
    run (rerunSyncIfNeeded re joins outcome k rerunId date flag)"
  shows "(rerunId \<in> s_id ` set (syncs d) \<longrightarrow>
      request re joins outcome k rerunId date flag d = (Inl (RerunAlreadyExistsError rerunId), d)) \<and>
    (rerunId \<notin> s_id ` set (syncs d) \<and> k \<notin> s_id ` set (syncs d) \<longrightarrow>
      request re joins outcome k rerunId date flag d = (Inl (SyncNotFoundError k), d)) \<and>
    (rerunId \<notin> s_id ` set (syncs d) \<and> table_map s_id (syncs d) k = Some base \<and>
        (s_runNumber base \<noteq> 0 \<or> s_status base \<noteq> FAILED) \<longrightarrow>
      request re joins outcome k rerunId date flag d = (Inl (InvalidSyncForRerunError k None), d)) \<and>
    (rerunId \<notin> s_id ` set (syncs d) \<and> table_map s_id (syncs d) k = Some base \<and>
        s_runNumber base = 0 \<and> s_status base = FAILED \<and>
        last_rerun k (syncs d) = [latest] \<and> s_status latest \<noteq> FAILED \<longrightarrow>
      request re joins outcome k rerunId date flag d =
        (Inl (InvalidSyncForRerunError k (Some (s_status latest, s_id latest))), d))"
  unfolding request_def rerunSyncIfNeeded_run
  by (auto simp: in_keys_iff)

theorem rerunSyncIfNeeded_refuses_witness:
  "run (rerunSyncIfNeeded example_rerun_env True Commits ''s1'' ''s1'' 30 None) failed_db =
     (Inl (RerunAlreadyExistsError ''s1''), failed_db) \<and>
   run (rerunSyncIfNeeded example_rerun_env True Commits ''s9'' ''r1'' 30 None) failed_db =
     (Inl (SyncNotFoundError ''s9''), failed_db)"
  using rerunSyncIfNeeded_refuses [of "''s1''" failed_db example_rerun_env True Commits "''s1''" 30 None]
    rerunSyncIfNeeded_refuses [of "''r1''" failed_db example_rerun_env True Commits "''s9''" 30 None]
  by (simp add: example_dbs)

end
