(* ===== verification/Controllers.thy ===== *)
theory Controllers
  imports Changeset_Manager File_Manager Entity_Manager Sync_Manager Job_Queue
begin

text \<open>
  The request handlers of the four controllers.  A handler runs its manager inside a \<open>try\<close>: it
  sends a status, or passes the error on with the status it attached to it.  \<open>instanceof\<close> is a
  match on the constructor of the error.
\<close>

datatype 'j body = StatusText int | Json 'j

definition responding ::
  "('a \<Rightarrow> 'b response) \<Rightarrow> (js_error \<Rightarrow> int option) \<Rightarrow> (js_error, 's, 'a) prog \<Rightarrow>
    (js_error, 's, 'b response) prog" where
  "responding ok status_of p =
     settle (\<lambda>r. case r of
         Inr x \<Rightarrow> return (ok x)
       | Inl e \<Rightarrow> return (Next e (status_of e))) p"

abbreviation send_text :: "int \<Rightarrow> 'a \<Rightarrow> 'j body response" where
  "send_text status \<equiv> (\<lambda>_. Send status (StatusText status))"

abbreviation send_json :: "int \<Rightarrow> 'j \<Rightarrow> 'j body response" where
  "send_json status \<equiv> (\<lambda>x. Send status (Json x))"

section \<open>changesetController.ts\<close>

fun post_changeset_status :: "js_error \<Rightarrow> int option" where
  "post_changeset_status (ChangesetAlreadyExistsError _) = Some CONFLICT"
| "post_changeset_status _ = None"

fun changeset_status :: "js_error \<Rightarrow> int option" where
  "changeset_status (ChangesetNotFoundError _) = Some NOT_FOUND"
| "changeset_status _ = None"

definition postChangeset :: "changeset_body \<Rightarrow> (js_error, store, unit body response) prog" where
  "postChangeset body =
     responding (send_text CREATED) post_changeset_status (createChangeset_request body)"

definition getChangeset_handler ::
  "string \<Rightarrow> (js_error, store, changeset_row body response) prog" where
  "getChangeset_handler changesetId =
     responding (send_json OK) changeset_status (getChangeset changesetId)"

definition patchChangeset ::
  "env \<Rightarrow> string \<Rightarrow> changeset_update \<Rightarrow> (js_error, store, unit body response) prog" where
  "patchChangeset env changesetId body =
     responding (send_text OK) changeset_status (updateChangeset env changesetId body)"

definition patchChangesetEntities :: "string \<Rightarrow> (js_error, store, unit body response) prog" where
  "patchChangesetEntities changesetId =
     responding (send_text OK) changeset_status (updateChangesetEntities changesetId)"

definition postChangesetsClosure ::
  "(job_data list \<Rightarrow> (js_error, 'q, unit) stmt) \<Rightarrow> string list \<Rightarrow> (js_error, 'q, unit body response) prog"
where
  "postChangesetsClosure changesetsQueue changesetIds =
     responding (send_text CREATED) (\<lambda>_. None) (createChangesetClosures changesetsQueue changesetIds)"

section \<open>fileController.ts\<close>

fun post_file_status :: "js_error \<Rightarrow> int option" where
  "post_file_status (FileAlreadyExistsError _) = Some CONFLICT"
| "post_file_status (ConflictingRerunFileError _) = Some CONFLICT"
| "post_file_status e = (if is_sync_not_found e then Some NOT_FOUND else None)"

fun post_files_status :: "js_error \<Rightarrow> int option" where
  "post_files_status (FileAlreadyExistsError _) = Some CONFLICT"
| "post_files_status (DuplicateFilesError _) = Some CONFLICT"
| "post_files_status e = (if is_sync_not_found e then Some NOT_FOUND else None)"

fun patch_file_status :: "js_error \<Rightarrow> int option" where
  "patch_file_status (FileNotFoundError _) = Some NOT_FOUND"
| "patch_file_status e = (if is_sync_not_found e then Some NOT_FOUND else None)"

definition postFile :: "string \<Rightarrow> file_body \<Rightarrow> (js_error, store, unit body response) prog" where
  "postFile syncId body = responding (send_text CREATED) post_file_status (createFile syncId body)"

definition postFiles ::
  "file_body lodash \<Rightarrow> string \<Rightarrow> file_body list \<Rightarrow> (js_error, store, unit body response) prog" where
  "postFiles ld syncId body =
     responding (send_text CREATED) post_files_status (createFiles ld syncId body)"

definition patchFile ::
  "env \<Rightarrow> string \<Rightarrow> string \<Rightarrow> file_update \<Rightarrow> (js_error, store, unit body response) prog" where
  "patchFile env syncId fileId body =
     responding (send_text OK) patch_file_status (updateFile env syncId fileId body)"

definition postFilesClosure ::
  "(job_data list \<Rightarrow> (js_error, 'q, unit) stmt) \<Rightarrow> string list \<Rightarrow> (js_error, 'q, unit body response) prog"
where
  "postFilesClosure filesQueue fileIds =
     responding (send_text CREATED) (\<lambda>_. None) (createFileClosures filesQueue fileIds)"

section \<open>entityController.ts\<close>

fun post_entity_status :: "js_error \<Rightarrow> int option" where
  "post_entity_status (EntityAlreadyExistsError _) = Some CONFLICT"
| "post_entity_status (FileNotFoundError _) = Some NOT_FOUND"
| "post_entity_status _ = None"

fun post_entities_status :: "js_error \<Rightarrow> int option" where
  "post_entities_status (EntityAlreadyExistsError _) = Some CONFLICT"
| "post_entities_status (DuplicateEntityError _) = Some CONFLICT"
| "post_entities_status (FileNotFoundError _) = Some NOT_FOUND"
| "post_entities_status _ = None"

fun patch_entity_status :: "js_error \<Rightarrow> int option" where
  "patch_entity_status (EntityNotFoundError _) = Some NOT_FOUND"
| "patch_entity_status _ = None"

fun patch_entities_status :: "js_error \<Rightarrow> int option" where
  "patch_entities_status (DuplicateEntityError _) = Some CONFLICT"
| "patch_entities_status (EntityNotFoundError _) = Some NOT_FOUND"
| "patch_entities_status _ = None"

definition postEntity :: "string \<Rightarrow> entity_body \<Rightarrow> (js_error, store, unit body response) prog" where
  "postEntity fileId body =
     responding (send_text CREATED) post_entity_status (createEntity fileId body)"

definition postEntities ::
  "entity_body lodash \<Rightarrow> string \<Rightarrow> entity_body list \<Rightarrow>
    (js_error, store, bulk_result body response) prog" where
  "postEntities ld fileId body =
     responding (send_json CREATED) post_entities_status (createEntities ld fileId body)"

definition patchEntity ::
  "env \<Rightarrow> string \<Rightarrow> string \<Rightarrow> entity_update \<Rightarrow> (js_error, store, unit body response) prog" where
  "patchEntity env fileId entityId body =
     responding (send_text OK) patch_entity_status (updateEntity env fileId entityId body)"

definition patchEntities ::
  "env \<Rightarrow> entity_body lodash \<Rightarrow> entity_body list \<Rightarrow> (js_error, store, unit body response) prog" where
  "patchEntities env ld body =
     responding (send_text OK) patch_entities_status (updateEntities env ld body)"

section \<open>syncController.ts\<close>

text \<open>The values of the query of \<open>GET /sync\<close>, and the filter the cased object is read as.\<close>

datatype query_value = LayerIds "int list" | Statuses "status list"
  | GeometryTypes "geometry_type list" | Flag bool

definition syncs_filter_of :: "(string \<times> query_value) list \<Rightarrow> syncs_filter" where
  "syncs_filter_of q =
     \<lparr>sf_layerId = (case map_of q ''layerId'' of Some (LayerIds xs) \<Rightarrow> Some xs | _ \<Rightarrow> None),
      sf_status = (case map_of q ''status'' of Some (Statuses xs) \<Rightarrow> Some xs | _ \<Rightarrow> None),
      sf_geometryType = (case map_of q ''geometryType'' of Some (GeometryTypes xs) \<Rightarrow> Some xs | _ \<Rightarrow> None),
      sf_isFull = (case map_of q ''isFull'' of Some (Flag b) \<Rightarrow> Some b | _ \<Rightarrow> None),
      sf_isRerun = (case map_of q ''isRerun'' of Some (Flag b) \<Rightarrow> Some b | _ \<Rightarrow> None)\<rparr>"

type_synonym 'v transform =
  "(string \<times> 'v) list \<Rightarrow> ((string \<times> 'v) list \<Rightarrow> 'v \<Rightarrow> string \<Rightarrow> (string \<times> 'v) list) \<Rightarrow>
    (string \<times> 'v) list \<Rightarrow> (string \<times> 'v) list"

fun post_sync_status :: "js_error \<Rightarrow> int option" where
  "post_sync_status (SyncAlreadyExistsError _) = Some CONFLICT"
| "post_sync_status (FullSyncAlreadyExistsError _ _ _) = Some CONFLICT"
| "post_sync_status _ = None"

definition sync_not_found_status :: "js_error \<Rightarrow> int option" where
  "sync_not_found_status e = (if is_sync_not_found e then Some NOT_FOUND else None)"

fun rerun_sync_status :: "js_error \<Rightarrow> int option" where
  "rerun_sync_status (RerunAlreadyExistsError _) = Some CONFLICT"
| "rerun_sync_status (InvalidSyncForRerunError _ _) = Some CONFLICT"
| "rerun_sync_status e = (if is_sync_not_found e then Some NOT_FOUND else None)"

definition getSyncs_handler ::
  "query_value transform \<Rightarrow> (string \<Rightarrow> string) \<Rightarrow> (string \<times> query_value) list \<Rightarrow>
    (js_error, store, sync_row list body response) prog" where
  "getSyncs_handler transform camelCase query =
     (let filter = syncs_filter_of (convertObjectToCased transform camelCase query)
      in responding (send_json OK) (\<lambda>_. None) (getSyncs filter))"

definition getLatestSync_handler ::
  "int \<Rightarrow> geometry_type \<Rightarrow> (js_error, store, sync_row body response) prog" where
  "getLatestSync_handler layerId geometryType =
     responding (send_json OK) sync_not_found_status (getLatestSync layerId geometryType)"

definition postSync :: "sync_body \<Rightarrow> (js_error, store, unit body response) prog" where
  "postSync body = responding (send_text CREATED) post_sync_status (createSync body)"

definition patchSync ::
  "env \<Rightarrow> string \<Rightarrow> sync_update \<Rightarrow> (js_error, store, unit body response) prog" where
  "patchSync env syncId body =
     responding (send_text OK) sync_not_found_status (updateSync env syncId body)"

definition postSyncsClosure ::
  "(job_data list \<Rightarrow> (js_error, 'q, unit) stmt) \<Rightarrow> string list \<Rightarrow> (js_error, 'q, unit body response) prog"
where
  "postSyncsClosure syncsQueue syncIds =
     responding (send_text CREATED) (\<lambda>_. None) (createSyncClosures syncsQueue syncIds)"

definition rerunSync ::
  "rerun_env \<Rightarrow> bool \<Rightarrow> tx_outcome \<Rightarrow> string \<Rightarrow> string \<Rightarrow> date \<Rightarrow> bool option \<Rightarrow>
    (js_error, store, unit body response) prog" where
  "rerunSync re joins outcome syncId rerunId startDate shouldRerunNotSynced =
     responding (\<lambda>wasRerunCreated. if wasRerunCreated then send_text CREATED () else send_text OK ())
       rerun_sync_status
       (rerunSyncIfNeeded re joins outcome syncId rerunId startDate shouldRerunNotSynced)"

section \<open>Shared facts\<close>

lemma run_responding:
  "run (responding ok status_of p) s =
    (case run p s of (Inr x, t) \<Rightarrow> (Inr (ok x), t) | (Inl e, t) \<Rightarrow> (Inr (Next e (status_of e)), t))"
  by (simp add: responding_def run_settle split: prod.splits sum.splits)

text \<open>A handler never throws: every error reaches the error middleware through \<open>next\<close>.\<close>

lemma responding_answers: "\<exists>answer. fst (run (responding ok status_of p) s) = Inr answer"
  by (auto simp: run_responding split: prod.splits sum.splits)

lemma responding_keeps [inv_intros]: "keeps I p \<Longrightarrow> keeps I (responding ok status_of p)"
  unfolding responding_def by (rule keeps_settle) (auto split: sum.splits)

lemma handlers_keep [inv_intros]:
  "keeps db_wf (postChangeset cb)" "keeps db_wf (getChangeset_handler k)"
  "keeps db_wf (patchChangeset env k cu)" "keeps db_wf (patchChangesetEntities k)"
  "keeps db_wf (postFile k fb)" "keeps db_wf (postFiles lf k fbs)" "keeps db_wf (patchFile env k k' fu)"
  "keeps db_wf (postEntity k eb)" "keeps db_wf (postEntities le k ebs)"
  "keeps db_wf (patchEntity env k k' eu)" "keeps db_wf (patchEntities env le ebs)"
  "keeps db_wf (getSyncs_handler tr camel q)" "keeps db_wf (getLatestSync_handler l g)"
  "keeps db_wf (postSync sb)" "keeps db_wf (patchSync env k su)"
  "keeps db_wf (rerunSync re joins outcome k k' date flag)"
  unfolding postChangeset_def getChangeset_handler_def patchChangeset_def patchChangesetEntities_def
    postFile_def postFiles_def patchFile_def postEntity_def postEntities_def patchEntity_def
    patchEntities_def getSyncs_handler_def getLatestSync_handler_def postSync_def patchSync_def
    rerunSync_def Let_def
  by (intro inv_intros)+

section \<open>Properties\<close>

lemma map_of_convertObjectToCased:
  assumes "transform_ok tr" and "distinct (map (camel \<circ> fst) q)"
  shows "map_of (convertObjectToCased tr camel q) k =
    map_option snd (find (\<lambda>(k', v). camel k' = k) q)"
proof -
  let ?q = "map (\<lambda>(k, v). (camel k, v)) q"
  have "distinct (map fst ?q)" using assms(2) by (simp add: comp_def case_prod_beta)
  then have "map_of (rev ?q) k = map_of ?q k" by (simp add: map_of_rev_distinct)
  moreover have "map_of ?q k = map_option snd (find (\<lambda>(k', v). camel k' = k) q)"
    by (induction q) auto
  ultimately show ?thesis
    using assms(1) by (simp add: convertObjectToCased_eq map_of_spread)
qed

text \<open>
  C37: \<open>GET /sync\<close> answers 200 with exactly the syncs that match every filter of the query, in
  the order of the table, and writes nothing.  A filter that is absent matches every sync; the
  parameters are read under the camel case of their names.
\<close>

theorem getSyncs_handler_matching:
  fixes q :: "(string \<times> query_value) list" and camel :: "string \<Rightarrow> string" and d :: store
  assumes "transform_ok tr" and "distinct (map (camel \<circ> fst) q)"
  defines "param name \<equiv> map_option snd (find (\<lambda>(k, v). camel k = name) q)"
  shows "run (getSyncs_handler tr camel q) d = (Inr (Send 200 (Json (filter (\<lambda>s.
      (\<forall>xs. param ''layerId'' = Some (LayerIds xs) \<longrightarrow> s_layerId s \<in> set xs) \<and>
      (\<forall>xs. param ''status'' = Some (Statuses xs) \<longrightarrow> s_status s \<in> set xs) \<and>
      (\<forall>xs. param ''geometryType'' = Some (GeometryTypes xs) \<longrightarrow> s_geometryType s \<in> set xs) \<and>
      (\<forall>b. param ''isFull'' = Some (Flag b) \<longrightarrow> s_isFull s = b) \<and>
      (\<forall>b. param ''isRerun'' = Some (Flag b) \<longrightarrow> (if b then s_runNumber s > 0 else s_runNumber s = 0)))
      (syncs d)))), d)"
proof -
  let ?w = "syncs_filter_of (convertObjectToCased tr camel q)"
  have param: "map_of (convertObjectToCased tr camel q) name = param name" for name
    using map_of_convertObjectToCased [OF assms(1,2)] by (simp add: param_def)
  have parts: "where_in (sf_layerId ?w) x \<longleftrightarrow> (\<forall>xs. param ''layerId'' = Some (LayerIds xs) \<longrightarrow> x \<in> set xs)"
    "where_in (sf_status ?w) st \<longleftrightarrow> (\<forall>xs. param ''status'' = Some (Statuses xs) \<longrightarrow> st \<in> set xs)"
    "where_in (sf_geometryType ?w) g \<longleftrightarrow> (\<forall>xs. param ''geometryType'' = Some (GeometryTypes xs) \<longrightarrow> g \<in> set xs)"
    "(case sf_isFull ?w of None \<Rightarrow> True | Some b \<Rightarrow> f = b) \<longleftrightarrow> (\<forall>b. param ''isFull'' = Some (Flag b) \<longrightarrow> f = b)"
    "(case sf_isRerun ?w of None \<Rightarrow> True | Some b \<Rightarrow> if b then n > 0 else n = (0 :: int)) \<longleftrightarrow>
      (\<forall>b. param ''isRerun'' = Some (Flag b) \<longrightarrow> (if b then n > 0 else n = 0))" for x st g f n
    by (auto simp: syncs_filter_of_def param where_in_def split: option.splits query_value.splits)
  show ?thesis
    by (simp add: getSyncs_handler_def run_responding getSyncs_def filterSyncs_def reading_def parts OK_def
        conj_ac)
qed

theorem getSyncs_handler_matching_witness:
  fixes camel :: "string \<Rightarrow> string"
  defines "camel \<equiv> \<lambda>k. if k = ''layer_id'' then ''layerId'' else k"
  shows "run (getSyncs_handler (\<lambda>obj f acc. fold (\<lambda>(k, v) a. f a v k) obj acc) camel
      [(''layer_id'', LayerIds [7]), (''status'', Statuses [COMPLETED, FAILED])]) failed_db =
    (Inr (Send 200 (Json [a_sync ''s1'' FAILED (Some 1) None 0])), failed_db)"
proof -
  have "transform_ok (\<lambda>obj f acc. fold (\<lambda>(k, v :: query_value) a. f a v k) obj acc)"
    by (simp add: transform_ok_def)
  moreover have "distinct (map (camel \<circ> fst) [(''layer_id'', LayerIds [7]), (''status'', Statuses [COMPLETED, FAILED])])"
    by (simp add: camel_def)
  ultimately show ?thesis
    by (subst getSyncs_handler_matching) (simp_all add: camel_def example_dbs)
qed

end
