(* ===== verification/Closure_System.thy ===== *)
theory Closure_System
  imports Closure_Workers Controllers
begin

text \<open>
  The service as a whole: requests and jobs whose statements interleave, and the chain from a
  changeset closure to the closed sync.
\<close>

section \<open>Interleaving\<close>

text \<open>
  A configuration is the list of the functions that have started, and the state.  A function may
  arrive at any time, and any function may execute its next statement.  The result of a function
  is of no interest here: \<open>erase\<close> drops it.
\<close>

definition erase :: "('e, 's, 'a) prog \<Rightarrow> ('e, 's, unit) prog" where
  "erase p = settle (\<lambda>_. return ()) p"

inductive reachable ::
  "(('e, 's, unit) prog \<Rightarrow> bool) \<Rightarrow> 's \<Rightarrow> ('e, 's, unit) prog list \<Rightarrow> 's \<Rightarrow> bool"
  for R s0 where
  initial: "reachable R s0 [] s0"
| arrives: "reachable R s0 ps s \<Longrightarrow> R p \<Longrightarrow> reachable R s0 (ps @ [p]) s"
| executes: "reachable R s0 ps s \<Longrightarrow> i < length ps \<Longrightarrow> ps ! i = Stmt k \<Longrightarrow> k s = (p, t) \<Longrightarrow>
    reachable R s0 (ps[i := p]) t"

text \<open>An invariant of every statement of every function holds in every reachable state.\<close>

lemma reachable_inv:
  assumes "reachable R s0 ps s" and "I s0" and "\<And>p. R p \<Longrightarrow> keeps I p"
  shows "I s \<and> (\<forall>p \<in> set ps. keeps I p)"
  using assms(1)
proof induction
  case initial
  with assms(2) show ?case by simp
next
  case (arrives ps s p)
  with assms(3) show ?case by auto
next
  case (executes ps s i k p t)
  then have "keeps I (Stmt k)" by (metis nth_mem)
  then have "I (snd (k s)) \<and> keeps I (fst (k s))"
    using executes.IH unfolding keeps_Stmt_iff by simp
  then have "I t \<and> keeps I p" by (simp add: executes.hyps)
  with executes show ?case by (auto dest: set_update_subset_insert [THEN subsetD])
qed

lemma keeps_erase: "keeps I p \<Longrightarrow> keeps I (erase p)"
  unfolding erase_def by (rule keeps_settle) simp_all

text \<open>A function that runs alone to its end is one of the interleavings.\<close>

lemma reachable_run_last:
  assumes "reachable R s0 (ps @ [p]) s"
  shows "\<exists>r. reachable R s0 (ps @ [Done r]) (snd (run p s))"
  using assms
proof (induction p arbitrary: s)
  case (Done r)
  then show ?case by auto
next
  case (Stmt k)
  obtain p t where k: "k s = (p, t)" by fastforce
  from reachable.executes [OF Stmt.prems, of "length ps" k p t] k
  have "reachable R s0 (ps @ [p]) t" by simp
  with Stmt.IH [of "(p, t)" p t] k show ?case
    by (auto simp: run_Stmt) (metis rangeI)
qed

lemma reachable_run:
  assumes "reachable R s0 ps s" and "R p"
  shows "\<exists>r. reachable R s0 (ps @ [Done r]) (snd (run p s))"
  using reachable_run_last [OF reachable.arrives [OF assms]] .

text \<open>A function of the database inside the whole state.\<close>

primrec in_system :: "(js_error, store, 'a) prog \<Rightarrow> (js_error, store \<times> 'q, 'a) prog" where
  "in_system (Done r) = Done r"
| "in_system (Stmt k) = Stmt (\<lambda>s. case map_prod in_system id (k (fst s)) of (p, d) \<Rightarrow> (p, (d, snd s)))"

lemma run_in_system: "run (in_system p) (d, q) = (case run p d of (r, t) \<Rightarrow> (r, (t, q)))"
proof (induction p arbitrary: d)
  case (Done r)
  then show ?case by simp
next
  case (Stmt k)
  obtain p t where k: "k d = (p, t)" by fastforce
  with Stmt [of "(p, t)" p t] show ?case
    by (simp add: run_Stmt) (metis rangeI)
qed

lemma run_in_system_state: "snd (run (in_system p) (d, q)) = (snd (run p d), q)"
  by (simp add: run_in_system split: prod.splits)

lemma in_system_keeps:
  fixes p :: "(js_error, store, 'a) prog"
  shows "keeps J p \<Longrightarrow> keeps (\<lambda>s :: store \<times> 'q. J (fst s)) (in_system p)"
proof (induction rule: keeps.induct)
  case (keeps_Done r)
  then show ?case by simp
next
  case (keeps_Stmt k)
  show ?case unfolding in_system.simps
  proof (rule keeps.keeps_Stmt, goal_cases)
    case (1 s)
    from keeps_Stmt [OF this] show ?case by (cases "k (fst s)") simp
  qed
qed

section \<open>What may run\<close>

text \<open>
  The requests of the four routers that touch the database, and the jobs of the three workers.
  The environment of each (clock, library decisions, transaction outcome) is arbitrary.  \<open>request\<close>
  is those that insert or patch no sync, \<open>work\<close> is them and the jobs.
\<close>

inductive request :: "(js_error, store, unit) prog \<Rightarrow> bool" where
  "request (erase (postChangeset cb))"
| "request (erase (getChangeset_handler k))"
| "request (erase (patchChangeset env k cu))"
| "request (erase (patchChangesetEntities k))"
| "request (erase (postFile k fb))"
| "request (erase (postFiles lf k fbs))"
| "request (erase (patchFile env k k' fu))"
| "request (erase (postEntity k eb))"
| "request (erase (postEntities le k ebs))"
| "request (erase (patchEntity env k k' eu))"
| "request (erase (patchEntities env le ebs))"
| "request (erase (getSyncs_handler tr camel q))"
| "request (erase (getLatestSync_handler l g))"

inductive work :: "(js_error, store \<times> 'q, unit) prog \<Rightarrow> bool" where
  "request p \<Longrightarrow> work (in_system p)"
| "atomic_tx rit1 \<Longrightarrow>
    work (erase (processJobWrapper bq wo rnd clock (changesets_processJob rit1 wo enqueue) job))"
| "atomic_tx rit2 \<Longrightarrow>
    work (erase (processJobWrapper bq wo rnd clock (files_processJob rit2 wo ts enqueue) job))"
| "atomic_tx rit3 \<Longrightarrow>
    work (erase (processJobWrapper bq wo rnd clock (syncs_processJob rit3 wo ts) job))"

inductive service :: "(js_error, store \<times> 'q, unit) prog \<Rightarrow> bool" where
  "work p \<Longrightarrow> service p"
| "service (in_system (erase (postSync sb)))"
| "service (in_system (erase (patchSync env k su)))"
| "service (in_system (erase (rerunSync re joins outcome k k' date flag)))"

text \<open>An invariant of the database that the requests and the two closures keep is one of the work.\<close>

lemma work_keeps:
  assumes "work p" and "\<And>p. request p \<Longrightarrow> keeps J p"
    and "\<And>ts k d. J d \<Longrightarrow> J (snd (attemptFileClosure ts k d))"
    and "\<And>ts k d. J d \<Longrightarrow> J (snd (attemptSyncClosure ts k d))"
  shows "keeps (\<lambda>s. J (fst s)) p"
  using assms(1)
  by cases (use assms(2-) in \<open>auto intro!: keeps_erase in_system_keeps [where J = J]
    processJobWrapper_keeps [where J = J] workers_keep_db [where J = J]\<close>)

lemma request_keeps: "request p \<Longrightarrow> keeps db_wf p"
  by (induction rule: request.induct) (intro keeps_erase handlers_keep)+

lemma service_keeps: "service p \<Longrightarrow> keeps sys_wf p"
  unfolding sys_wf_def [abs_def]
proof (induction rule: service.induct)
  case (1 p)
  then show ?case
    by (rule work_keeps) (simp_all add: request_keeps attemptFileClosure_wf attemptSyncClosure_wf)
qed (intro in_system_keeps [where J = db_wf] keeps_erase handlers_keep)+

section \<open>Properties\<close>

lemma run_erase: "snd (run (erase p) s) = snd (run p s)"
  by (simp add: erase_def run_settle split: prod.splits)



lemma reachable_await:
  assumes "reachable R s0 ps s" and "i < length ps" and "ps ! i = await m k" and "m s = (Inr x, t)"
  shows "reachable R s0 (ps[i := k x]) t"
  using reachable.executes [OF assms(1,2) assms(3) [unfolded await_def]] assms(4) by simp

lemma reachable_pair:
  assumes "m s = (Inr x, t)"
  shows "reachable R s0 [await m k, p] s \<Longrightarrow> reachable R s0 [k x, p] t"
    and "reachable R s0 [p, await m k] s \<Longrightarrow> reachable R s0 [p, k x] t"
  using reachable_await [of R s0 "[await m k, p]" s 0 m k x t]
    reachable_await [of R s0 "[p, await m k]" s 1 m k x t] assms by simp_all

text \<open>
  C36: the guard against a second full sync is not atomic.  Two requests for full syncs of one
  layer and geometry type, whose statements alternate, both succeed and leave two full syncs; had
  the first one finished before the other began, the other would have been refused.
\<close>

theorem full_sync_race:
  fixes d :: store
  assumes full: "sb_isFull b1" "sb_isFull b2"
    and layer: "sb_layerId b2 = sb_layerId b1" "sb_geometryType b2 = sb_geometryType b1"
    and typed: "sync_typed (sync_row_of b1)" "sync_typed (sync_row_of b2)"
    and base: "to_nullable (sb_baseSyncId b1) = None" "to_nullable (sb_baseSyncId b2) = None"
    and new: "sb_id b1 \<notin> s_id ` set (syncs d)" "sb_id b2 \<notin> s_id ` set (syncs d)" "sb_id b1 \<noteq> sb_id b2"
    and first: "full_syncs (sb_layerId b1) (sb_geometryType b1) d = []"
  shows "reachable (\<lambda>p. \<exists>b. p = createSync b) d [return (), return ()]
      (d\<lparr>syncs := syncs d @ [sync_row_of b1, sync_row_of b2]\<rparr>) \<and>
    run (createSync b2) (snd (run (createSync b1) d)) =
      (Inl (FullSyncAlreadyExistsError (sb_layerId b1) (sb_geometryType b1) (sb_id b1)),
       d\<lparr>syncs := syncs d @ [sync_row_of b1]\<rparr>)"
proof
  let ?R = "\<lambda>p. \<exists>b. p = createSync b"
  let ?insert = "\<lambda>b. await (createSync_row b) (\<lambda>_. return ()) :: (js_error, store, unit) prog"
  let ?by = "\<lambda>b. \<lparr>sp_layerId = Some (sb_layerId b), sp_geometryType = Some (sb_geometryType b),
    sp_isFull = Some (sb_isFull b), sp_baseSyncId = None\<rparr>"
  let ?found = "\<lambda>b found. (case found of
      existing # _ \<Rightarrow> throw (FullSyncAlreadyExistsError (sb_layerId b) (sb_geometryType b) (s_id existing))
    | [] \<Rightarrow> ?insert b) :: (js_error, store, unit) prog"
  let ?check = "\<lambda>b. await (findSyncs (?by b)) (?found b)"
  let ?known = "\<lambda>b r. (case r of Some s \<Rightarrow> throw (SyncAlreadyExistsError (s_id s)) | None \<Rightarrow> ?check b)"
  let ?d1 = "d\<lparr>syncs := syncs d @ [sync_row_of b1]\<rparr>"
  have start: "createSync b = await (findOneSync (sb_id b)) (?known b)"
    if "sb_isFull b" for b
    using that by (simp add: createSync_def)
  have unknown: "findOneSync k d = (Inr None, d)" if "k \<notin> s_id ` set (syncs d)" for k
    using that by (simp add: queries in_keys_iff)
  have none: "findSyncs (?by b) d = (Inr [], d)" if "b \<in> {b1, b2}" for b
    using that first layer full by (auto simp: findSyncs_def reading_def where_ok_def full_syncs_def)
  have ins1: "createSync_row b1 d = (Inr (), ?d1)"
    using createSync_row_ok [OF typed(1), of d] new(1) base(1) by (simp add: ref_ok_def)
  have ins2: "createSync_row b2 ?d1 = (Inr (), d\<lparr>syncs := syncs d @ [sync_row_of b1, sync_row_of b2]\<rparr>)"
    using createSync_row_ok [OF typed(2), of ?d1] new(2,3) base(2) by (simp add: ref_ok_def sync_row_of_def)
  have "reachable ?R d [createSync b1, createSync b2] d"
    using reachable.arrives [OF reachable.arrives [OF reachable.initial, of ?R], of "createSync b1" "createSync b2"]
    by auto
  then have "reachable ?R d [await (findOneSync (sb_id b1)) (?known b1), await (findOneSync (sb_id b2)) (?known b2)] d"
    unfolding start [OF full(1)] start [OF full(2)] .
  from reachable_pair(1) [where m = "findOneSync (sb_id b1)" and s = d and k = "?known b1", OF unknown [OF new(1)] this]
  have "reachable ?R d [?check b1, await (findOneSync (sb_id b2)) (?known b2)] d" by (simp only: option.case)
  from reachable_pair(2) [where m = "findOneSync (sb_id b2)" and s = d and k = "?known b2", OF unknown [OF new(2)] this]
  have "reachable ?R d [?check b1, ?check b2] d" by (simp only: option.case)
  from reachable_pair(1) [where m = "findSyncs (?by b1)" and s = d and k = "?found b1", OF none [of b1] this]
  have "reachable ?R d [?insert b1, ?check b2] d" by (simp only: list.case insert_iff simp_thms)
  from reachable_pair(2) [where m = "findSyncs (?by b2)" and s = d and k = "?found b2", OF none [of b2] this]
  have "reachable ?R d [?insert b1, ?insert b2] d" by (simp only: list.case insert_iff simp_thms)
  from reachable_pair(2) [where m = "createSync_row b2" and s = ?d1, OF ins2
      reachable_pair(1) [where m = "createSync_row b1" and s = d, OF ins1 this]]
  show "reachable ?R d [return (), return ()] (d\<lparr>syncs := syncs d @ [sync_row_of b1, sync_row_of b2]\<rparr>)" .
  have "run (createSync b1) d = (Inr (), ?d1)"
    using createSync_run [OF typed(1), of d] base new(1) first by (simp add: ref_ok_def)
  moreover have "full_syncs (sb_layerId b2) (sb_geometryType b2) ?d1 = [sync_row_of b1]"
    using first layer full by (simp add: full_syncs_def sync_row_of_def)
  ultimately show "run (createSync b2) (snd (run (createSync b1) d)) =
      (Inl (FullSyncAlreadyExistsError (sb_layerId b1) (sb_geometryType b1) (sb_id b1)), ?d1)"
    using createSync_run [OF typed(2), of ?d1] base new(2,3) full layer
    by (simp add: ref_ok_def sync_row_of_def)
qed

theorem full_sync_race_witness:
  "\<exists>d'. reachable (\<lambda>p. \<exists>b. p = createSync b) closable_db [return (), return ()] d' \<and>
    full_syncs 7 POLYGON d' = [sync_row_of (example_sync ''s8'' True), sync_row_of (example_sync ''s9'' True)]"
proof -
  let ?b1 = "example_sync ''s8'' True" and ?b2 = "example_sync ''s9'' True"
  have full: "sb_isFull ?b1" "sb_isFull ?b2"
    and layer: "sb_layerId ?b2 = sb_layerId ?b1" "sb_geometryType ?b2 = sb_geometryType ?b1"
    and typed: "sync_typed (sync_row_of ?b1)" "sync_typed (sync_row_of ?b2)"
    and base: "to_nullable (sb_baseSyncId ?b1) = None" "to_nullable (sb_baseSyncId ?b2) = None"
    and new: "sb_id ?b1 \<notin> s_id ` set (syncs closable_db)" "sb_id ?b2 \<notin> s_id ` set (syncs closable_db)"
      "sb_id ?b1 \<noteq> sb_id ?b2"
    and first: "full_syncs (sb_layerId ?b1) (sb_geometryType ?b1) closable_db = []"
    by (simp_all add: example_sync_def sync_typed_def int4_def sync_row_of_def full_syncs_def example_dbs)
  have "full_syncs 7 POLYGON (closable_db\<lparr>syncs := syncs closable_db @ [sync_row_of ?b1, sync_row_of ?b2]\<rparr>) =
      [sync_row_of ?b1, sync_row_of ?b2]"
    by (simp add: example_sync_def sync_row_of_def full_syncs_def example_dbs)
  with full_sync_race [OF full layer typed base new first] show ?thesis by blast
qed

end
