(* ===== verification/Closure_Progress.thy ===== *)
theory Closure_Progress
  imports Closure_Workers
begin

text \<open>
  Jobs of the three workers whose statements interleave, with their retries: no closure of a sync
  gets lost between the job that completes its last file and the job that closes it, as long as the
  queue accepts what is pushed.  What a function still has to do for that is a set of syncs it
  \<open>owes\<close>; the rest is an invariant over the functions that run.
\<close>

section \<open>Debts of an asynchronous function\<close>

text \<open>
  \<open>uncovered s\<close> is what somebody has to take care of in the state \<open>s\<close>.  A function that owes \<open>D\<close>
  may pass a statement on with another debt: what is uncovered afterwards was so before without
  being owed, or is owed now.  A function that ends with \<open>r\<close> may leave the debt \<open>left r\<close>.
\<close>

inductive owes ::
  "('s \<Rightarrow> bool) \<Rightarrow> ('s \<Rightarrow> 'k set) \<Rightarrow> ('e + 'a \<Rightarrow> 'k set) \<Rightarrow> 'k set \<Rightarrow> ('e, 's, 'a) prog \<Rightarrow> bool"
  for I uncovered left where
  owes_Done: "D \<subseteq> left r \<Longrightarrow> owes I uncovered left D (Done r)"
| owes_Stmt: "(\<And>s. I s \<Longrightarrow> I (snd (k s)) \<and>
      (\<exists>D'. uncovered (snd (k s)) - D' \<subseteq> uncovered s - D \<and> owes I uncovered left D' (fst (k s)))) \<Longrightarrow>
    owes I uncovered left D (Stmt k)"

inductive_simps owes_Done_iff [simp]: "owes I uncovered left D (Done r)"
inductive_simps owes_Stmt_iff: "owes I uncovered left D (Stmt k)"

lemma owes_return [simp]: "owes I U L D (return x) \<longleftrightarrow> D \<subseteq> L (Inr x)"
  by (simp add: return_def)

lemma owes_throw [simp]: "owes I U L D (throw e) \<longleftrightarrow> D \<subseteq> L (Inl e)"
  by (simp add: throw_def)

lemma owes_await:
  assumes "\<And>s. I s \<Longrightarrow> I (snd (m s))"
    and "\<And>s x t. I s \<Longrightarrow> m s = (Inr x, t) \<Longrightarrow> \<exists>D'. U t - D' \<subseteq> U s - D \<and> owes I U L D' (k x)"
    and "\<And>s e t. I s \<Longrightarrow> m s = (Inl e, t) \<Longrightarrow> U t - L (Inl e) \<subseteq> U s - D"
  shows "owes I U L D (await m k)"
  unfolding await_def
proof (rule owes_Stmt)
  fix s
  assume s: "I s"
  obtain r t where m: "m s = (r, t)" by fastforce
  show "I (snd (case m s of (Inl e, t) \<Rightarrow> (throw e, t) | (Inr x, t) \<Rightarrow> (k x, t))) \<and>
    (\<exists>D'. U (snd (case m s of (Inl e, t) \<Rightarrow> (throw e, t) | (Inr x, t) \<Rightarrow> (k x, t))) - D' \<subseteq> U s - D \<and>
      owes I U L D' (fst (case m s of (Inl e, t) \<Rightarrow> (throw e, t) | (Inr x, t) \<Rightarrow> (k x, t))))"
  proof (cases r)
    case (Inl e)
    with assms(1) [OF s] assms(3) [OF s, of e t] m show ?thesis
      by (auto intro!: exI [of _ "L (Inl e)"])
  next
    case (Inr x)
    with assms(1) [OF s] assms(2) [OF s, of x t] m show ?thesis by simp
  qed
qed

lemma owes_settle:
  assumes "owes I U L D p" and "\<And>r D'. D' \<subseteq> L r \<Longrightarrow> owes I U L' D' (h r)"
  shows "owes I U L' D (settle h p)"
  using assms(1)
proof induction
  case (owes_Done D r)
  with assms(2) show ?case by simp
next
  case (owes_Stmt k D)
  show ?case
    unfolding settle.simps
  proof (rule owes.owes_Stmt)
    fix s
    assume "I s"
    from owes_Stmt [OF this] show "I (snd (map_prod (settle h) id (k s))) \<and>
      (\<exists>D'. U (snd (map_prod (settle h) id (k s))) - D' \<subseteq> U s - D \<and>
        owes I U L' D' (fst (map_prod (settle h) id (k s))))"
      by (cases "k s") auto
  qed
qed

section \<open>Syncs that wait to be closed\<close>

definition up_syncs :: "store \<Rightarrow> string set" where
  "up_syncs d = {k. closable_syncs k d \<noteq> []}"

lemma up_syncs_iff: "k \<in> up_syncs d \<longleftrightarrow> (\<exists>s \<in> set (syncs d). sync_up_for_closure k d s)"
  by (auto simp: up_syncs_def closable_syncs_def filter_empty_conv)

text \<open>Closing a file can only make its own sync ready to close.\<close>

lemma up_syncs_files_closed:
  assumes "\<And>f. f \<in> set (files d) \<Longrightarrow> file_up_for_closure k d f \<Longrightarrow> f_syncId f = i"
  shows "up_syncs (snd (attemptFileClosure ts k d)) \<subseteq> insert i (up_syncs d)"
proof
  fix j
  assume j: "j \<in> up_syncs (snd (attemptFileClosure ts k d))"
  have other: "filter (\<lambda>f. f_syncId f = j \<and> f_status f = COMPLETED)
      (update_where (file_up_for_closure k d) (close_file ts) fs) =
    filter (\<lambda>f. f_syncId f = j \<and> f_status f = COMPLETED) fs"
    if "j \<noteq> i" "set fs \<subseteq> set (files d)" for fs
    using that(2)
  proof (induction fs)
    case Nil
    show ?case by simp
  next
    case (Cons f fs)
    then show ?case using assms [of f] that(1) by (auto simp: file_up_for_closure_def)
  qed
  then have "completed_files j (snd (attemptFileClosure ts k d)) = completed_files j d" if "j \<noteq> i"
    using that by (simp add: completed_files_def attemptFileClosure_def Let_def)
  with j show "j \<in> insert i (up_syncs d)"
    by (cases "j = i") (simp_all add: up_syncs_iff sync_up_for_closure_def attemptFileClosure_def Let_def)
qed

text \<open>Closing a sync makes no other one ready.\<close>

lemma up_syncs_sync_closed: "up_syncs (snd (attemptSyncClosure ts k d)) \<subseteq> up_syncs d - {k}"
proof
  fix j
  assume j: "j \<in> up_syncs (snd (attemptSyncClosure ts k d))"
  then have "j \<noteq> k" using sync_closing.attempt_closes [of k ts d] by (auto simp: up_syncs_def)
  moreover from j have "j \<in> up_syncs d"
    unfolding up_syncs_iff by (auto simp: attemptSyncClosure_def Let_def set_update_where)
  ultimately show "j \<in> up_syncs d - {k}" by simp
qed

section \<open>The jobs\<close>

text \<open>
  What is asked of the queue: a push of one closure is accepted and waits from then on; storing the
  data of a job and delaying it end no waiting.
\<close>

definition reliable ::
  "('q \<Rightarrow> string set) \<Rightarrow> 'q bullmq \<Rightarrow> (job_data list \<Rightarrow> (js_error, 'q, unit) stmt) \<Rightarrow> bool" where
  "reliable waiting bq syncsQueue \<longleftrightarrow>
     (\<forall>job q. \<exists>q'. syncsQueue [job] q = (Inr (), q') \<and> waiting q' = insert (j_id job) (waiting q)) \<and>
     (\<forall>key data q. waiting q \<subseteq> waiting (snd (bq_updateData bq key data q))) \<and>
     (\<forall>key t q. waiting q \<subseteq> waiting (snd (bq_moveToDelayed bq key t q)))"

definition uncovered :: "('q \<Rightarrow> string set) \<Rightarrow> store \<times> 'q \<Rightarrow> string set" where
  "uncovered waiting s = up_syncs (fst s) - waiting (snd s)"

lemma uncovered_queue:
  "waiting q \<subseteq> waiting q' \<Longrightarrow> uncovered waiting (d, q') \<subseteq> uncovered waiting (d, q)"
  by (auto simp: uncovered_def)

lemma owes_queue_call:
  assumes "\<And>q. waiting q \<subseteq> waiting (snd (m q))" and "\<And>x. owes sys_wf (uncovered waiting) L D (k x)"
    and "\<And>e. D \<subseteq> L (Inl e)"
  shows "owes sys_wf (uncovered waiting) L D (await (on_own_queue m) k)"
proof (rule owes_await)
  fix s :: "store \<times> 'a"
  have U: "uncovered waiting t \<subseteq> uncovered waiting s" if "on_own_queue m s = (r, t)" for r t
    using that uncovered_queue [of waiting "snd s" "snd (m (snd s))" "fst s"] assms(1)
    by (auto simp: on_own_queue_def split: prod.splits)
  show "\<exists>D'. uncovered waiting t - D' \<subseteq> uncovered waiting s - D \<and> owes sys_wf (uncovered waiting) L D' (k x)"
    if "on_own_queue m s = (Inr x, t)" for x t
    using U [OF that] assms(2) by blast
  show "uncovered waiting t - L (Inl e) \<subseteq> uncovered waiting s - D" if "on_own_queue m s = (Inl e, t)" for e t
    using U [OF that] assms(3) [of e] by blast
qed (auto simp: on_own_queue_def sys_wf_def split: prod.splits)

text \<open>The wrapper passes the debt of a job that failed on to the library, which retries it.\<close>

lemma owes_wrapper:
  assumes "reliable waiting bq syncsQueue"
    and "owes sys_wf (uncovered waiting) L D (processJob job)" and "\<And>x. L (Inr x) = {}" and "\<And>e. L (Inl e) = K"
  shows "owes sys_wf (uncovered waiting) L D (processJobWrapper bq wo rnd clock processJob job)"
  unfolding processJobWrapper_def
proof (rule owes_settle [OF assms(2)], goal_cases)
  case (1 r D')
  show ?case
  proof (cases r)
    case (Inr x)
    with 1 assms(3) show ?thesis by simp
  next
    case (Inl e)
    with 1 assms(4) have "D' \<subseteq> K" by simp
    moreover have "waiting q \<subseteq> waiting (snd (updateJobCounter bq job TransactionFailure q))"
        and "waiting q \<subseteq> waiting (snd (delayJob bq clock job delay q))" for q delay
      using assms(1) by (simp_all add: reliable_def updateJobCounter_def delayJob_def Let_def)
    ultimately have "owes sys_wf (uncovered waiting) L D'
        (await (on_own_queue (updateJobCounter bq job TransactionFailure)) (\<lambda>_.
         await (on_own_queue (delayJob bq clock job delay)) (\<lambda>_. throw DelayedError)))" for delay
      using assms(4) by (intro owes_queue_call) simp_all
    with \<open>D' \<subseteq> K\<close> assms(4) show ?thesis by (simp add: Inl Let_def)
  qed
qed

lemma files_processJob_owes:
  assumes "atomic_tx rit" and "reliable waiting bq syncsQueue"
  shows "owes sys_wf (uncovered waiting) (\<lambda>_. {}) {} (files_processJob rit wo ts syncsQueue job)"
  unfolding files_processJob_def
proof (rule owes_await)
  let ?k = "j_id (payload job)"
  let ?m = "on_db (transactionify rit (worker_tx ATTEMPT_FILE_CLOSURE wo) (attemptFileClosure ts ?k))"
  fix s :: "store \<times> 'a"
  assume wf: "sys_wf s"
  show "sys_wf (snd (?m s))"
    using wf assms(1) unfolding sys_wf_def
    by (intro on_db_inv [where J = db_wf] transactionify_inv [where I = db_wf] inv_intros)
  obtain d q where s: "s = (d, q)" by fastforce
  have outcome: "?m s = (Inr (closable_files ?k d, length (closable_files ?k d)),
      (snd (attemptFileClosure ts ?k d), q)) \<or> (\<exists>e. ?m s = (Inl e, s))"
    by (cases rule: transactionify_cases [OF assms(1), of "attemptFileClosure ts ?k" d "worker_tx ATTEMPT_FILE_CLOSURE wo"])
      (use file_closing.attempt_pair [of ts ?k d] in \<open>auto simp: s on_db_def\<close>)
  show "uncovered waiting t - {} \<subseteq> uncovered waiting s - {}" if "?m s = (Inl e, t)" for e t
    using that outcome by auto
  show "\<exists>D'. uncovered waiting t - D' \<subseteq> uncovered waiting s - {} \<and>
      owes sys_wf (uncovered waiting) (\<lambda>_. {}) D'
       ((\<lambda>(closed, count).
         if count = 0
         then return \<lparr>closedCount = Some count, closedIds = Some [], invokedJobCount = 0, invokedJobs = []\<rparr>
         else (case closed of
             [] \<Rightarrow> throw TypeError
           | (fileId, syncId) # _ \<Rightarrow>
               let syncClosureJob = closure_job SyncClosure syncId
               in await (on_queue (syncsQueue [syncClosureJob])) (\<lambda>_.
                  return \<lparr>closedCount = Some count, closedIds = Some [fileId],
                    invokedJobCount = 1, invokedJobs = [syncClosureJob]\<rparr>))) x)"
    if m: "?m s = (Inr x, t)" for x t
  proof (cases "closable_files ?k d")
    case Nil
    with m outcome file_closing.nothing_closable [OF Nil, of ts] show ?thesis
      by (auto simp: s intro!: exI [of _ "{}"])
  next
    case (Cons c others)
    obtain fileId syncId where c: "c = (fileId, syncId)" by fastforce
    have x: "x = ((fileId, syncId) # others, Suc (length others))"
      and t: "t = (snd (attemptFileClosure ts ?k d), q)"
      using m outcome Cons c by auto
    have sync: "f_syncId f = syncId" if "f \<in> set (files d)" "file_up_for_closure ?k d f" for f
    proof -
      from Cons c have "(fileId, syncId) \<in> set (closable_files ?k d)" by simp
      then obtain g where g: "g \<in> set (files d)" "file_up_for_closure ?k d g" "f_syncId g = syncId"
        by (auto simp: set_closable_files)
      moreover have "g = f"
        using wf distinct_key_eq [OF db_wfD(2) g(1) that(1)] g(2) that(2)
        by (auto simp: s sys_wf_def file_up_for_closure_def)
      ultimately show ?thesis by simp
    qed
    have owed: "uncovered waiting t - {syncId} \<subseteq> uncovered waiting s"
      using up_syncs_files_closed [of d ?k syncId ts] sync by (auto simp: t s uncovered_def)
    have "owes sys_wf (uncovered waiting) (\<lambda>_. {}) {syncId}
        (await (on_queue (syncsQueue [closure_job SyncClosure syncId])) (\<lambda>_. return r))" for r :: closure_return
    proof (rule owes_await)
      fix s' :: "store \<times> 'a"
      obtain d' q' where s': "s' = (d', q')" by fastforce
      from assms(2) obtain q'' where push: "syncsQueue [closure_job SyncClosure syncId] q' = (Inr (), q'')"
        "waiting q'' = insert syncId (waiting q')"
        unfolding reliable_def by (metis closure_job_def job_data.select_convs(1))
      show "\<exists>D'. uncovered waiting t' - D' \<subseteq> uncovered waiting s' - {syncId} \<and>
          owes sys_wf (uncovered waiting) (\<lambda>_. {}) D' (return r)"
        if "on_queue (syncsQueue [closure_job SyncClosure syncId]) s' = (Inr u, t')" for u t'
        using that push by (auto simp: s' on_queue_def uncovered_def intro!: exI [of _ "{}"])
      show "uncovered waiting t' - {} \<subseteq> uncovered waiting s' - {syncId}"
        if "on_queue (syncsQueue [closure_job SyncClosure syncId]) s' = (Inl e, t')" for e t'
        using that push by (simp add: s' on_queue_def)
    qed (simp add: sys_wf_def on_queue_inv [where J = db_wf])
    with owed x show ?thesis by (auto simp: Let_def intro!: exI [of _ "{syncId}"])
  qed
qed

lemma syncs_processJob_owes:
  assumes "atomic_tx rit"
  shows "owes sys_wf (uncovered waiting) (\<lambda>r. case r of Inl _ \<Rightarrow> {j_id (payload job)} | Inr _ \<Rightarrow> {})
    {j_id (payload job)} (syncs_processJob rit wo ts job)"
  unfolding syncs_processJob_def
proof (rule owes_await)
  let ?k = "j_id (payload job)"
  let ?m = "on_db (transactionify rit (worker_tx ATTEMPT_SYNC_CLOSURE wo) (attemptSyncClosure ts ?k))"
  fix s :: "store \<times> 'a"
  show "sys_wf (snd (?m s))" if "sys_wf s"
    using that assms(1) unfolding sys_wf_def
    by (intro on_db_inv [where J = db_wf] transactionify_inv [where I = db_wf] inv_intros)
  obtain d q where s: "s = (d, q)" by fastforce
  have outcome: "?m s = (Inr (closable_syncs ?k d, length (closable_syncs ?k d)),
      (snd (attemptSyncClosure ts ?k d), q)) \<or> (\<exists>e. ?m s = (Inl e, s))"
    by (cases rule: transactionify_cases [OF assms(1), of "attemptSyncClosure ts ?k" d "worker_tx ATTEMPT_SYNC_CLOSURE wo"])
      (use sync_closing.attempt_pair [of ts ?k d] in \<open>auto simp: s on_db_def\<close>)
  show "uncovered waiting t - (case Inl e of Inl _ \<Rightarrow> {?k} | Inr _ \<Rightarrow> {}) \<subseteq> uncovered waiting s - {?k}"
    if "?m s = (Inl e, t)" for e t
    using that outcome by auto
  show "\<exists>D'. uncovered waiting t - D' \<subseteq> uncovered waiting s - {?k} \<and>
      owes sys_wf (uncovered waiting) (\<lambda>r. case r of Inl _ \<Rightarrow> {?k} | Inr _ \<Rightarrow> {}) D'
        ((\<lambda>(closed, count). return \<lparr>closedCount = Some count, closedIds = Some closed,
           invokedJobCount = 0, invokedJobs = []\<rparr>) x)"
    if "?m s = (Inr x, t)" for x t
    using that outcome up_syncs_sync_closed [of ts ?k d]
    by (auto simp: s uncovered_def intro!: exI [of _ "{}"])
qed

lemma changesets_processJob_owes:
  assumes "atomic_tx rit" and push: "\<And>jobs q. waiting q \<subseteq> waiting (snd (filesQueue jobs q))"
  shows "owes sys_wf (uncovered waiting) (\<lambda>_. {}) {} (changesets_processJob rit wo filesQueue job)"
  unfolding changesets_processJob_def Let_def
proof (rule owes_await)
  let ?ks = "case j_batchIds (payload job) of Some batchIds \<Rightarrow> batchIds | None \<Rightarrow> [j_id (payload job)]"
  let ?find = "findFilesByChangesets ?ks [IN_PROGRESS]"
  let ?m = "on_db (transactionify rit (worker_tx FIND_FILES_BY_CHANGESETS wo) ?find)"
  fix s :: "store \<times> 'a"
  show "sys_wf (snd (?m s))" if "sys_wf s"
    using that assms(1) unfolding sys_wf_def
    by (intro on_db_inv [where J = db_wf] transactionify_inv [where I = db_wf] inv_intros)
  have same: "snd (?m s) = s"
    by (cases s; cases rule: transactionify_cases [OF assms(1), of ?find "fst s" "worker_tx FIND_FILES_BY_CHANGESETS wo"])
      (auto simp: on_db_def findFilesByChangesets_query)
  show "uncovered waiting t - {} \<subseteq> uncovered waiting s - {}" if "?m s = (Inl e, t)" for e t
    using that same by simp
  have pushed: "owes sys_wf (uncovered waiting) (\<lambda>_. {}) {} (await (on_queue (filesQueue jobs)) (\<lambda>_. return r))"
    for jobs and r :: closure_return
    using owes_queue_call [of waiting "filesQueue jobs" "\<lambda>_. {}" "{}" "\<lambda>_. return r"] push
    by (simp add: on_own_queue_def [abs_def] on_queue_def [abs_def])
  show "\<exists>D'. uncovered waiting t - D' \<subseteq> uncovered waiting s - {} \<and>
      owes sys_wf (uncovered waiting) (\<lambda>_. {}) D'
        (if length fileIds = 0
         then return \<lparr>closedCount = None, closedIds = None, invokedJobCount = 0, invokedJobs = []\<rparr>
         else await (on_queue (filesQueue (map (closure_job FileClosure) fileIds))) (\<lambda>_.
              return \<lparr>closedCount = None, closedIds = None,
                invokedJobCount = length (map (closure_job FileClosure) fileIds),
                invokedJobs = map (closure_job FileClosure) fileIds\<rparr>))"
    if "?m s = (Inr fileIds, t)" for fileIds t
    using that same pushed by (auto intro!: exI [of _ "{}"])
qed

section \<open>Jobs that interleave\<close>

text \<open>
  What runs: for a job of the syncs queue the sync it was taken for, and the function.  Jobs of the
  changesets and files queues start at any time; a worker takes a sync from those that wait, and a
  sync whose job ended with an error waits again.  Each job has its own options, its own outcome of
  the transaction and its own clock.
\<close>

type_synonym 'q running = "string option \<times> (js_error, store \<times> 'q, closure_return) prog"

inductive closing_work ::
  "('q \<Rightarrow> string set) \<Rightarrow> 'q bullmq \<Rightarrow> (job_data list \<Rightarrow> (js_error, 'q, unit) stmt) \<Rightarrow> store \<times> 'q \<Rightarrow>
    'q running list \<Rightarrow> store \<times> 'q \<Rightarrow> bool"
  for waiting bq syncsQueue s0 where
  idle: "closing_work waiting bq syncsQueue s0 [] s0"
| changesets_job: "closing_work waiting bq syncsQueue s0 ws s \<Longrightarrow> atomic_tx rit \<Longrightarrow>
    (\<And>jobs q. waiting q \<subseteq> waiting (snd (filesQueue jobs q))) \<Longrightarrow>
    closing_work waiting bq syncsQueue s0
      (ws @ [(None, processJobWrapper bq wo rnd clock (changesets_processJob rit wo filesQueue) job)]) s"
| files_job: "closing_work waiting bq syncsQueue s0 ws s \<Longrightarrow> atomic_tx rit \<Longrightarrow>
    closing_work waiting bq syncsQueue s0
      (ws @ [(None, processJobWrapper bq wo rnd clock (files_processJob rit wo ts syncsQueue) job)]) s"
| syncs_job: "closing_work waiting bq syncsQueue s0 ws (d, q) \<Longrightarrow> atomic_tx rit \<Longrightarrow>
    j_id (payload job) = k \<Longrightarrow> k \<in> waiting q \<Longrightarrow> waiting q' = waiting q - {k} \<Longrightarrow>
    closing_work waiting bq syncsQueue s0
      (ws @ [(Some k, processJobWrapper bq wo rnd clock (syncs_processJob rit wo ts) job)]) (d, q')"
| executes: "closing_work waiting bq syncsQueue s0 ws s \<Longrightarrow> i < length ws \<Longrightarrow> ws ! i = (k, Stmt c) \<Longrightarrow>
    c s = (p, t) \<Longrightarrow> closing_work waiting bq syncsQueue s0 (ws[i := (k, p)]) t"
| retried: "closing_work waiting bq syncsQueue s0 ws (d, q) \<Longrightarrow> i < length ws \<Longrightarrow>
    ws ! i = (Some k, Done (Inl e)) \<Longrightarrow> waiting q' = insert k (waiting q) \<Longrightarrow>
    closing_work waiting bq syncsQueue s0 (ws[i := (None, Done (Inl e))]) (d, q')"

fun left_by :: "string option \<Rightarrow> js_error + closure_return \<Rightarrow> string set" where
  "left_by (Some k) (Inl e) = {k}"
| "left_by k r = {}"

lemma left_by_simps: "left_by None = (\<lambda>_. {})" "left_by (Some k) = (\<lambda>r. case r of Inl _ \<Rightarrow> {k} | Inr _ \<Rightarrow> {})"
  by (auto simp: fun_eq_iff split: sum.splits)

definition covers :: "('q \<Rightarrow> string set) \<Rightarrow> 'q running list \<Rightarrow> string set list \<Rightarrow> store \<times> 'q \<Rightarrow> bool" where
  "covers waiting ws Ds s \<longleftrightarrow> sys_wf s \<and> uncovered waiting s \<subseteq> \<Union> (set Ds) \<and>
     list_all2 (\<lambda>(k, p) D. owes sys_wf (uncovered waiting) (left_by k) D p) ws Ds"

lemma covers_start:
  assumes "covers waiting ws Ds s" and "owes sys_wf (uncovered waiting) (left_by k) D p"
    and "fst t = fst s" and "uncovered waiting t \<subseteq> uncovered waiting s \<union> D"
  shows "covers waiting (ws @ [(k, p)]) (Ds @ [D]) t"
  using assms by (auto simp: covers_def sys_wf_def intro: list_all2_appendI)

lemma covers_step:
  assumes "covers waiting ws Ds s" and "i < length ws" and "sys_wf t"
    and "owes sys_wf (uncovered waiting) (left_by k) D' p"
    and "uncovered waiting t - D' \<subseteq> uncovered waiting s - Ds ! i"
  shows "covers waiting (ws[i := (k, p)]) (Ds[i := D']) t"
proof -
  have len: "length Ds = length ws" using assms(1) by (auto simp: covers_def dest: list_all2_lengthD)
  have "x \<in> \<Union> (set (Ds[i := D']))" if "x \<in> uncovered waiting t" for x
  proof (cases "x \<in> D'")
    case True
    with assms(2) len show ?thesis by (auto intro!: bexI [of _ D'] set_update_memI)
  next
    case False
    with that assms(1,5) obtain j where "j < length Ds" "x \<in> Ds ! j" "x \<notin> Ds ! i"
      unfolding covers_def by (fastforce simp: in_set_conv_nth)
    then have "x \<in> Ds[i := D'] ! j" "j < length (Ds[i := D'])" by (cases "i = j"; auto simp: nth_list_update)+
    then show ?thesis by (meson UnionI nth_mem)
  qed
  with assms(1,3,4) show ?thesis by (auto simp: covers_def intro: list_all2_update_cong)
qed

lemma closing_work_covered:
  assumes "closing_work waiting bq syncsQueue s0 ws s" and "reliable waiting bq syncsQueue"
    and "sys_wf s0" and "uncovered waiting s0 = {}"
  shows "\<exists>Ds. covers waiting ws Ds s"
  using assms(1)
proof induction
  case idle
  with assms(3,4) show ?case by (auto simp: covers_def intro!: exI [of _ "[]"])
next
  case (changesets_job ws s rit filesQueue wo rnd clock job)
  have "owes sys_wf (uncovered waiting) (left_by None) {}
      (processJobWrapper bq wo rnd clock (changesets_processJob rit wo filesQueue) job)"
    unfolding left_by_simps
    by (rule owes_wrapper [OF assms(2) changesets_processJob_owes]) (use changesets_job in simp_all)
  with changesets_job covers_start show ?case by blast
next
  case (files_job ws s rit wo rnd clock ts job)
  have "owes sys_wf (uncovered waiting) (left_by None) {}
      (processJobWrapper bq wo rnd clock (files_processJob rit wo ts syncsQueue) job)"
    unfolding left_by_simps
    by (rule owes_wrapper [OF assms(2) files_processJob_owes]) (use files_job assms(2) in simp_all)
  with files_job covers_start show ?case by blast
next
  case (syncs_job ws d q rit job k q' wo rnd clock ts)
  have "owes sys_wf (uncovered waiting) (left_by (Some k)) {k}
      (processJobWrapper bq wo rnd clock (syncs_processJob rit wo ts) job)"
    unfolding left_by_simps
    by (rule owes_wrapper [where processJob = "syncs_processJob rit wo ts" and job = job,
          OF assms(2) syncs_processJob_owes [OF syncs_job(2), of waiting job wo ts, unfolded syncs_job(3)]])
      simp_all
  moreover have "uncovered waiting (d, q') \<subseteq> uncovered waiting (d, q) \<union> {k}"
    using syncs_job(5) by (auto simp: uncovered_def)
  ultimately show ?case using syncs_job(6) covers_start [where s = "(d, q)" and t = "(d, q')"] by fastforce
next
  case (executes ws s i k c p t)
  then obtain Ds where Ds: "covers waiting ws Ds s" by blast
  with executes(2,3) have "owes sys_wf (uncovered waiting) (left_by k) (Ds ! i) (Stmt c)" and "sys_wf s"
    by (auto simp: covers_def dest!: list_all2_nthD)
  with executes(4) obtain D' where "sys_wf t" "uncovered waiting t - D' \<subseteq> uncovered waiting s - Ds ! i"
      "owes sys_wf (uncovered waiting) (left_by k) D' p"
    unfolding owes_Stmt_iff by (metis fst_conv snd_conv)
  with covers_step [OF Ds executes(2)] show ?case by blast
next
  case (retried ws d q i k e q')
  then obtain Ds where Ds: "covers waiting ws Ds (d, q)" by blast
  with retried(2,3) have "Ds ! i \<subseteq> {k}" by (auto simp: covers_def dest!: list_all2_nthD)
  then have "uncovered waiting (d, q') - {} \<subseteq> uncovered waiting (d, q) - Ds ! i"
    using retried(4) by (auto simp: uncovered_def)
  moreover have "sys_wf (d, q')" using Ds by (simp add: covers_def sys_wf_def)
  ultimately have "covers waiting (ws[i := (None, Done (Inl e))]) (Ds[i := {}]) (d, q')"
    by (intro covers_step [OF Ds retried(2)]) simp_all
  then show ?case by blast
qed

section \<open>What the jobs may change\<close>

text \<open>The jobs keep every invariant of the database that the two attempts keep.\<close>

lemma closing_work_keeps:
  assumes "closing_work waiting bq syncsQueue s0 ws s" and "J (fst s0)"
    and closes: "\<And>ts k d. J d \<Longrightarrow> J (snd (attemptFileClosure ts k d))"
      "\<And>ts k d. J d \<Longrightarrow> J (snd (attemptSyncClosure ts k d))"
  shows "J (fst s) \<and> (\<forall>(k, p) \<in> set ws. keeps (\<lambda>s. J (fst s)) p)"
  using assms(1)
proof induction
  case idle
  with assms(2) show ?case by simp
next
  case (executes ws s i k c p t)
  then have "keeps (\<lambda>s. J (fst s)) (Stmt c)" by (metis (mono_tags, lifting) case_prodD nth_mem)
  with executes have "J (fst t) \<and> keeps (\<lambda>s. J (fst s)) p"
    unfolding keeps_Stmt_iff by (metis fst_conv snd_conv)
  with executes show ?case by (auto dest: set_update_subset_insert [THEN subsetD])
qed (auto intro!: processJobWrapper_keeps [where J = J] workers_keep_db [where J = J] closes
    dest: set_update_subset_insert [THEN subsetD])

text \<open>
  The database \<open>d\<close> as jobs may leave \<open>d0\<close>: a file that changed was closed with all its entities
  done, a sync that changed was closed with all its files completed.
\<close>

definition file_progress :: "store \<Rightarrow> file_row \<Rightarrow> file_row \<Rightarrow> bool" where
  "file_progress d0 f g \<longleftrightarrow> g = f \<or> (\<exists>ts. g = close_file ts f) \<and> f_status f \<noteq> COMPLETED \<and>
     f_totalEntities f = Some (int (length (closed_entities (f_fileId f) d0)))"

definition sync_progress :: "store \<Rightarrow> sync_row \<Rightarrow> sync_row \<Rightarrow> bool" where
  "sync_progress d s t \<longleftrightarrow> t = s \<or> (\<exists>ts. t = close_sync ts s) \<and> s_status s \<noteq> COMPLETED \<and>
     (\<exists>k n. (k = s_id s \<or> s_baseSyncId s = Some k) \<and> s_totalFiles s = Some n \<and>
       n \<le> int (length (completed_files k d)))"

definition progress :: "store \<Rightarrow> store \<Rightarrow> bool" where
  "progress d0 d \<longleftrightarrow> d\<lparr>syncs := syncs d0, files := files d0\<rparr> = d0 \<and>
     list_all2 (file_progress d0) (files d0) (files d) \<and>
     list_all2 (sync_progress d) (syncs d0) (syncs d)"

lemma list_all2_update_where:
  assumes "list_all2 P xs ys" and "\<And>x y. P x y \<Longrightarrow> Q y \<Longrightarrow> P x (f y)"
  shows "list_all2 P xs (update_where Q f ys)"
  using assms(1) by (induction rule: list_all2_induct) (auto intro: assms(2))

lemma completed_files_more:
  "length (completed_files k d) \<le> length (completed_files k (snd (attemptFileClosure ts i d)))"
proof -
  have "length (filter (\<lambda>f. f_syncId f = k \<and> f_status f = COMPLETED) fs) \<le>
      length (filter (\<lambda>f. f_syncId f = k \<and> f_status f = COMPLETED)
        (update_where (file_up_for_closure i d) (close_file ts) fs))" for fs
    by (induction fs) auto
  then show ?thesis by (simp add: completed_files_def attemptFileClosure_def Let_def)
qed

lemma progress_start: "progress d d"
  by (simp add: progress_def file_progress_def sync_progress_def list_all2_refl)

lemma progress_file:
  assumes "progress d0 d"
  shows "progress d0 (snd (attemptFileClosure ts k d))"
proof -
  let ?d = "snd (attemptFileClosure ts k d)"
  have "entities d = entities d0"
    using assms unfolding progress_def by (metis store.select_convs store.surjective store.update_convs)
  then have "closed_entities i d = closed_entities i d0" for i by (simp add: closed_entities_def)
  then have "list_all2 (file_progress d0) (files d0) (files ?d)"
    using assms by (auto simp: progress_def attemptFileClosure_def Let_def file_progress_def
        file_up_for_closure_def intro!: list_all2_update_where)
  moreover have "sync_progress ?d s t" if "sync_progress d s t" for s t
  proof (cases "t = s")
    case False
    with that obtain ts' i n where t: "t = close_sync ts' s" "s_status s \<noteq> COMPLETED"
        "i = s_id s \<or> s_baseSyncId s = Some i" "s_totalFiles s = Some n" "n \<le> int (length (completed_files i d))"
      unfolding sync_progress_def by blast
    with completed_files_more [of i d ts k] have "n \<le> int (length (completed_files i ?d))" by linarith
    with t show ?thesis unfolding sync_progress_def by blast
  qed (simp add: sync_progress_def)
  then have "list_all2 (sync_progress ?d) (syncs d0) (syncs ?d)"
    using assms by (auto simp: progress_def attemptFileClosure_def Let_def elim: list_all2_mono)
  ultimately show ?thesis
    using assms by (simp add: progress_def) (simp add: attemptFileClosure_def Let_def)
qed

lemma progress_sync:
  assumes "progress d0 d"
  shows "progress d0 (snd (attemptSyncClosure ts k d))"
proof -
  have "sync_progress d s (close_sync ts t)" if "sync_progress d s t" "sync_up_for_closure k d t" for s t
  proof -
    have "t = s" using that by (auto simp: sync_progress_def)
    with that(2) show ?thesis by (auto simp: sync_progress_def sync_up_for_closure_def)
  qed
  moreover have "sync_progress (d\<lparr>syncs := ss\<rparr>) = sync_progress d" for ss
    by (simp add: sync_progress_def fun_eq_iff)
  ultimately show ?thesis
    using assms by (auto simp: progress_def attemptSyncClosure_def Let_def intro!: list_all2_update_where)
qed

section \<open>A run\<close>

lemma closing_work_run:
  assumes "closing_work waiting bq syncsQueue s0 (ws @ [(k, p)]) s"
  shows "closing_work waiting bq syncsQueue s0 (ws @ [(k, Done (fst (run p s)))]) (snd (run p s))"
  using assms
proof (induction p arbitrary: s)
  case (Done r)
  then show ?case by simp
next
  case (Stmt c)
  obtain p t where c: "c s = (p, t)" by (cases "c s")
  from closing_work.executes [OF Stmt.prems, of "length ws" k c p t] c
  have "closing_work waiting bq syncsQueue s0 (ws @ [(k, p)]) t" by simp
  with Stmt.IH [of "(p, t)" p t] c show ?case by (simp add: run_Stmt) (metis rangeI)
qed

definition names :: "added_job list \<Rightarrow> string set" where
  "names q = a_name ` set q"

lemma names_updated: "names (map (\<lambda>a. if P a then a\<lparr>a_data := x\<rparr> else a) q) = names q"
  unfolding names_def set_map image_image by (rule image_cong) auto

lemma remembering_reliable:
  "reliable names (remembering None) (pushes (remembering None) (example_provider False None))"
proof -
  have "names (q @ [a]) = insert (a_name a) (names q)" for q a by (simp add: names_def)
  then show ?thesis
    by (simp add: reliable_def pushes_def push_def addJob_def remembering_def added_def names_updated)
qed

definition example_closed :: store where
  "example_closed = closable_db\<lparr>
     syncs := [(a_sync ''s1'' COMPLETED (Some 2) None 0)\<lparr>s_endDate := Some 99\<rparr>],
     files := [(a_file ''f1'' ''s1'' COMPLETED (Some 2))\<lparr>f_endDate := Some 99\<rparr>,
       a_file ''f2'' ''s1'' COMPLETED (Some 0)]\<rparr>"

lemma example_work:
  "\<exists>ws. closing_work names (remembering None) (pushes (remembering None) (example_provider False None))
      (closable_db, []) ws (example_closed, []) \<and> length ws = 2 \<and>
    (\<forall>(k, p) \<in> set ws. \<exists>r. p = Done r \<and> (k = None \<or> (\<exists>x. r = Inr x)))"
proof -
  let ?sq = "pushes (remembering None) (example_provider False None)"
  let ?job = "\<lambda>kind k. \<lparr>job_key = k, payload = closure_job kind k\<rparr>"
  let ?fj = "processJobWrapper (remembering None) example_options 0 0
    (files_processJob (tx_with None) example_options 99 ?sq) (?job FileClosure ''f1'')"
  let ?sj = "processJobWrapper (remembering None) example_options 0 0
    (syncs_processJob (tx_with None) example_options 99) (?job SyncClosure ''s1'')"
  let ?d = "files_closed 99 [''f1''] closable_db"
    and ?q = "[added (example_provider False None) (closure_job SyncClosure ''s1'')]"
  let ?work = "closing_work names (remembering None) ?sq (closable_db, [])"
  have f: "a_file ''f1'' ''s1'' IN_PROGRESS (Some 2) \<in> set (files closable_db)"
    by (simp add: example_dbs)
  have "closable_files ''f1'' closable_db = [(''f1'', ''s1'')]"
    using closable_files_wf [OF closable_db_wf f]
    by (simp add: file_up_for_closure_def closed_entities_def example_dbs)
  then have fj: "run ?fj (closable_db, []) = (Inr \<lparr>closedCount = Some 1, closedIds = Some [''f1''],
      invokedJobCount = 1, invokedJobs = [closure_job SyncClosure ''s1'']\<rparr>, (?d, ?q))" (is "_ = (Inr ?r, _)")
    by (simp add: processJobWrapper_run files_processJob_committed pushes_def push_def addJob_def
        remembering_def)
  have "?work ([] @ [(None, ?fj)]) (closable_db, [])"
    by (rule closing_work.files_job [OF closing_work.idle atomic_tx_with])
  from closing_work_run [OF this] fj have 1: "?work [(None, Done (Inr ?r))] (?d, ?q)" by simp
  have "?work ([(None, Done (Inr ?r))] @ [(Some ''s1'', ?sj)]) (?d, [])"
    by (rule closing_work.syncs_job [OF 1 atomic_tx_with]) (simp_all add: names_def added_def)
  from closing_work_run [OF this]
  have 2: "?work [(None, Done (Inr ?r)), (Some ''s1'', Done (fst (run ?sj (?d, []))))] (snd (run ?sj (?d, [])))"
    by simp
  have sj: "run ?sj (?d, []) = (Inr \<lparr>closedCount = Some (length (closable_syncs ''s1'' ?d)),
      closedIds = Some (closable_syncs ''s1'' ?d), invokedJobCount = 0, invokedJobs = []\<rparr>,
      (snd (attemptSyncClosure 99 ''s1'' ?d), []))"
    using transactionify_commits [where fn = "attemptSyncClosure 99 ''s1''" and s = ?d,
        OF sync_closing.attempt_pair [of 99 "''s1''" ?d]]
    by (simp add: processJobWrapper_run syncs_processJob_def on_db_def)
  have "snd (attemptSyncClosure 99 ''s1'' ?d) = example_closed" by code_simp
  with 2 [unfolded sj fst_conv snd_conv] show ?thesis by fastforce
qed

section \<open>Properties\<close>

text \<open>
  C3: the jobs close only what is complete.  However the jobs interleave, whatever their
  transactions and the queues do, they change no entity, changeset or history row, and no file or
  sync but by closing it: a file that was not completed and whose entities, as many as it has in
  total, are completed or not synced, and a sync or rerun that was not completed and of whose sync at
  least as many files are completed as it has in total.
\<close>

theorem jobs_close_only_complete:
  assumes "closing_work waiting bq syncsQueue (d0, q0) ws (d, q)"
  shows "entities d = entities d0 \<and> changesets d = changesets d0 \<and> history d = history d0 \<and>
    list_all2 (\<lambda>f g. g = f \<or> (\<exists>ts. g = f\<lparr>f_status := COMPLETED, f_endDate := Some ts\<rparr>) \<and>
        f_status f \<noteq> COMPLETED \<and> f_totalEntities f = Some (int (length (filter (\<lambda>e.
          e_fileId e = f_fileId f \<and> e_status e \<in> {E_COMPLETED, E_NOT_SYNCED}) (entities d)))))
      (files d0) (files d) \<and>
    list_all2 (\<lambda>s t. t = s \<or> (\<exists>ts. t = s\<lparr>s_status := COMPLETED, s_endDate := Some ts\<rparr>) \<and>
        s_status s \<noteq> COMPLETED \<and> (\<exists>k n. (k = s_id s \<or> s_baseSyncId s = Some k) \<and>
          s_totalFiles s = Some n \<and>
          n \<le> int (length (filter (\<lambda>f. f_syncId f = k \<and> f_status f = COMPLETED) (files d)))))
      (syncs d0) (syncs d)"
proof -
  have "progress d0 d"
    using closing_work_keeps [OF assms, of "progress d0"] progress_start progress_file progress_sync by simp
  moreover from this have "entities d = entities d0 \<and> changesets d = changesets d0 \<and> history d = history d0"
    unfolding progress_def by (metis store.select_convs store.surjective store.update_convs)
  ultimately show ?thesis
    by (simp add: progress_def file_progress_def [abs_def] sync_progress_def [abs_def]
        closed_entities_def completed_files_def close_file_def close_sync_def)
qed

theorem jobs_close_only_complete_witness:
  "\<exists>ws. closing_work names (remembering None) (pushes (remembering None) (example_provider False None))
      (closable_db, []) ws (example_closed, []) \<and> entities example_closed = entities closable_db \<and>
    2 \<le> int (length (filter (\<lambda>f. f_syncId f = ''s1'' \<and> f_status f = COMPLETED) (files example_closed)))"
proof -
  obtain ws where ws: "closing_work names (remembering None)
      (pushes (remembering None) (example_provider False None)) (closable_db, []) ws (example_closed, [])"
    using example_work by blast
  from jobs_close_only_complete [OF this] ws show ?thesis
    by (auto simp: example_closed_def example_dbs)
qed



end
