(* ===== verification/Closure_Pipeline.thy ===== *)
theory Closure_Pipeline
  imports Closure_Workers Changeset_Manager
begin

text \<open>
  The chain of closures: a changeset job finds the open files, each file job closes its file when
  its entities are closed, each sync job closes its sync when its files are completed.
\<close>

section \<open>Running a list of jobs\<close>

fun drain ::
  "(job \<Rightarrow> (js_error, 's, closure_return) prog) \<Rightarrow> job list \<Rightarrow> (js_error, 's, job_data list) stmt"
where
  "drain worker [] s = (Inr [], s)"
| "drain worker (job # jobs) s =
     (case run (worker job) s of
        (Inl e, t) \<Rightarrow> (Inl e, t)
      | (Inr result, t) \<Rightarrow>
          (case drain worker jobs t of
             (Inl e, u) \<Rightarrow> (Inl e, u)
           | (Inr invoked, u) \<Rightarrow> (Inr (invokedJobs result @ invoked), u)))"

text \<open>The invoked jobs, as the library hands them to the next worker.\<close>

definition as_jobs :: "job_data list \<Rightarrow> job list" where
  "as_jobs jobs = map (\<lambda>x. \<lparr>job_key = j_id x, payload = x\<rparr>) jobs"

text \<open>A queue that accepts every job, and a database that commits every transaction.\<close>

definition accepts :: "(job_data list \<Rightarrow> (js_error, 'q, unit) stmt) \<Rightarrow> bool" where
  "accepts enqueue \<longleftrightarrow> (\<forall>jobs q. \<exists>t. enqueue jobs q = (Inr (), t))"

definition run_closures ::
  "worker_options \<Rightarrow> date \<Rightarrow> (job_data list \<Rightarrow> (js_error, 'q, unit) stmt) \<Rightarrow> string \<Rightarrow>
    (js_error, store \<times> 'q, unit) stmt" where
  "run_closures wo ts enqueue changesetId s =
     (case drain (changesets_processJob (tx_with None) wo enqueue)
            (as_jobs [closure_job ChangesetClosure changesetId]) s of
        (Inl e, t) \<Rightarrow> (Inl e, t)
      | (Inr fileJobs, t) \<Rightarrow>
          (case drain (files_processJob (tx_with None) wo ts enqueue) (as_jobs fileJobs) t of
             (Inl e, u) \<Rightarrow> (Inl e, u)
           | (Inr syncJobs, u) \<Rightarrow>
               (case drain (syncs_processJob (tx_with None) wo ts) (as_jobs syncJobs) u of
                  (Inl e, v) \<Rightarrow> (Inl e, v)
                | (Inr _, v) \<Rightarrow> (Inr (), v))))"

lemma as_jobs_simps [simp]:
  "as_jobs [] = []"
  "as_jobs (x # xs) = \<lparr>job_key = j_id x, payload = x\<rparr> # as_jobs xs"
  by (simp_all add: as_jobs_def)

lemma run_changeset_job:
  assumes "accepts enqueue"
  shows "\<exists>result q'. run (changesets_processJob (tx_with None) wo enqueue
      \<lparr>job_key = key, payload = closure_job ChangesetClosure c\<rparr>) (d, q) = (Inr result, (d, q')) \<and>
    invokedJobs result = map (closure_job FileClosure) (open_files_of_changesets [c] d)"
proof -
  have find: "on_db (transactionify (tx_with None) (worker_tx FIND_FILES_BY_CHANGESETS wo)
      (findFilesByChangesets [c] [IN_PROGRESS])) (d, q) = (Inr (open_files_of_changesets [c] d), (d, q))"
    by (simp add: on_db_def transactionify_commits [OF findFilesByChangesets_query])
  obtain t where "enqueue (map (closure_job FileClosure) (open_files_of_changesets [c] d)) q = (Inr (), t)"
    using assms unfolding accepts_def by blast
  then show ?thesis
    by (simp add: changesets_processJob_def find on_queue_def Let_def)
qed

lemma run_file_job:
  assumes "accepts enqueue"
  shows "\<exists>result q'. run (files_processJob (tx_with None) wo ts enqueue
      \<lparr>job_key = key, payload = closure_job FileClosure k\<rparr>) (d, q) =
      (Inr result, (files_closed ts [k] d, q')) \<and>
    invokedJobs result = (case closable_files k d of [] \<Rightarrow> [] | (_, s) # _ \<Rightarrow> [closure_job SyncClosure s])"
proof (cases "closable_files k d")
  case Nil
  then have "files_closed ts [k] d = d"
    using file_closing.nothing_closable [OF Nil, of ts] by (simp add: attemptFileClosure_state)
  with Nil show ?thesis by (simp add: files_processJob_committed)
next
  case (Cons c cs)
  obtain t where "enqueue [closure_job SyncClosure (snd c)] q = (Inr (), t)"
    using assms unfolding accepts_def by blast
  with Cons show ?thesis by (cases c) (simp add: files_processJob_committed)
qed

lemma run_sync_job:
  "\<exists>result. run (syncs_processJob (tx_with None) wo ts
      \<lparr>job_key = key, payload = closure_job SyncClosure k\<rparr>) (d, q) =
      (Inr result, (snd (attemptSyncClosure ts k d), q)) \<and> invokedJobs result = []"
proof -
  have "transactionify (tx_with None) (worker_tx ATTEMPT_SYNC_CLOSURE wo) (attemptSyncClosure ts k) d =
      (Inr (closable_syncs k d, length (closable_syncs k d)), snd (attemptSyncClosure ts k d))"
    using sync_closing.attempt_pair [of ts k d] by (intro transactionify_commits)
  then show ?thesis by (simp add: syncs_processJob_def on_db_def)
qed

section \<open>The chain\<close>

lemma drain_files:
  assumes "accepts enqueue" and "distinct ks"
  shows "\<exists>invoked q'. drain (files_processJob (tx_with None) wo ts enqueue)
      (as_jobs (map (closure_job FileClosure) ks)) (d, q) = (Inr invoked, (files_closed ts ks d, q')) \<and>
    invoked = concat (map (\<lambda>k. case closable_files k d of [] \<Rightarrow> [] | (_, s) # _ \<Rightarrow> [closure_job SyncClosure s]) ks)"
  using assms(2)
proof (induction ks arbitrary: d q)
  case Nil
  have "files_closed ts [] d = d" by (simp add: files_closed_def update_where_none)
  then show ?case by simp
next
  case (Cons k ks)
  obtain result q' where job: "run (files_processJob (tx_with None) wo ts enqueue
      \<lparr>job_key = k, payload = closure_job FileClosure k\<rparr>) (d, q) = (Inr result, (files_closed ts [k] d, q'))"
    and inv: "invokedJobs result =
      (case closable_files k d of [] \<Rightarrow> [] | (_, s) # _ \<Rightarrow> [closure_job SyncClosure s])"
    using run_file_job [OF assms(1)] by blast
  from Cons.prems have "closable_files k' (files_closed ts [k] d) = closable_files k' d" if "k' \<in> set ks" for k'
    using that by (intro closable_files_after) auto
  then have "map (\<lambda>k'. case closable_files k' (files_closed ts [k] d) of [] \<Rightarrow> []
        | (_, s) # _ \<Rightarrow> [closure_job SyncClosure s]) ks =
      map (\<lambda>k'. case closable_files k' d of [] \<Rightarrow> [] | (_, s) # _ \<Rightarrow> [closure_job SyncClosure s]) ks"
    by simp
  with Cons.IH [of "files_closed ts [k] d" q'] Cons.prems job inv files_closed_append [of ts ks "[k]" d]
  show ?case by auto
qed

lemma attemptSyncClosure_simps:
  "files (snd (attemptSyncClosure ts k d)) = files d"
  "map s_id (syncs (snd (attemptSyncClosure ts k d))) = map s_id (syncs d)"
  by (simp_all add: attemptSyncClosure_def Let_def map_update_where_key)

text \<open>A completed sync stays completed, and an attempt on a sync whose files are all there closes it.\<close>

definition sync_done :: "string \<Rightarrow> store \<Rightarrow> bool" where
  "sync_done k d \<longleftrightarrow> list_ex (\<lambda>s. s_id s = k \<and> s_status s = COMPLETED) (syncs d)"

lemma attempted_row:
  assumes "s \<in> set (syncs d)"
  shows "(if sync_up_for_closure k d s then close_sync ts s else s) \<in>
    set (syncs (snd (attemptSyncClosure ts k d)))"
  using update_where_member [OF assms] by (simp add: attemptSyncClosure_def Let_def)

lemma sync_done_attempt:
  assumes "sync_done k d"
  shows "sync_done k (snd (attemptSyncClosure ts k' d))"
proof -
  from assms obtain s where "s \<in> set (syncs d)" "s_id s = k" "s_status s = COMPLETED"
    by (auto simp: sync_done_def list_ex_iff)
  with attempted_row [of s d k' ts] show ?thesis
    unfolding sync_done_def list_ex_iff by (metis close_sync_simps(1,2))
qed

text \<open>The sync itself, and its reruns that are in progress or done, close with a sync.\<close>

definition closes_with :: "string \<Rightarrow> sync_row \<Rightarrow> bool" where
  "closes_with k s \<longleftrightarrow> s_id s = k \<or> s_baseSyncId s = Some k \<and> s_status s \<in> {IN_PROGRESS, COMPLETED}"

lemma sync_closes:
  assumes "s \<in> set (syncs d)" and "closes_with k s"
    and "s_totalFiles s = Some (int (length (completed_files k d)))"
  shows "sync_done (s_id s) (snd (attemptSyncClosure ts k d))"
proof (cases "s_status s = COMPLETED")
  case True
  with assms show ?thesis by (intro sync_done_attempt) (auto simp: sync_done_def list_ex_iff)
next
  case False
  with assms have "sync_up_for_closure k d s" by (auto simp: sync_up_for_closure_def closes_with_def)
  with assms attempted_row [of s d k ts] show ?thesis
    unfolding sync_done_def list_ex_iff by (metis close_sync_simps(1,2))
qed

lemma attempt_keeps_row:
  assumes "s \<in> set (syncs d)"
  shows "\<exists>s' \<in> set (syncs (snd (attemptSyncClosure ts k' d))). s_id s' = s_id s \<and>
    s_totalFiles s' = s_totalFiles s \<and> (closes_with k s \<longrightarrow> closes_with k s')"
  using attempted_row [OF assms, of k' ts] by (rule bexI [rotated]) (auto simp: closes_with_def)

lemma drain_syncs:
  "\<exists>d'. drain (syncs_processJob (tx_with None) wo ts)
      (as_jobs (map (closure_job SyncClosure) ks)) (d, q) = (Inr [], (d', q)) \<and> files d' = files d \<and>
    (\<forall>j. sync_done j d \<longrightarrow> sync_done j d') \<and>
    (k \<in> set ks \<longrightarrow> (\<forall>s \<in> set (syncs d). closes_with k s \<and>
      s_totalFiles s = Some (int (length (completed_files k d))) \<longrightarrow> sync_done (s_id s) d'))"
proof (induction ks arbitrary: d)
  case Nil
  then show ?case by simp
next
  case (Cons k' ks)
  let ?d = "snd (attemptSyncClosure ts k' d)"
  obtain result where job: "run (syncs_processJob (tx_with None) wo ts
      \<lparr>job_key = k', payload = closure_job SyncClosure k'\<rparr>) (d, q) = (Inr result, (?d, q))"
    and inv: "invokedJobs result = []" using run_sync_job [of wo ts k' k' d q] by blast
  obtain d' where d': "drain (syncs_processJob (tx_with None) wo ts)
      (as_jobs (map (closure_job SyncClosure) ks)) (?d, q) = (Inr [], (d', q))" "files d' = files ?d"
    and kept: "\<And>j. sync_done j ?d \<Longrightarrow> sync_done j d'"
    and IH: "\<And>s. k \<in> set ks \<Longrightarrow> s \<in> set (syncs ?d) \<Longrightarrow> closes_with k s \<Longrightarrow>
      s_totalFiles s = Some (int (length (completed_files k ?d))) \<Longrightarrow> sync_done (s_id s) d'"
    using Cons.IH by blast
  have same: "completed_files k ?d = completed_files k d"
    by (simp add: completed_files_def attemptSyncClosure_simps)
  have "sync_done (s_id s) d'" if "k \<in> set (k' # ks)" and s: "s \<in> set (syncs d)" "closes_with k s"
      "s_totalFiles s = Some (int (length (completed_files k d)))" for s
  proof (cases "k = k'")
    case True
    then show ?thesis using s kept sync_closes [of s d k' ts] by simp
  next
    case False
    with that attempt_keeps_row [OF s(1), of ts k' k] IH same show ?thesis by fastforce
  qed
  moreover have "sync_done j d'" if "sync_done j d" for j
    using that kept sync_done_attempt by blast
  ultimately show ?case using job inv d' by (auto simp: attemptSyncClosure_simps)
qed

text \<open>
  The chain closes a sync, and its reruns in progress, as far as they count its files right: when
  every file of the sync is completed or open with all its entities closed and one of them in the
  changeset.
\<close>

lemma chain_closes_sync:
  assumes acc: "accepts enqueue"
    and ready: "\<And>f. f \<in> set (files d) \<Longrightarrow> f_syncId f = k \<Longrightarrow> f_status f \<noteq> COMPLETED \<Longrightarrow>
      f_fileId f \<in> set (open_files_of_changesets [c] d) \<and> file_up_for_closure (f_fileId f) d f"
    and some: "f0 \<in> set (files d)" "f_syncId f0 = k" "f_status f0 \<noteq> COMPLETED"
    and wf: "db_wf d"
  shows "\<exists>d' q'. run_closures wo ts enqueue c (d, q) = (Inr (), (d', q')) \<and>
    (\<forall>s \<in> set (syncs d). closes_with k s \<and>
      s_totalFiles s = Some (int (length (filter (\<lambda>f. f_syncId f = k) (files d)))) \<longrightarrow> sync_done (s_id s) d') \<and>
    (\<forall>f \<in> set (files d'). f_syncId f = k \<longrightarrow> f_status f = COMPLETED)"
proof -
  let ?ks = "open_files_of_changesets [c] d" and ?d = "files_closed ts (open_files_of_changesets [c] d) d"
  let ?jobs = "concat (map (\<lambda>k. case closable_files k d of [] \<Rightarrow> []
    | (_, s) # _ \<Rightarrow> [closure_job SyncClosure s]) ?ks)"
  obtain result q1 where first: "run (changesets_processJob (tx_with None) wo enqueue
      \<lparr>job_key = c, payload = closure_job ChangesetClosure c\<rparr>) (d, q) = (Inr result, (d, q1))"
    "invokedJobs result = map (closure_job FileClosure) ?ks"
    using run_changeset_job [OF acc, of wo c c d q] by blast
  have dist: "distinct ?ks" by (simp add: open_files_of_changesets_def)
  obtain q2 where second: "drain (files_processJob (tx_with None) wo ts enqueue)
      (as_jobs (map (closure_job FileClosure) ?ks)) (d, q1) = (Inr ?jobs, (?d, q2))"
    using drain_files [OF acc dist, of wo ts d q1] by blast
  define syncIds where "syncIds = concat (map (\<lambda>k. case closable_files k d of [] \<Rightarrow> [] | (_, s) # _ \<Rightarrow> [s]) ?ks)"
  have jobs: "?jobs = map (closure_job SyncClosure) syncIds"
    unfolding syncIds_def map_concat map_map
    by (intro arg_cong [of _ _ concat] map_cong) (auto split: list.splits)
  have closed: "f_status f = COMPLETED" if "f \<in> set (files ?d)" "f_syncId f = k" for f
    using that ready by (auto simp: files_closed_def set_update_where)
  have owned: "length (filter (\<lambda>f. f_syncId f = k) (files ?d)) = length (filter (\<lambda>f. f_syncId f = k) (files d))"
    by (simp add: files_closed_def filter_update_where_commute)
  have "completed_files k ?d = filter (\<lambda>f. f_syncId f = k) (files ?d)"
    unfolding completed_files_def by (intro filter_cong) (auto simp: closed)
  then have counted: "length (completed_files k ?d) = length (filter (\<lambda>f. f_syncId f = k) (files d))"
    using owned by simp
  have "k \<in> set syncIds"
  proof -
    have found: "f_fileId f0 \<in> set ?ks" "(f_fileId f0, k) \<in> set (closable_files (f_fileId f0) d)"
      using ready [OF some] some by (auto simp: set_closable_files)
    have own: "snd c' = k" if c': "c' \<in> set (closable_files (f_fileId f0) d)" for c'
    proof -
      have "(fst c', snd c') \<in> set (closable_files (f_fileId f0) d)" using c' by simp
      then obtain f where "f \<in> set (files d)" "f_fileId f = f_fileId f0" "snd c' = f_syncId f"
        by (auto simp only: set_closable_files file_up_for_closure_def)
      with distinct_key_eq [OF db_wfD(2) [OF wf], of f f0] some show ?thesis by simp
    qed
    obtain c0 cs where "closable_files (f_fileId f0) d = c0 # cs"
      using found(2) by (cases "closable_files (f_fileId f0) d") simp_all
    with own [of c0] have "(case closable_files (f_fileId f0) d of [] \<Rightarrow> [] | (_, s) # _ \<Rightarrow> [s]) = [k]"
      by (simp add: case_prod_beta)
    then have "k \<in> set ((\<lambda>k. case closable_files k d of [] \<Rightarrow> [] | (_, s) # _ \<Rightarrow> [s]) (f_fileId f0))"
      by simp
    with found(1) show ?thesis
      unfolding syncIds_def by (rule in_concat_map)
  qed
  moreover have "syncs ?d = syncs d" by (simp add: files_closed_def)
  ultimately obtain d'
    where third: "drain (syncs_processJob (tx_with None) wo ts) (as_jobs ?jobs) (?d, q2) = (Inr [], (d', q2))"
      "files d' = files ?d" "\<forall>s \<in> set (syncs d). closes_with k s \<and>
        s_totalFiles s = Some (int (length (filter (\<lambda>f. f_syncId f = k) (files d)))) \<longrightarrow> sync_done (s_id s) d'"
    using drain_syncs [of wo ts syncIds ?d q2 k] unfolding jobs counted by auto
  show ?thesis
  proof (intro exI conjI)
    show "run_closures wo ts enqueue c (d, q) = (Inr (), (d', q2))"
      using first second third(1) by (simp add: run_closures_def)
  qed (use third closed in auto)
qed

section \<open>Properties\<close>

text \<open>
  What a sync needs for a changeset to complete it: its \<open>total_files\<close> and the \<open>total_entities\<close> of
  its open files are right, and every open file is in progress, has an entity in the changeset, and
  has no entity that is neither in the changeset nor closed.
\<close>

definition awaits_changeset :: "string \<Rightarrow> string \<Rightarrow> store \<Rightarrow> bool" where
  "awaits_changeset c k d \<longleftrightarrow>
     list_ex (\<lambda>s. s_id s = k \<and>
       s_totalFiles s = Some (int (length (filter (\<lambda>f. f_syncId f = k) (files d))))) (syncs d) \<and>
     list_ex (\<lambda>f. f_syncId f = k \<and> f_status f \<noteq> COMPLETED) (files d) \<and>
     list_all (\<lambda>f. f_syncId f = k \<and> f_status f \<noteq> COMPLETED \<longrightarrow>
       f_status f = IN_PROGRESS \<and>
       f_totalEntities f = Some (int (length (filter (\<lambda>e. e_fileId e = f_fileId f) (entities d)))) \<and>
       list_ex (\<lambda>e. e_fileId e = f_fileId f \<and> e_changesetId e = Some c) (entities d) \<and>
       list_all (\<lambda>e. e_fileId e = f_fileId f \<longrightarrow> e_changesetId e = Some c \<or>
         e_status e = E_COMPLETED \<or> e_status e = E_NOT_SYNCED) (entities d)) (files d)"

lemma closed_after_changeset:
  assumes "\<And>e. e \<in> set es \<Longrightarrow> e_fileId e = k \<Longrightarrow> e_changesetId e = Some c \<or>
    e_status e = E_COMPLETED \<or> e_status e = E_NOT_SYNCED"
  shows "length (filter (\<lambda>e. e_fileId e = k \<and> e_status e \<in> {E_COMPLETED, E_NOT_SYNCED})
      (update_where (\<lambda>e. e_changesetId e = Some c) (\<lambda>e. e\<lparr>e_status := E_COMPLETED\<rparr>) es)) =
    length (filter (\<lambda>e. e_fileId e = k) es)"
  using assms by (induction es) auto

lemma in_changeset_after:
  assumes "list_ex (\<lambda>e. e_fileId e = k \<and> e_changesetId e = Some c) es"
  shows "\<exists>e \<in> set (update_where (\<lambda>e. e_changesetId e = Some c) (\<lambda>e. e\<lparr>e_status := E_COMPLETED\<rparr>) es).
    e_fileId e = k \<and> e_changesetId e = Some c"
  using assms by (induction es) auto

lemma changeset_completes:
  assumes acc: "accepts enqueue" and wf: "db_wf d"
    and c: "c \<in> c_changesetId ` set (changesets d)" and awaits: "awaits_changeset c k d"
  shows "\<exists>d1 d2 q'. run (updateChangesetEntities c) d = (Inr (), d1) \<and>
    run_closures wo ts enqueue c (d1, q) = (Inr (), (d2, q')) \<and> sync_done k d2 \<and>
    list_all (\<lambda>f. f_syncId f = k \<longrightarrow> f_status f = COMPLETED) (files d2) \<and>
    list_all (\<lambda>s. s_baseSyncId s = Some k \<and> s_status s = IN_PROGRESS \<and>
      s_totalFiles s = Some (int (length (filter (\<lambda>f. f_syncId f = k) (files d)))) \<longrightarrow>
      sync_done (s_id s) d2) (syncs d)"
proof -
  let ?done = "update_where (\<lambda>e. e_changesetId e = Some c) (\<lambda>e. e\<lparr>e_status := E_COMPLETED\<rparr>) (entities d)"
  define d1 where "d1 = d\<lparr>entities := ?done\<rparr>"
  have first: "run (updateChangesetEntities c) d = (Inr (), d1)"
    using c by (simp add: updateChangesetEntities_run d1_def)
  have wf1: "db_wf d1"
    using keeps_run [OF changeset_manager_keeps(4) wf, of c] first by simp
  from awaits obtain s f0 where s: "s \<in> set (syncs d1)" "s_id s = k"
      "s_totalFiles s = Some (int (length (filter (\<lambda>f. f_syncId f = k) (files d1))))"
    and f0: "f0 \<in> set (files d1)" "f_syncId f0 = k" "f_status f0 \<noteq> COMPLETED"
    by (auto simp: awaits_changeset_def list_ex_iff d1_def)
  have ready: "f_fileId f \<in> set (open_files_of_changesets [c] d1) \<and> file_up_for_closure (f_fileId f) d1 f"
    if f: "f \<in> set (files d1)" "f_syncId f = k" "f_status f \<noteq> COMPLETED" for f
  proof -
    from f awaits have "f_status f = IN_PROGRESS"
      and total: "f_totalEntities f = Some (int (length (filter (\<lambda>e. e_fileId e = f_fileId f) (entities d))))"
      and own: "list_ex (\<lambda>e. e_fileId e = f_fileId f \<and> e_changesetId e = Some c) (entities d)"
      and others: "\<And>e. e \<in> set (entities d) \<Longrightarrow> e_fileId e = f_fileId f \<Longrightarrow> e_changesetId e = Some c \<or>
        e_status e = E_COMPLETED \<or> e_status e = E_NOT_SYNCED"
      unfolding awaits_changeset_def list_all_iff by (auto simp: d1_def)
    then show ?thesis
      using f in_changeset_after [OF own] closed_after_changeset [OF others]
      by (auto simp: set_open_files_of_changesets file_up_for_closure_def closed_entities_def d1_def)
  qed
  from chain_closes_sync [OF acc ready f0 wf1, of wo ts q] obtain d2 q'
    where chain: "run_closures wo ts enqueue c (d1, q) = (Inr (), (d2, q'))"
      "\<forall>f \<in> set (files d2). f_syncId f = k \<longrightarrow> f_status f = COMPLETED"
      "\<And>r. r \<in> set (syncs d1) \<Longrightarrow> closes_with k r \<Longrightarrow>
        s_totalFiles r = Some (int (length (filter (\<lambda>f. f_syncId f = k) (files d1)))) \<Longrightarrow> sync_done (s_id r) d2"
    by blast
  have "sync_done k d2" using chain(3) [of s] s by (simp add: closes_with_def)
  moreover have "sync_done (s_id r) d2" if "r \<in> set (syncs d)" "s_baseSyncId r = Some k"
      "s_status r = IN_PROGRESS" "s_totalFiles r = Some (int (length (filter (\<lambda>f. f_syncId f = k) (files d))))" for r
    using that chain(3) [of r] by (simp add: closes_with_def d1_def)
  ultimately show ?thesis
    using first chain(1,2) unfolding list_all_iff by blast
qed




end
