(* ===== verification/Rerun_Recovery.thy ===== *)
theory Rerun_Recovery
  imports Closure_Pipeline Sync_Manager Entity_Manager
begin

text \<open>
  A rerun from its request to its end: the rerun is created, the client reports its entities with a
  changeset, the changeset is completed, and the closures complete the files, the failed sync and
  the rerun.
\<close>

section \<open>What a rerun leaves to do\<close>

text \<open>The entities of a rerun that somebody still has to report.\<close>

definition redo :: "bool \<Rightarrow> entity_row \<Rightarrow> bool" where
  "redo shouldRerunNotSynced e \<longleftrightarrow> e_status e \<in> {E_IN_PROGRESS, E_FAILED, E_IN_RERUN} \<or>
     shouldRerunNotSynced \<and> e_status e = E_NOT_SYNCED"

text \<open>
  A sync whose rerun can succeed: it counts its files that have entities; each of these counts its
  entities and is completed, with no open entity, or in progress, with one to redo; and some
  entity is to redo.
\<close>

definition recoverable :: "string \<Rightarrow> bool \<Rightarrow> store \<Rightarrow> bool" where
  "recoverable k flag d \<longleftrightarrow>
     list_all (\<lambda>s. s_id s = k \<longrightarrow> s_totalFiles s = Some (int (length
       (filter (\<lambda>f. f_syncId f = k \<and> \<not> empty_file k d f) (files d))))) (syncs d) \<and>
     list_all (\<lambda>f. f_syncId f = k \<and> \<not> empty_file k d f \<longrightarrow>
       f_totalEntities f = Some (int (length (filter (\<lambda>e. e_fileId e = f_fileId f) (entities d)))) \<and>
       (f_status f = COMPLETED \<and> list_all (\<lambda>e. e_fileId e = f_fileId f \<longrightarrow>
          e_status e \<in> {E_COMPLETED, E_NOT_SYNCED}) (entities d) \<or>
        f_status f = IN_PROGRESS \<and> list_ex (\<lambda>e. e_fileId e = f_fileId f \<and> redo flag e) (entities d)))
       (files d) \<and>
     list_ex (\<lambda>e. in_files_of k d e \<and> redo flag e) (entities d)"

text \<open>The client's report: every entity to redo is in it, and all of it is in the changeset.\<close>

definition reports :: "string \<Rightarrow> bool \<Rightarrow> string \<Rightarrow> entity_body list \<Rightarrow> store \<Rightarrow> bool" where
  "reports k flag c bs d \<longleftrightarrow> distinct (map eb_entityId bs) \<and>
     list_all (\<lambda>b. eb_changesetId b = Given c \<and> list_ex (matches_entity b) (entities d)) bs \<and>
     list_all (\<lambda>e. in_files_of k d e \<and> redo flag e \<longrightarrow> list_ex (\<lambda>b. matches_entity b e) bs) (entities d)"

lemma reports_saved:
  assumes rep: "reports k flag c bs d" and e: "e \<in> set (entities d)" "in_files_of k d e"
    and keys: "e_entityId e' = e_entityId e" "e_fileId e' = e_fileId e"
    and status: "e_status e' = e_status e \<or> redo flag e"
  shows "e_changesetId (saved bs e') = Some c \<or>
    e_status (saved bs e') \<in> {E_COMPLETED, E_NOT_SYNCED} \<and> \<not> redo flag e"
proof (cases "find (\<lambda>b. matches_entity b e') bs")
  case None
  then have "\<not> list_ex (\<lambda>b. matches_entity b e) bs"
    using keys by (auto simp: find_None_iff list_ex_iff matches_entity_def)
  with rep e have "\<not> redo flag e" by (auto simp: reports_def list_all_iff)
  with None status show ?thesis
    by (cases "e_status e") (auto simp: saved_def redo_def)
next
  case (Some b)
  then have "b \<in> set bs" by (auto simp: find_Some_iff)
  with rep have "eb_changesetId b = Given c" by (simp add: reports_def list_all_iff)
  with Some show ?thesis by (simp add: saved_def update_entity_row_def entity_update_of_def)
qed

lemma saved_keys [simp]:
  "e_entityId (saved bs e) = e_entityId e" "e_fileId (saved bs e) = e_fileId e"
  by (simp_all add: saved_def split: option.splits)

lemma length_filter_map_key:
  assumes "\<And>x. h (g x) = h x"
  shows "length (filter (\<lambda>x. h x = k) (map g xs)) = length (filter (\<lambda>x. h x = k) xs)"
  using assms by (induction xs) auto

section \<open>After the report, the sync awaits its changeset\<close>

text \<open>The database after the rerun and the report.\<close>

definition reported :: "rerun_env \<Rightarrow> rerun_request \<Rightarrow> entity_body list \<Rightarrow> store \<Rightarrow> store" where
  "reported re rr bs d =
     (let t = without_empty_files (rr_baseSyncId rr) d
      in t\<lparr>syncs := syncs d @ [sync_row_of (rr_rerunSync rr)], files := rerun_files re rr t,
           entities := map (saved bs) (rerun_entities rr t), history := history t @ rerun_history rr t\<rparr>)"

definition entity_reported :: "rerun_request \<Rightarrow> entity_body list \<Rightarrow> store \<Rightarrow> entity_row \<Rightarrow> entity_row" where
  "entity_reported rr bs d e = saved bs (if in_files_of (rr_baseSyncId rr) d e \<and>
     e_status e \<in> set (entityStatusesForRerun (rr_shouldRerunNotSynced rr)) then reset_entity e else e)"

lemma reported_entities:
  "entities (reported re rr bs d) = map (entity_reported rr bs d) (entities d)"
  by (simp add: reported_def rerun_entities_def update_where_def Let_def entity_reported_def cong: map_cong)

lemma entity_reported_file [simp]: "e_fileId (entity_reported rr bs d e) = e_fileId e"
  by (simp add: entity_reported_def reset_entity_def)

lemma reported_count:
  "length (filter (\<lambda>e. e_fileId e = x) (entities (reported re rr bs d))) =
    length (filter (\<lambda>e. e_fileId e = x) (entities d))"
  unfolding reported_entities by (rule length_filter_map_key) (rule entity_reported_file)

lemma entity_reported_done:
  assumes rep: "reports (rr_baseSyncId rr) (rr_shouldRerunNotSynced rr) c bs d"
    and e: "e \<in> set (entities d)" "in_files_of (rr_baseSyncId rr) d e"
  shows "e_changesetId (entity_reported rr bs d e) = Some c \<or>
    e_status (entity_reported rr bs d e) \<in> {E_COMPLETED, E_NOT_SYNCED} \<and> \<not> redo (rr_shouldRerunNotSynced rr) e"
proof -
  let ?e = "if in_files_of (rr_baseSyncId rr) d e \<and>
     e_status e \<in> set (entityStatusesForRerun (rr_shouldRerunNotSynced rr)) then reset_entity e else e"
  have "e_status ?e = e_status e \<or> redo (rr_shouldRerunNotSynced rr) e"
    by (auto simp: entityStatusesForRerun_def redo_def)
  with reports_saved [OF rep e, of ?e] show ?thesis
    unfolding entity_reported_def by (simp add: reset_entity_def)
qed

lemma reported_files:
  "files (reported re rr bs d) = rerun_files re rr (without_empty_files (rr_baseSyncId rr) d)"
  by (simp add: reported_def Let_def)

lemma reported_file_count:
  "length (filter (\<lambda>f. f_syncId f = rr_baseSyncId rr) (files (reported re rr bs d))) =
    length (filter (\<lambda>f. f_syncId f = rr_baseSyncId rr \<and> \<not> empty_file (rr_baseSyncId rr) d f) (files d))"
proof -
  have "length (filter (\<lambda>f. f_syncId f = rr_baseSyncId rr) (files (reported re rr bs d))) =
      length (filter (\<lambda>f. f_syncId f = rr_baseSyncId rr) (files (without_empty_files (rr_baseSyncId rr) d)))"
    unfolding reported_files rerun_files_def update_where_def
    by (simp add: length_filter_map_key [where h = f_syncId] close_file_def)
  then show ?thesis by (simp add: conj_commute)
qed

text \<open>A file after the rerun: the same but for its status, and open only with entities to redo.\<close>

lemma reported_file:
  assumes "f' \<in> set (files (reported re rr bs d))" and "f_syncId f' = rr_baseSyncId rr"
  obtains f where "f \<in> set (files d)" "f_syncId f = rr_baseSyncId rr" "\<not> empty_file (rr_baseSyncId rr) d f"
    "f_fileId f' = f_fileId f" "f_totalEntities f' = f_totalEntities f"
    "f_status f' = f_status f \<or> f_status f' = COMPLETED \<or> f_status f' = IN_PROGRESS \<and>
      rr_shouldRerunNotSynced rr \<and> not_synced_file (rr_baseSyncId rr) d f"
  using assms
  by (auto simp: reported_files rerun_files_def set_update_where close_file_def split: if_splits)

lemma open_file_reported:
  assumes f: "f \<in> set (files d)" "f_syncId f = rr_baseSyncId rr"
    and e: "e \<in> set (entities d)" "e_fileId e = f_fileId f" "redo (rr_shouldRerunNotSynced rr) e"
    and total: "f_totalEntities f = Some (int (length (filter (\<lambda>e. e_fileId e = f_fileId f) (entities d))))"
    and status: "f_status f = IN_PROGRESS \<or> e_status e = E_NOT_SYNCED"
  shows "\<exists>f' \<in> set (files (reported re rr bs d)). f_syncId f' = rr_baseSyncId rr \<and> f_status f' \<noteq> COMPLETED"
proof (cases "rr_shouldRerunNotSynced rr")
  case True
  let ?t = "without_empty_files (rr_baseSyncId rr) d"
  let ?f = "if not_synced_file (rr_baseSyncId rr) ?t f then f\<lparr>f_status := IN_PROGRESS\<rparr> else f"
  have "f \<in> set (files ?t)" using f e(1,2) by (auto simp: empty_file_def list_all_iff)
  from update_where_member [OF this, of "not_synced_file (rr_baseSyncId rr) ?t" "\<lambda>f. f\<lparr>f_status := IN_PROGRESS\<rparr>"]
  have "?f \<in> set (files (reported re rr bs d))"
    unfolding reported_files rerun_files_def using True by simp
  moreover have "f_status ?f \<noteq> COMPLETED"
    using status f(2) e by (auto simp: not_synced_file_def list_ex_iff)
  moreover have "f_syncId ?f = rr_baseSyncId rr" using f(2) by simp
  ultimately show ?thesis by blast
next
  case False
  let ?t = "without_empty_files (rr_baseSyncId rr) d"
  have "length (closed_entities (f_fileId f) d) < length (filter (\<lambda>e. e_fileId e = f_fileId f) (entities d))"
    using length_filter_less [of e "filter (\<lambda>e. e_fileId e = f_fileId f) (entities d)"
      "\<lambda>e. e_status e \<in> {E_COMPLETED, E_NOT_SYNCED}"] e False
    by (simp add: closed_entities_def redo_def conj_commute) auto
  then have "\<not> dangling_file (rr_baseSyncId rr) d f" using total by (simp add: dangling_file_def)
  moreover have "f \<in> set (files ?t)" using f e(1,2) by (auto simp: empty_file_def list_all_iff)
  moreover have "f_status f = IN_PROGRESS" using status e(3) False by (auto simp: redo_def)
  ultimately show ?thesis
    using update_where_member [of f "files ?t" "dangling_file (rr_baseSyncId rr) ?t" "close_file (now (re_env re))"] f False
    by (intro bexI [of _ f]) (simp_all add: reported_files rerun_files_def)
qed

lemma reported_awaits:
  assumes base: "base \<in> set (syncs d)" "s_id base = rr_baseSyncId rr"
    and ok: "recoverable (rr_baseSyncId rr) (rr_shouldRerunNotSynced rr) d"
    and rep: "reports (rr_baseSyncId rr) (rr_shouldRerunNotSynced rr) c bs d"
  shows "awaits_changeset c (rr_baseSyncId rr) (reported re rr bs d)"
proof -
  let ?b = "rr_baseSyncId rr" and ?d = "reported re rr bs d"
  have total: "list_ex (\<lambda>s. s_id s = ?b \<and>
      s_totalFiles s = Some (int (length (filter (\<lambda>f. f_syncId f = ?b) (files ?d))))) (syncs ?d)"
    using ok base unfolding reported_file_count
    by (auto simp: recoverable_def list_all_iff list_ex_iff reported_def Let_def)
  have own_file: "f_totalEntities f = Some (int (length (filter (\<lambda>e. e_fileId e = f_fileId f) (entities d))))"
      "f_status f = COMPLETED \<and> (\<forall>e \<in> set (entities d). e_fileId e = f_fileId f \<longrightarrow>
         e_status e \<in> {E_COMPLETED, E_NOT_SYNCED}) \<or>
       f_status f = IN_PROGRESS \<and> (\<exists>e \<in> set (entities d). e_fileId e = f_fileId f \<and> redo (rr_shouldRerunNotSynced rr) e)"
    if "f \<in> set (files d)" "f_syncId f = ?b" "\<not> empty_file ?b d f" for f
    using ok that by (simp_all add: recoverable_def list_all_iff list_ex_iff)
  from ok obtain e0 f0 where e0: "e0 \<in> set (entities d)" "redo (rr_shouldRerunNotSynced rr) e0"
    and f0: "f0 \<in> set (files d)" "f_syncId f0 = ?b" "e_fileId e0 = f_fileId f0"
    by (auto simp: recoverable_def list_ex_iff in_files_of_def)
  then have "\<not> empty_file ?b d f0" by (auto simp: empty_file_def list_all_iff)
  note file0 = own_file [OF f0(1,2) this]
  have "f_status f0 = IN_PROGRESS \<or> e_status e0 = E_NOT_SYNCED"
    using file0(2) e0 f0(3) by (auto simp: redo_def)
  from open_file_reported [OF f0(1,2) e0(1) f0(3) e0(2) file0(1) this]
  have some: "list_ex (\<lambda>f. f_syncId f = ?b \<and> f_status f \<noteq> COMPLETED) (files ?d)"
    by (simp add: list_ex_iff)
  have ready: "f_status f' = IN_PROGRESS \<and>
      f_totalEntities f' = Some (int (length (filter (\<lambda>e. e_fileId e = f_fileId f') (entities ?d)))) \<and>
      (\<exists>e \<in> set (entities ?d). e_fileId e = f_fileId f' \<and> e_changesetId e = Some c) \<and>
      (\<forall>e \<in> set (entities ?d). e_fileId e = f_fileId f' \<longrightarrow> e_changesetId e = Some c \<or>
         e_status e = E_COMPLETED \<or> e_status e = E_NOT_SYNCED)"
    if f': "f' \<in> set (files ?d)" "f_syncId f' = ?b" "f_status f' \<noteq> COMPLETED" for f'
  proof -
    from f'(1,2) obtain f where f: "f \<in> set (files d)" "f_syncId f = ?b" "\<not> empty_file ?b d f"
      and same: "f_fileId f' = f_fileId f" "f_totalEntities f' = f_totalEntities f"
      and status: "f_status f' = f_status f \<or> f_status f' = COMPLETED \<or> f_status f' = IN_PROGRESS \<and>
        rr_shouldRerunNotSynced rr \<and> not_synced_file ?b d f"
      by (rule reported_file)
    have own: "in_files_of ?b d e" if "e_fileId e = f_fileId f" for e
      using that f by (auto simp: in_files_of_def list_ex_iff)
    have "\<exists>e \<in> set (entities d). e_fileId e = f_fileId f \<and> redo (rr_shouldRerunNotSynced rr) e"
      using status f'(3) own_file(2) [OF f] by (auto simp: not_synced_file_def list_ex_iff redo_def)
    then have "\<exists>e \<in> set (entities ?d). e_fileId e = f_fileId f' \<and> e_changesetId e = Some c"
      using entity_reported_done [OF rep _ own] same(1) by (fastforce simp: reported_entities)
    moreover have "\<forall>e \<in> set (entities ?d). e_fileId e = f_fileId f' \<longrightarrow> e_changesetId e = Some c \<or>
         e_status e = E_COMPLETED \<or> e_status e = E_NOT_SYNCED"
      using entity_reported_done [OF rep _ own] same(1) by (fastforce simp: reported_entities)
    moreover have "f_status f' = IN_PROGRESS" using status f'(3) own_file(2) [OF f] by auto
    ultimately show ?thesis using own_file(1) [OF f] same by (simp add: reported_count)
  qed
  show ?thesis
    unfolding awaits_changeset_def
  proof (intro conjI total some)
    show "list_all (\<lambda>f. f_syncId f = ?b \<and> f_status f \<noteq> COMPLETED \<longrightarrow>
       f_status f = IN_PROGRESS \<and>
       f_totalEntities f = Some (int (length (filter (\<lambda>e. e_fileId e = f_fileId f) (entities ?d)))) \<and>
       list_ex (\<lambda>e. e_fileId e = f_fileId f \<and> e_changesetId e = Some c) (entities ?d) \<and>
       list_all (\<lambda>e. e_fileId e = f_fileId f \<longrightarrow> e_changesetId e = Some c \<or>
         e_status e = E_COMPLETED \<or> e_status e = E_NOT_SYNCED) (entities ?d)) (files ?d)"
      using ready unfolding list_all_iff list_ex_iff by blast
  qed
qed

section \<open>From the request to the end\<close>

lemma rerun_reported:
  assumes ld: "lodash_ok ld" and wf: "db_wf d" and sch: "schema re = ''osm_sync_tracker''"
    and run: "createRerun re True Commits rr d = (Inr True, d1)"
    and c: "c \<in> c_changesetId ` set (changesets d)"
    and ok: "recoverable (rr_baseSyncId rr) (rr_shouldRerunNotSynced rr) d"
    and rep: "reports (rr_baseSyncId rr) (rr_shouldRerunNotSynced rr) c bs d"
  shows "run (updateEntities env ld bs) d1 = (Inr (), reported re rr bs d)"
proof -
  let ?t = "without_empty_files (rr_baseSyncId rr) d"
  from createRerun_joined [OF wf sch run]
  have d1: "d1 = ?t\<lparr>syncs := syncs d @ [sync_row_of (rr_rerunSync rr)], files := rerun_files re rr ?t,
      entities := rerun_entities rr ?t, history := history ?t @ rerun_history rr ?t\<rparr>" by simp
  have wf1: "db_wf d1" using createRerun_wf [OF wf, of re True Commits rr] run by simp
  have found: "\<exists>e \<in> set (entities d1). matches_entity b e" if "b \<in> set bs" for b
  proof -
    from rep that obtain e where e: "e \<in> set (entities d)" "matches_entity b e"
      by (auto simp: reports_def list_all_iff list_ex_iff)
    let ?in = "\<lambda>e. in_files_of (rr_baseSyncId rr) ?t e \<and>
      e_status e \<in> set (entityStatusesForRerun (rr_shouldRerunNotSynced rr))"
    have ents: "entities d1 = update_where ?in reset_entity (entities d)"
      by (simp add: d1 rerun_entities_def)
    have "(if ?in e then reset_entity e else e) \<in> set (entities d1)"
      unfolding ents by (rule update_where_member [OF e(1)])
    moreover have "matches_entity b (if ?in e then reset_entity e else e)"
      using e(2) by (simp add: matches_entity_def reset_entity_def)
    ultimately show ?thesis by blast
  qed
  have "bs \<noteq> []" using ok rep
    by (auto simp: recoverable_def reports_def list_all_iff list_ex_iff)
  moreover have "list_all (\<lambda>b. eb_fileId b \<noteq> None) bs"
    using found unfolding list_all_iff matches_entity_def by (metis option.distinct(1))
  moreover have "list_all (\<lambda>b. ref_ok c_changesetId (changesets d1) (to_nullable (eb_changesetId b))) bs"
    using rep c by (auto simp: reports_def list_all_iff d1 ref_ok_def)
  ultimately have "run (updateEntities env ld bs) d1 = (Inr (), d1\<lparr>entities := map (saved bs) (entities d1)\<rparr>)"
    using updateEntities_run [OF ld wf1, of bs env] rep found
    by (simp add: reports_def list_all_iff list_ex_iff)
  then show ?thesis by (simp add: reported_def d1 Let_def)
qed



end
