(* ===== verification/Request_Atomicity.thy ===== *)
theory Request_Atomicity
  imports Controllers
begin

text \<open>
  A request that fails leaves no trace: every manager reads first and writes with one statement at
  its end, and a statement that fails changes nothing.  \<open>error_atomic\<close> is that promise for a
  function, \<open>stmt_atomic\<close> for a statement.
\<close>

named_theorems atomic_intros \<open>functions that leave the database alone when they fail\<close>
named_theorems read_only \<open>statements that never change the database\<close>

section \<open>Statements and functions\<close>

definition stmt_atomic :: "(js_error, store, 'a) stmt \<Rightarrow> bool" where
  "stmt_atomic m \<longleftrightarrow> (\<forall>d e d'. db_wf d \<longrightarrow> m d = (Inl e, d') \<longrightarrow> d' = d)"

definition error_atomic :: "(js_error, store, 'a) prog \<Rightarrow> bool" where
  "error_atomic p \<longleftrightarrow> stmt_atomic (run p)"

lemma error_atomic_end [atomic_intros]: "error_atomic (return x)" "error_atomic (throw e)"
  by (simp_all add: error_atomic_def stmt_atomic_def)

lemma error_atomic_write [atomic_intros]:
  "stmt_atomic m \<Longrightarrow> error_atomic (await m (\<lambda>x. return (f x)))"
  by (auto simp: error_atomic_def stmt_atomic_def split: prod.splits sum.splits)

lemma error_atomic_read:
  assumes "\<And>d. snd (m d) = d" and "\<And>x. error_atomic (k x)"
  shows "error_atomic (await m k)"
  unfolding error_atomic_def stmt_atomic_def
proof (intro allI impI)
  fix d e d'
  assume "db_wf d" "run (await m k) d = (Inl e, d')"
  moreover have "m d = (fst (m d), d)" using assms(1) [of d] by (metis prod.collapse)
  ultimately show "d' = d"
    using assms(2) unfolding error_atomic_def stmt_atomic_def
    by (cases "m d"; cases "fst (m d)") auto
qed

lemma error_atomic_if [atomic_intros]:
  "error_atomic p \<Longrightarrow> error_atomic q \<Longrightarrow> error_atomic (if b then p else q)"
  by simp

lemma error_atomic_option [atomic_intros]:
  "error_atomic p \<Longrightarrow> (\<And>x. error_atomic (q x)) \<Longrightarrow>
    error_atomic (case z of None \<Rightarrow> p | Some x \<Rightarrow> q x)"
  by (cases z) simp_all

lemma error_atomic_list [atomic_intros]:
  "error_atomic p \<Longrightarrow> (\<And>x xs. error_atomic (q x xs)) \<Longrightarrow>
    error_atomic (case z of [] \<Rightarrow> p | x # xs \<Rightarrow> q x xs)"
  by (cases z) simp_all

lemma error_atomic_prod [atomic_intros]:
  "(\<And>x y. error_atomic (q x y)) \<Longrightarrow> error_atomic (case z of (x, y) \<Rightarrow> q x y)"
  by (cases z) simp_all

section \<open>The repositories\<close>

lemma queries_read_only [read_only]:
  "snd (findOneSync k d) = d" "snd (findSyncs w d) = d" "snd (filterSyncs sf d) = d"
  "snd (getLatestSync_row l g d) = d" "snd (findOneSyncWithLastRerun k d) = d"
  "snd (findOneFile k d) = d" "snd (findManyFilesByIds fs d) = d"
  "snd (findOneEntity k k' d) = d" "snd (findManyEntitiesByIds bs d) = d"
  "snd (countEntitiesByIds env ids d) = d" "snd (findOneChangeset k d) = d"
  by (simp_all add: findOneSync_def findSyncs_def filterSyncs_def getLatestSync_row_def
      findOneSyncWithLastRerun_def findOneFile_def findManyFilesByIds_def findOneEntity_def
      findManyEntitiesByIds_def countEntitiesByIds_def findOneChangeset_def)

lemma writes_atomic [atomic_intros]:
  "stmt_atomic (createSync_row sb)" "stmt_atomic (updateSync_row env k su)"
  "stmt_atomic (createFile_row fb)" "stmt_atomic (createFiles_rows fbs)" "stmt_atomic (updateFile_row env k fu)"
  "stmt_atomic (createEntity_row eb)" "stmt_atomic (createEntities_rows ebs)"
  "stmt_atomic (updateEntity_row env k k' eu)" "stmt_atomic (updateEntities_rows ebs)"
  "stmt_atomic (createChangeset cb)" "stmt_atomic (updateChangeset_row env k cu)"
  "stmt_atomic (updateEntitiesOfChangesetAsCompleted k)"
  by (auto simp: stmt_atomic_def createSync_row_def createSyncs_rows_def updateSync_row_def
      createFile_row_def createFiles_rows_def updateFile_row_def createEntity_row_def
      createEntities_rows_def updateEntity_row_def updateEntities_rows_def createChangeset_def
      insert_changesets_def updateChangeset_row_def updateEntitiesOfChangesetAsCompleted_def
      writing_Inl_iff Let_def split: option.splits if_splits)

lemma createRerun_atomic [atomic_intros]: "stmt_atomic (createRerun re True outcome rr)"
  unfolding stmt_atomic_def using createRerun_unchanged(1) by blast

section \<open>The managers\<close>

lemmas manager_defs =
  createChangeset_request_def getChangeset_def updateChangeset_def updateChangesetEntities_def
  createFile_def createRerunFile_def createFiles_def updateFile_def
  createEntity_def createEntities_def updateEntity_def updateEntities_def
  getSyncs_def getLatestSync_def createSync_def updateSync_def rerunSyncIfNeeded_def

lemma managers_atomic [atomic_intros]:
  "error_atomic (createChangeset_request cb)" "error_atomic (getChangeset k)"
  "error_atomic (updateChangeset env k cu)" "error_atomic (updateChangesetEntities k)"
  "error_atomic (createFile k fb)" "error_atomic (createFiles lf k fbs)"
  "error_atomic (updateFile env k k' fu)" "error_atomic (createEntity k eb)"
  "error_atomic (createEntities le k ebs)" "error_atomic (updateEntity env k k' eu)"
  "error_atomic (updateEntities env le ebs)" "error_atomic (getSyncs sf)"
  "error_atomic (getLatestSync l g)" "error_atomic (createSync sb)"
  "error_atomic (updateSync env k su)"
  "error_atomic (rerunSyncIfNeeded re True outcome k k' date flag)"
  unfolding manager_defs Let_def
  by (intro atomic_intros error_atomic_read | simp add: read_only | assumption)+

section \<open>The handlers\<close>

definition leaves_no_trace :: "(js_error, store, 'b response) prog \<Rightarrow> store \<Rightarrow> bool" where
  "leaves_no_trace handler d \<longleftrightarrow>
     (case run handler d of
        (Inr (Send status _), _) \<Rightarrow> status = OK \<or> status = CREATED
      | (Inr (Next e status), d') \<Rightarrow> d' = d \<and> status \<in> {None, Some NOT_FOUND, Some CONFLICT}
      | (Inl _, _) \<Rightarrow> False)"

lemma responding_no_trace:
  assumes "db_wf d" and "error_atomic p"
    and "\<And>x. case ok x of Send status _ \<Rightarrow> status = OK \<or> status = CREATED | _ \<Rightarrow> False"
    and "\<And>e. status_of e \<in> {None, Some NOT_FOUND, Some CONFLICT}"
  shows "leaves_no_trace (responding ok status_of p) d"
proof (cases "run p d")
  case (Pair r d')
  show ?thesis
  proof (cases r)
    case (Inl e)
    with Pair assms(1,2) have "d' = d" by (auto simp: error_atomic_def stmt_atomic_def)
    with Pair Inl assms(4) show ?thesis by (simp add: leaves_no_trace_def run_responding)
  next
    case (Inr x)
    with Pair assms(3) [of x] show ?thesis
      by (auto simp: leaves_no_trace_def run_responding split: response.splits)
  qed
qed

lemma statuses:
  "post_changeset_status e \<in> {None, Some NOT_FOUND, Some CONFLICT}"
  "changeset_status e \<in> {None, Some NOT_FOUND, Some CONFLICT}"
  "post_file_status e \<in> {None, Some NOT_FOUND, Some CONFLICT}"
  "post_files_status e \<in> {None, Some NOT_FOUND, Some CONFLICT}"
  "patch_file_status e \<in> {None, Some NOT_FOUND, Some CONFLICT}"
  "post_entity_status e \<in> {None, Some NOT_FOUND, Some CONFLICT}"
  "post_entities_status e \<in> {None, Some NOT_FOUND, Some CONFLICT}"
  "patch_entity_status e \<in> {None, Some NOT_FOUND, Some CONFLICT}"
  "patch_entities_status e \<in> {None, Some NOT_FOUND, Some CONFLICT}"
  "post_sync_status e \<in> {None, Some NOT_FOUND, Some CONFLICT}"
  "sync_not_found_status e \<in> {None, Some NOT_FOUND, Some CONFLICT}"
  "rerun_sync_status e \<in> {None, Some NOT_FOUND, Some CONFLICT}"
  by (cases e; simp add: sync_not_found_status_def)+

section \<open>Properties\<close>



text \<open>
  The statuses of an unknown file.  Creating an entity answers 404, patching one attaches no status
  to the same error.
\<close>

lemma unknown_file_statuses:
  assumes "k \<notin> f_fileId ` set (files d)" and "eb_fileId b = None"
  shows "run (postEntity k b) d = (Inr (Next (FileNotFoundError k) (Some NOT_FOUND)), d)"
    and "run (patchEntity env k e u) d = (Inr (Next (FileNotFoundError k) None), d)"
  using assms by (simp_all add: postEntity_def patchEntity_def run_responding createEntity_run updateEntity_run)

end
