(* ===== verification/Error_Statuses.thy ===== *)
theory Error_Statuses
  imports Request_Atomicity
begin

text \<open>
  Which errors a request can end with, and the status each gets.  \<open>throws_in E\<close> says of a function
  that every error it throws satisfies \<open>E\<close>; the four controllers then give every exception class of
  the program the same status, wherever it is thrown.
\<close>

named_theorems throws_intros \<open>functions whose errors are known\<close>

section \<open>Errors of statements and functions\<close>

definition stmt_throws_in :: "(js_error \<Rightarrow> bool) \<Rightarrow> (js_error, 's, 'a) stmt \<Rightarrow> bool" where
  "stmt_throws_in E m \<longleftrightarrow> (\<forall>s e t. m s = (Inl e, t) \<longrightarrow> E e)"

definition throws_in :: "(js_error \<Rightarrow> bool) \<Rightarrow> (js_error, 's, 'a) prog \<Rightarrow> bool" where
  "throws_in E p \<longleftrightarrow> stmt_throws_in E (run p)"

lemma throws_in_return [throws_intros]: "throws_in E (return x)"
  by (simp add: throws_in_def stmt_throws_in_def)

lemma throws_in_throw [throws_intros]: "E e \<Longrightarrow> throws_in E (throw e)"
  by (simp add: throws_in_def stmt_throws_in_def)

lemma throws_in_await [throws_intros]:
  assumes "stmt_throws_in E m" and "\<And>x. throws_in E (k x)"
  shows "throws_in E (await m k)"
  using assms unfolding throws_in_def stmt_throws_in_def
  by (auto split: prod.splits sum.splits)

lemma throws_in_if [throws_intros]: "throws_in E p \<Longrightarrow> throws_in E q \<Longrightarrow> throws_in E (if b then p else q)"
  by simp

lemma throws_in_option [throws_intros]:
  "throws_in E p \<Longrightarrow> (\<And>x. throws_in E (q x)) \<Longrightarrow> throws_in E (case z of None \<Rightarrow> p | Some x \<Rightarrow> q x)"
  by (cases z) simp_all

lemma throws_in_list [throws_intros]:
  "throws_in E p \<Longrightarrow> (\<And>x xs. throws_in E (q x xs)) \<Longrightarrow> throws_in E (case z of [] \<Rightarrow> p | x # xs \<Rightarrow> q x xs)"
  by (cases z) simp_all

lemma throws_in_prod [throws_intros]:
  "(\<And>x y. throws_in E (q x y)) \<Longrightarrow> throws_in E (case z of (x, y) \<Rightarrow> q x y)"
  by (cases z) simp_all

section \<open>The exception classes of the program\<close>

text \<open>The classes of \<^verbatim>\<open>src/src/*/models/errors.ts\<close>: something is missing, or there is a conflict.\<close>

fun http_status :: "js_error \<Rightarrow> int option" where
  "http_status (SyncNotFoundError _) = Some 404"
| "http_status (LatestSyncNotFoundError _ _) = Some 404"
| "http_status (FileNotFoundError _) = Some 404"
| "http_status (EntityNotFoundError _) = Some 404"
| "http_status (ChangesetNotFoundError _) = Some 404"
| "http_status (SyncAlreadyExistsError _) = Some 409"
| "http_status (FullSyncAlreadyExistsError _ _ _) = Some 409"
| "http_status (RerunAlreadyExistsError _) = Some 409"
| "http_status (InvalidSyncForRerunError _ _) = Some 409"
| "http_status (FileAlreadyExistsError _) = Some 409"
| "http_status (DuplicateFilesError _) = Some 409"
| "http_status (ConflictingRerunFileError _) = Some 409"
| "http_status (EntityAlreadyExistsError _) = Some 409"
| "http_status (DuplicateEntityError _) = Some 409"
| "http_status (ChangesetAlreadyExistsError _) = Some 409"
| "http_status _ = None"

definition foreign :: "js_error \<Rightarrow> bool" where
  "foreign e \<longleftrightarrow> http_status e = None"

lemma foreign_simps [simp]:
  "foreign (QueryFailedError c)" "foreign (OtherError x)" "foreign TypeError" "foreign TransactionFailureError"
  by (simp_all add: foreign_def)

text \<open>
  The statements of the repositories throw none of these classes, when what the library decides (the
  error of an empty update, of an aborted transaction or of its commit) is none of them.
\<close>

definition env_foreign :: "env \<Rightarrow> bool" where
  "env_foreign env \<longleftrightarrow> (\<forall>e. empty_update env = Inl e \<longrightarrow> foreign e)"

definition outcome_foreign :: "tx_outcome \<Rightarrow> bool" where
  "outcome_foreign outcome \<longleftrightarrow> (\<forall>e. outcome = Aborted e \<or> outcome = Commit_fails e \<longrightarrow> foreign e)"

lemma foreign_transaction_error [simp]: "foreign e \<Longrightarrow> foreign (transaction_error e)"
  by (simp add: transaction_error_def)

lemma sql_insert_foreign: "sql_insert pk typed fk new rows = Inl e \<Longrightarrow> foreign e"
  by (auto simp: sql_insert_def sql_errors split: if_splits)

lemma sql_update_foreign: "sql_update typed fk P f rows = Inl e \<Longrightarrow> foreign e"
  by (auto simp: sql_update_def sql_errors Let_def split: if_splits)

lemma reading_foreign: "stmt_throws_in foreign (reading q)"
  by (simp add: stmt_throws_in_def reading_def)

lemma queries_foreign:
  "stmt_throws_in foreign (findOneSync k)" "stmt_throws_in foreign (findSyncs w)"
  "stmt_throws_in foreign (filterSyncs sf)" "stmt_throws_in foreign (getLatestSync_row l g)"
  "stmt_throws_in foreign (findOneSyncWithLastRerun k)" "stmt_throws_in foreign (findOneFile k)"
  "stmt_throws_in foreign (findManyFilesByIds fs)" "stmt_throws_in foreign (findOneEntity k k')"
  "stmt_throws_in foreign (findManyEntitiesByIds bs)" "stmt_throws_in foreign (countEntitiesByIds env ids)"
  "stmt_throws_in foreign (findOneChangeset k)"
  by (simp_all add: findOneSync_def findSyncs_def filterSyncs_def getLatestSync_row_def
      findOneSyncWithLastRerun_def findOneFile_def findManyFilesByIds_def findOneEntity_def
      findManyEntitiesByIds_def countEntitiesByIds_def findOneChangeset_def reading_foreign)

lemma writes_foreign:
  "stmt_throws_in foreign (createSync_row sb)" "stmt_throws_in foreign (createFile_row fb)"
  "stmt_throws_in foreign (createFiles_rows fbs)" "stmt_throws_in foreign (createEntity_row eb)"
  "stmt_throws_in foreign (createEntities_rows ebs)" "stmt_throws_in foreign (updateEntities_rows ebs)"
  "stmt_throws_in foreign (createChangeset cb)"
  "stmt_throws_in foreign (updateEntitiesOfChangesetAsCompleted k)"
  by (auto simp: stmt_throws_in_def createSync_row_def createSyncs_rows_def createFile_row_def
      createFiles_rows_def createEntity_row_def createEntities_rows_def updateEntities_rows_def
      createChangeset_def insert_changesets_def updateEntitiesOfChangesetAsCompleted_def writing_Inl_iff
      Let_def sql_errors dest: sql_insert_foreign split: option.splits if_splits sum.splits)

lemma updates_foreign:
  assumes "env_foreign env"
  shows "stmt_throws_in foreign (updateSync_row env k su)" "stmt_throws_in foreign (updateFile_row env k fu)"
    "stmt_throws_in foreign (updateEntity_row env k k' eu)" "stmt_throws_in foreign (updateChangeset_row env k cu)"
  using assms
  by (auto simp: stmt_throws_in_def updateSync_row_def updateFile_row_def updateEntity_row_def
      updateChangeset_row_def writing_Inl_iff Let_def env_foreign_def dest: sql_update_foreign
      split: option.splits if_splits sum.splits)

text \<open>The transaction that creates a rerun.\<close>

lemma in_tx_throws [throws_intros]: "stmt_throws_in E m \<Longrightarrow> stmt_throws_in E (in_tx m)"
  by (auto simp: stmt_throws_in_def in_tx_def split: prod.splits)

lemma on_this_throws [throws_intros]: "stmt_throws_in E m \<Longrightarrow> stmt_throws_in E (on_this joins m)"
  by (cases joins) (auto simp: stmt_throws_in_def on_this_def in_tx_def split: prod.splits)

lemma rerun_statements_foreign:
  "stmt_throws_in foreign (deleteEmptyFiles k)" "stmt_throws_in foreign (tryClosingSync re k)"
  "stmt_throws_in foreign (createEntityHistory k k' b)" "stmt_throws_in foreign (prepareIncompleteFiles k)"
  "stmt_throws_in foreign (updateDanglingFilesAsCompleted ts k)"
  "stmt_throws_in foreign (prepareIncompleteEntities k sts)"
  by (auto simp: stmt_throws_in_def deleteEmptyFiles_def tryClosingSync_def createEntityHistory_def
      prepareIncompleteFiles_def updateDanglingFilesAsCompleted_def prepareIncompleteEntities_def
      writing_Inl_iff Let_def sql_errors dest: sql_insert_foreign split: option.splits if_splits)

lemma rerun_transaction_foreign: "throws_in foreign (rerun_transaction re joins rr)"
  unfolding rerun_transaction_def rerun_steps_def Let_def
  by (intro throws_intros rerun_statements_foreign queries_foreign writes_foreign
    | simp add: in_tx_throws rerun_statements_foreign)+

lemma createRerun_foreign:
  assumes "outcome_foreign outcome"
  shows "stmt_throws_in foreign (createRerun re joins outcome rr)"
proof -
  have "foreign e" if "run (rerun_transaction re joins rr) s = (Inl e, t)" for s e t
    using that rerun_transaction_foreign [of re joins rr] unfolding throws_in_def stmt_throws_in_def by blast
  then show ?thesis
    using assms unfolding stmt_throws_in_def createRerun_def outcome_foreign_def
    by (auto intro!: foreign_transaction_error split: tx_outcome.splits prod.splits sum.splits)
qed

section \<open>The handlers\<close>

text \<open>Every error a handler passes on has the status of its class, and none when it is foreign.\<close>

definition one_status :: "(js_error, 's, 'b response) prog \<Rightarrow> bool" where
  "one_status handler \<longleftrightarrow> (\<forall>s e status t. run handler s = (Inr (Next e status), t) \<longrightarrow> status = http_status e)"

lemma responding_status:
  assumes "throws_in (\<lambda>e. status_of e = f e) p" and "\<And>x. \<exists>st b. ok x = Send st b"
    and "run (responding ok status_of p) s = (Inr (Next e status), t)"
  shows "status = f e"
proof (cases "run p s")
  case (Pair r u)
  show ?thesis
  proof (cases r)
    case (Inl err)
    with Pair assms(3) have "e = err" "status = status_of err" by (auto simp: run_responding)
    moreover have "status_of err = f err"
      using assms(1) Pair Inl unfolding throws_in_def stmt_throws_in_def by blast
    ultimately show ?thesis by simp
  next
    case (Inr x)
    with Pair assms(3) have "ok x = Next e status" by (simp add: run_responding)
    with assms(2) [of x] show ?thesis by auto
  qed
qed

lemma one_status_responding:
  "throws_in (\<lambda>e. status_of e = http_status e) p \<Longrightarrow> (\<And>x. \<exists>st b. ok x = Send st b) \<Longrightarrow>
    one_status (responding ok status_of p)"
  unfolding one_status_def by (intro allI impI) (rule responding_status)

lemma stmt_foreign_or:
  "stmt_throws_in foreign m \<Longrightarrow> (\<And>e. foreign e \<Longrightarrow> E e) \<Longrightarrow> stmt_throws_in E m"
  by (auto simp: stmt_throws_in_def)

lemma foreign_statuses:
  assumes "foreign e"
  shows "post_changeset_status e = http_status e" "changeset_status e = http_status e"
    "post_file_status e = http_status e" "post_files_status e = http_status e"
    "patch_file_status e = http_status e" "post_entity_status e = http_status e"
    "post_entities_status e = http_status e" "patch_entity_status e = http_status e"
    "patch_entities_status e = http_status e" "post_sync_status e = http_status e"
    "sync_not_found_status e = http_status e" "rerun_sync_status e = http_status e"
    "None = http_status e"
  using assms by (cases e; simp add: foreign_def sync_not_found_status_def)+

section \<open>Properties\<close>

text \<open>
  C18: one status per exception class.  Whatever the database does, every error a request handler
  passes on has exactly the status of its class: 404 when the program found something missing, 409
  for a conflict, none for an error that is not the program's own.  The one exception is a patch of
  an entity of an unknown file, which attaches no status to \<open>FileNotFoundError\<close>.
\<close>

theorem errors_have_one_status:
  assumes "env_foreign env" and "outcome_foreign outcome"
  shows "one_status (postChangeset cb) \<and> one_status (getChangeset_handler k) \<and>
    one_status (patchChangeset env k cu) \<and> one_status (patchChangesetEntities k) \<and>
    one_status (postFile k fb) \<and> one_status (postFiles lf k fbs) \<and> one_status (patchFile env k k' fu) \<and>
    one_status (postEntity k eb) \<and> one_status (postEntities le k ebs) \<and>
    one_status (patchEntities env le ebs) \<and> one_status (getSyncs_handler tr camel q) \<and>
    one_status (getLatestSync_handler l g) \<and> one_status (postSync sb) \<and> one_status (patchSync env k su) \<and>
    one_status (rerunSync re joins outcome k k' date flag) \<and>
    (\<forall>d e status d'. run (patchEntity env k k' eu) d = (Inr (Next e status), d') \<longrightarrow>
      status = (if e = FileNotFoundError k then None else http_status e))"
proof (intro conjI)
  note unfold = postChangeset_def getChangeset_handler_def patchChangeset_def patchChangesetEntities_def
    postFile_def postFiles_def patchFile_def postEntity_def postEntities_def
    patchEntities_def getSyncs_handler_def getLatestSync_handler_def postSync_def patchSync_def
    rerunSync_def manager_defs Let_def
  note stmts = queries_foreign [THEN stmt_foreign_or] writes_foreign [THEN stmt_foreign_or]
    updates_foreign [OF assms(1), THEN stmt_foreign_or] createRerun_foreign [OF assms(2), THEN stmt_foreign_or]
  show "one_status (postChangeset cb)"
    and "one_status (getChangeset_handler k)"
    and "one_status (patchChangeset env k cu)"
    and "one_status (patchChangesetEntities k)"
    and "one_status (postFile k fb)"
    and "one_status (postFiles lf k fbs)"
    and "one_status (patchFile env k k' fu)"
    and "one_status (postEntity k eb)"
    and "one_status (postEntities le k ebs)"
    and "one_status (patchEntities env le ebs)"
    and "one_status (getSyncs_handler tr camel q)"
    and "one_status (getLatestSync_handler l g)"
    and "one_status (postSync sb)"
    and "one_status (patchSync env k su)"
    and "one_status (rerunSync re joins outcome k k' date flag)"
    unfolding unfold
    by (rule one_status_responding throws_intros stmts | erule foreign_statuses
      | simp add: http_codes sync_not_found_status_def)+
  let ?f = "\<lambda>e. if e = FileNotFoundError k then None else http_status e"
  have other: "patch_entity_status e = ?f e" if "foreign e" for e
    using foreign_statuses(8) [OF that] that by (auto simp: foreign_def)
  have "throws_in (\<lambda>e. patch_entity_status e = ?f e) (updateEntity env k k' eu)"
    unfolding updateEntity_def Let_def
    by (rule throws_intros stmts | erule other | simp add: http_codes)+
  then show "\<forall>d e status d'. run (patchEntity env k k' eu) d = (Inr (Next e status), d') \<longrightarrow> status = ?f e"
    unfolding patchEntity_def by (intro allI impI) (rule responding_status [where f = ?f], auto)
qed

theorem errors_have_one_status_witness:
  "run (postFile ''s1'' (example_file ''f1'' 2)) closable_db =
    (Inr (Next (FileAlreadyExistsError [''f1'']) (Some 409)), closable_db)"
proof -
  let ?e = "FileAlreadyExistsError [''f1'']"
  have run: "run (postFile ''s1'' (example_file ''f1'' 2)) closable_db =
      (Inr (Next ?e (post_file_status ?e)), closable_db)"
    using createFile_run [OF closable_db_wf, of "example_file ''f1'' 2" "''s1''"]
    by (simp add: postFile_def run_responding createFile_spec_def example_file_def example_dbs
        file_row_of_def file_typed_def int4_def table_map_def select_one_def)
  have "env_foreign example_env" and "outcome_foreign Commits"
    by (simp_all add: env_foreign_def outcome_foreign_def example_env_def)
  then have "one_status (postFile ''s1'' (example_file ''f1'' 2))"
    by (rule errors_have_one_status [THEN conjunct2, THEN conjunct2, THEN conjunct2, THEN conjunct2, THEN conjunct1])
  with run have "post_file_status ?e = http_status ?e" unfolding one_status_def by blast
  with run show ?thesis by simp
qed

end
