(* ===== verification/Migrations.thy ===== *)
theory Migrations
  imports Domain
begin

text \<open>
  \<^verbatim>\<open>src/db/migrations\<close>: the statements of the nine migrations, and what PostgreSQL does with them
  to the description of a database schema.  Every statement names the schema \<open>osm_sync_tracker\<close>, so
  names are written without it.  Of the rows only one thing matters here: whether a table has any,
  because a column that is NOT NULL and has no default cannot be added to a table with rows.
  The schema the migrations lead to is compared with the one the entity classes under
  \<^verbatim>\<open>src/src/*/DAL\<close> declare.
\<close>

section \<open>Schemas\<close>

datatype sql_type = Uuid | Timestamp | Integer | Boolean | Varchar | Text | Jsonb | Enum_type string

record column =
  col_name :: string
  col_type :: sql_type
  not_null :: bool
  col_default :: "string option"

definition col :: "string \<Rightarrow> sql_type \<Rightarrow> bool \<Rightarrow> string option \<Rightarrow> column" where
  "col n t required v = \<lparr>col_name = n, col_type = t, not_null = required, col_default = v\<rparr>"

datatype on_delete = No_action | Cascade

datatype constraint_def =
    Primary_key "string list"
  | Foreign_key string string string on_delete

record table =
  tb_columns :: "column list"
  tb_constraints :: "(string \<times> constraint_def) list"

datatype index_where = Column_equals string string | Column_in string "string list"

record index =
  ix_table :: string
  ix_unique :: bool
  ix_columns :: "string list"
  ix_include :: "string list"
  ix_where :: "index_where option"

record db_schema =
  sc_types :: "(string \<times> string list) list"
  sc_tables :: "(string \<times> table) list"
  sc_indexes :: "(string \<times> index) list"

definition empty_schema :: db_schema where
  "empty_schema = \<lparr>sc_types = [], sc_tables = [], sc_indexes = []\<rparr>"

datatype ddl =
    Create_type string "string list"
  | Drop_type string
  | Rename_type string string
  | Create_table string "column list" "(string \<times> constraint_def) list"
  | Drop_table string
  | Add_column string column
  | Drop_column string string
  | Add_constraint string string constraint_def
  | Drop_constraint string string
  | Set_default string string string
  | Drop_default string string
  | Set_type string string sql_type
  | Create_index bool string index
  | Drop_index bool string

datatype ddl_error =
    Already_exists string
  | Does_not_exist string
  | Still_needed string
  | Null_values string
  | Bad_default string

type_synonym 'a ddl_result = "ddl_error + 'a"

section \<open>What a statement does\<close>

definition without :: "string \<Rightarrow> (string \<times> 'a) list \<Rightarrow> (string \<times> 'a) list" where
  "without k ps = filter (\<lambda>p. fst p \<noteq> k) ps"

definition has_key :: "string \<Rightarrow> (string \<times> 'a) list \<Rightarrow> bool" where
  "has_key k ps \<longleftrightarrow> list_ex (\<lambda>p. fst p = k) ps"

definition has_column :: "table \<Rightarrow> string \<Rightarrow> bool" where
  "has_column tab c \<longleftrightarrow> list_ex (\<lambda>x. col_name x = c) (tb_columns tab)"

fun type_known :: "db_schema \<Rightarrow> sql_type \<Rightarrow> bool" where
  "type_known s (Enum_type n) \<longleftrightarrow> has_key n (sc_types s)"
| "type_known s _ \<longleftrightarrow> True"

text \<open>A default of an enumeration is one of its labels.\<close>

definition default_ok :: "db_schema \<Rightarrow> sql_type \<Rightarrow> string option \<Rightarrow> bool" where
  "default_ok s t v0 =
     (case (t, v0) of
        (Enum_type n, Some v) \<Rightarrow> (case map_of (sc_types s) n of None \<Rightarrow> False | Some labels \<Rightarrow> List.member labels v)
      | _ \<Rightarrow> True)"

definition column_ok :: "db_schema \<Rightarrow> column \<Rightarrow> bool" where
  "column_ok s c \<longleftrightarrow> type_known s (col_type c) \<and> default_ok s (col_type c) (col_default c)"

fun is_primary :: "constraint_def \<Rightarrow> bool" where
  "is_primary (Primary_key _) \<longleftrightarrow> True"
| "is_primary (Foreign_key _ _ _ _) \<longleftrightarrow> False"

fun references :: "string \<Rightarrow> constraint_def \<Rightarrow> bool" where
  "references t (Foreign_key _ u _ _) \<longleftrightarrow> u = t"
| "references t (Primary_key _) \<longleftrightarrow> False"

fun constraint_on :: "string \<Rightarrow> constraint_def \<Rightarrow> bool" where
  "constraint_on c (Primary_key cs) \<longleftrightarrow> List.member cs c"
| "constraint_on c (Foreign_key c' _ _ _) \<longleftrightarrow> c' = c"

definition referenced :: "db_schema \<Rightarrow> (string \<Rightarrow> bool) \<Rightarrow> string \<Rightarrow> bool" where
  "referenced s from t \<longleftrightarrow>
     list_ex (\<lambda>(u, tab). from u \<and> list_ex (\<lambda>(_, k). references t k) (tb_constraints tab)) (sc_tables s)"

fun where_column :: "index_where option \<Rightarrow> string list" where
  "where_column None = []"
| "where_column (Some (Column_equals c _)) = [c]"
| "where_column (Some (Column_in c _)) = [c]"

definition index_columns :: "index \<Rightarrow> string list" where
  "index_columns ix = ix_columns ix @ ix_include ix @ where_column (ix_where ix)"

definition on_table :: "string \<Rightarrow> (table \<Rightarrow> table ddl_result) \<Rightarrow> db_schema \<Rightarrow> db_schema ddl_result" where
  "on_table t f s =
     (case map_of (sc_tables s) t of
        None \<Rightarrow> Inl (Does_not_exist t)
      | Some tab \<Rightarrow> (case f tab of
            Inl e \<Rightarrow> Inl e
          | Inr tab' \<Rightarrow> Inr (s\<lparr>sc_tables := set_property t tab' (sc_tables s)\<rparr>)))"

definition on_column ::
  "string \<Rightarrow> string \<Rightarrow> (column \<Rightarrow> column ddl_result) \<Rightarrow> db_schema \<Rightarrow> db_schema ddl_result" where
  "on_column t c f = on_table t (\<lambda>tab.
     case find (\<lambda>x. col_name x = c) (tb_columns tab) of
       None \<Rightarrow> Inl (Does_not_exist c)
     | Some x \<Rightarrow> (case f x of
           Inl e \<Rightarrow> Inl e
         | Inr x' \<Rightarrow> Inr (tab\<lparr>tb_columns := map (\<lambda>y. if col_name y = c then x' else y) (tb_columns tab)\<rparr>)))"

text \<open>
  A primary key is the only one of its table; a foreign key refers to the primary key of a table.
\<close>

fun constraint_ok :: "db_schema \<Rightarrow> table \<Rightarrow> constraint_def \<Rightarrow> bool" where
  "constraint_ok s tab (Primary_key cs) \<longleftrightarrow>
     list_all (has_column tab) cs \<and> \<not> list_ex (\<lambda>(_, k). is_primary k) (tb_constraints tab)"
| "constraint_ok s tab (Foreign_key c u k _) \<longleftrightarrow> has_column tab c \<and>
     (case map_of (sc_tables s) u of
        None \<Rightarrow> False
      | Some target \<Rightarrow> list_ex (\<lambda>(_, d). d = Primary_key [k]) (tb_constraints target))"

definition add_constraint ::
  "string \<Rightarrow> string \<Rightarrow> constraint_def \<Rightarrow> db_schema \<Rightarrow> db_schema ddl_result" where
  "add_constraint t n k s = on_table t (\<lambda>tab.
     if has_key n (tb_constraints tab) then Inl (Already_exists n)
     else if \<not> constraint_ok s tab k then Inl (Does_not_exist n)
     else Inr (tab\<lparr>tb_constraints := tb_constraints tab @ [(n, k)]\<rparr>)) s"

text \<open>\<open>populated\<close> says which tables have rows.\<close>

fun apply_ddl :: "(string \<Rightarrow> bool) \<Rightarrow> ddl \<Rightarrow> db_schema \<Rightarrow> db_schema ddl_result" where
  "apply_ddl populated (Create_type n labels) s =
     (if has_key n (sc_types s) then Inl (Already_exists n)
      else Inr (s\<lparr>sc_types := sc_types s @ [(n, labels)]\<rparr>))"
| "apply_ddl populated (Drop_type n) s =
     (if \<not> has_key n (sc_types s) then Inl (Does_not_exist n)
      else if list_ex (\<lambda>(_, tab). list_ex (\<lambda>c. col_type c = Enum_type n) (tb_columns tab)) (sc_tables s)
      then Inl (Still_needed n)
      else Inr (s\<lparr>sc_types := without n (sc_types s)\<rparr>))"
| "apply_ddl populated (Rename_type n n') s =
     (if \<not> has_key n (sc_types s) then Inl (Does_not_exist n)
      else if has_key n' (sc_types s) then Inl (Already_exists n')
      else Inr (s\<lparr>sc_types := map (\<lambda>(m, labels). (if m = n then n' else m, labels)) (sc_types s),
             sc_tables := map (\<lambda>(t, tab). (t, tab\<lparr>tb_columns := map (\<lambda>c.
               if col_type c = Enum_type n then c\<lparr>col_type := Enum_type n'\<rparr> else c) (tb_columns tab)\<rparr>))
               (sc_tables s)\<rparr>))"
| "apply_ddl populated (Create_table t cs ks) s =
     (if has_key t (sc_tables s) then Inl (Already_exists t)
      else if \<not> list_all (column_ok s) cs then Inl (Does_not_exist t)
      else fold (\<lambda>(n, k) r. case r of Inl e \<Rightarrow> Inl e | Inr s' \<Rightarrow> add_constraint t n k s') ks
        (Inr (s\<lparr>sc_tables := sc_tables s @ [(t, \<lparr>tb_columns = cs, tb_constraints = []\<rparr>)]\<rparr>)))"
| "apply_ddl populated (Drop_table t) s =
     (if \<not> has_key t (sc_tables s) then Inl (Does_not_exist t)
      else if referenced s (\<lambda>u. u \<noteq> t) t then Inl (Still_needed t)
      else Inr (s\<lparr>sc_tables := without t (sc_tables s),
             sc_indexes := filter (\<lambda>(_, ix). ix_table ix \<noteq> t) (sc_indexes s)\<rparr>))"
| "apply_ddl populated (Add_column t c) s = on_table t (\<lambda>tab.
     if has_column tab (col_name c) then Inl (Already_exists (col_name c))
     else if \<not> column_ok s c then Inl (Does_not_exist (col_name c))
     else if not_null c \<and> col_default c = None \<and> populated t then Inl (Null_values (col_name c))
     else Inr (tab\<lparr>tb_columns := tb_columns tab @ [c]\<rparr>)) s"
| "apply_ddl populated (Drop_column t c) s =
     (case on_table t (\<lambda>tab.
         if \<not> has_column tab c then Inl (Does_not_exist c)
         else if list_ex (\<lambda>(_, k). is_primary k \<and> constraint_on c k) (tb_constraints tab) \<and>
           referenced s (\<lambda>_. True) t then Inl (Still_needed c)
         else Inr (tab\<lparr>tb_columns := filter (\<lambda>x. col_name x \<noteq> c) (tb_columns tab),
           tb_constraints := filter (\<lambda>(_, k). \<not> constraint_on c k) (tb_constraints tab)\<rparr>)) s of
        Inl e \<Rightarrow> Inl e
      | Inr s' \<Rightarrow> Inr (s'\<lparr>sc_indexes := filter (\<lambda>(_, ix).
          \<not> (ix_table ix = t \<and> List.member (index_columns ix) c)) (sc_indexes s')\<rparr>))"
| "apply_ddl populated (Add_constraint t n k) s = add_constraint t n k s"
| "apply_ddl populated (Drop_constraint t n) s = on_table t (\<lambda>tab.
     case map_of (tb_constraints tab) n of
       None \<Rightarrow> Inl (Does_not_exist n)
     | Some k \<Rightarrow> if is_primary k \<and> referenced s (\<lambda>_. True) t then Inl (Still_needed n)
         else Inr (tab\<lparr>tb_constraints := without n (tb_constraints tab)\<rparr>)) s"
| "apply_ddl populated (Set_default t c v) s = on_column t c (\<lambda>x.
     if default_ok s (col_type x) (Some v) then Inr (x\<lparr>col_default := Some v\<rparr>) else Inl (Bad_default c)) s"
| "apply_ddl populated (Drop_default t c) s = on_column t c (\<lambda>x. Inr (x\<lparr>col_default := None\<rparr>)) s"
| "apply_ddl populated (Set_type t c ty) s = on_column t c (\<lambda>x.
     if \<not> type_known s ty then Inl (Does_not_exist c)
     else if col_default x \<noteq> None then Inl (Bad_default c)
     else Inr (x\<lparr>col_type := ty\<rparr>)) s"
| "apply_ddl populated (Create_index if_not_exists n ix) s =
     (if has_key n (sc_indexes s) \<or> has_key n (sc_tables s)
      then (if if_not_exists then Inr s else Inl (Already_exists n))
      else (case map_of (sc_tables s) (ix_table ix) of
          None \<Rightarrow> Inl (Does_not_exist (ix_table ix))
        | Some tab \<Rightarrow> if list_all (has_column tab) (index_columns ix)
            then Inr (s\<lparr>sc_indexes := sc_indexes s @ [(n, ix)]\<rparr>)
            else Inl (Does_not_exist n)))"
| "apply_ddl populated (Drop_index if_exists n) s =
     (if has_key n (sc_indexes s) then Inr (s\<lparr>sc_indexes := without n (sc_indexes s)\<rparr>)
      else if if_exists then Inr s else Inl (Does_not_exist n))"

text \<open>The \<open>await\<close>s of a migration: the first statement that fails ends it.\<close>

fun run_ddl :: "(string \<Rightarrow> bool) \<Rightarrow> ddl list \<Rightarrow> db_schema \<Rightarrow> db_schema ddl_result" where
  "run_ddl populated [] s = Inr s"
| "run_ddl populated (q # qs) s =
     (case apply_ddl populated q s of Inl e \<Rightarrow> Inl e | Inr s' \<Rightarrow> run_ddl populated qs s')"

lemma run_ddl_append:
  "run_ddl populated (qs @ qs') s =
    (case run_ddl populated qs s of Inl e \<Rightarrow> Inl e | Inr s' \<Rightarrow> run_ddl populated qs' s')"
  by (induction qs arbitrary: s) (auto split: sum.splits)

section \<open>The migrations\<close>

text \<open>\<^verbatim>\<open>1621858416252-initialMigration.ts\<close>\<close>

definition initialMigration_up :: "ddl list" where
  "initialMigration_up = [
    Create_type ''sync_status_enum'' [''inprogress'', ''completed''],
    Create_table ''sync''
      [col ''id'' Uuid True None,
       col ''dump_date'' Timestamp True None,
       col ''start_date'' Timestamp True None,
       col ''end_date'' Timestamp False None,
       col ''status'' (Enum_type ''sync_status_enum'') True (Some ''inprogress''),
       col ''layer_id'' Integer True None,
       col ''is_full'' Boolean True None,
       col ''total_files'' Integer False None]
      [(''PK_a8e1dd683ac7b9fd6c42fb0ab3d'', Primary_key [''id''])],
    Create_type ''file_status_enum'' [''inprogress'', ''completed''],
    Create_table ''file''
      [col ''file_id'' Uuid True None,
       col ''sync_id'' Uuid True None,
       col ''start_date'' Timestamp True None,
       col ''end_date'' Timestamp False None,
       col ''status'' (Enum_type ''file_status_enum'') True (Some ''inprogress''),
       col ''total_entities'' Integer False None]
      [(''PK_17d33ab8699706c2b9edcd29340'', Primary_key [''file_id''])],
    Create_type ''entity_status_enum'' [''inprogress'', ''completed'', ''not_synced'', ''failed''],
    Create_type ''entity_action_enum'' [''create'', ''modify'', ''delete''],
    Create_table ''entity''
      [col ''entity_id'' Varchar True None,
       col ''file_id'' Uuid True None,
       col ''changeset_id'' Uuid False None,
       col ''status'' (Enum_type ''entity_status_enum'') True (Some ''inprogress''),
       col ''action'' (Enum_type ''entity_action_enum'') False None,
       col ''fail_reason'' Text False None]
      [(''PK_d3ba6c77bfcc4d2bf9a20d64897'', Primary_key [''entity_id''])],
    Create_table ''changeset''
      [col ''changeset_id'' Uuid True None,
       col ''osm_id'' Integer False None]
      [(''PK_93369eee06978180af05a101c3e'', Primary_key [''changeset_id''])],
    Add_constraint ''file'' ''FK_1c39660cbdc3080f4aa879b4cf3''
      (Foreign_key ''sync_id'' ''sync'' ''id'' No_action),
    Add_constraint ''entity'' ''FK_a4165c9d0cac4bdf8acd5282661''
      (Foreign_key ''file_id'' ''file'' ''file_id'' No_action),
    Add_constraint ''entity'' ''FK_12f1d58bf4136f5c79f54272b66''
      (Foreign_key ''changeset_id'' ''changeset'' ''changeset_id'' No_action)]"

definition initialMigration_down :: "ddl list" where
  "initialMigration_down = [
    Drop_constraint ''entity'' ''FK_12f1d58bf4136f5c79f54272b66'',
    Drop_constraint ''entity'' ''FK_a4165c9d0cac4bdf8acd5282661'',
    Drop_constraint ''file'' ''FK_1c39660cbdc3080f4aa879b4cf3'',
    Drop_table ''changeset'',
    Drop_table ''entity'',
    Drop_type ''entity_action_enum'',
    Drop_type ''entity_status_enum'',
    Drop_table ''file'',
    Drop_type ''file_status_enum'',
    Drop_table ''sync'',
    Drop_type ''sync_status_enum'']"

text \<open>\<^verbatim>\<open>1623568810719-addFileIdConstraintToEntity.ts\<close>\<close>

definition addFileIdConstraintToEntity_up :: "ddl list" where
  "addFileIdConstraintToEntity_up = [
    Drop_constraint ''entity'' ''PK_d3ba6c77bfcc4d2bf9a20d64897'',
    Add_constraint ''entity'' ''PK_b0d4cdc02ef316d72ae7ecf036a''
      (Primary_key [''entity_id'', ''file_id''])]"

definition addFileIdConstraintToEntity_down :: "ddl list" where
  "addFileIdConstraintToEntity_down = [
    Drop_constraint ''entity'' ''PK_b0d4cdc02ef316d72ae7ecf036a'',
    Add_constraint ''entity'' ''PK_d3ba6c77bfcc4d2bf9a20d64897''
      (Primary_key [''entity_id''])]"

text \<open>\<^verbatim>\<open>1635784228947-addEntityIndex.ts\<close>\<close>

definition addEntityIndex_up :: "ddl list" where
  "addEntityIndex_up = [
    Create_index False ''entity_file_id_entity_id_idx''
      \<lparr>ix_table = ''entity'', ix_unique = True, ix_columns = [''file_id'', ''entity_id''], ix_include = [''status''],
       ix_where = None\<rparr>]"

definition addEntityIndex_down :: "ddl list" where
  "addEntityIndex_down = [
    Drop_index False ''entity_file_id_entity_id_idx'']"

text \<open>\<^verbatim>\<open>1640244548987-addSyncGeometryType.ts\<close>\<close>

definition addSyncGeometryType_up :: "ddl list" where
  "addSyncGeometryType_up = [
    Create_type ''sync_geometry_type_enum'' [''point'', ''linestring'', ''polygon''],
    Add_column ''sync'' (col ''geometry_type'' (Enum_type ''sync_geometry_type_enum'') True None)]"

definition addSyncGeometryType_down :: "ddl list" where
  "addSyncGeometryType_down = [
    Drop_column ''sync'' ''geometry_type'',
    Drop_type ''sync_geometry_type_enum'']"

text \<open>\<^verbatim>\<open>1642616941477-addSyncRerunCompatibility.ts\<close>\<close>

definition addSyncRerunCompatibility_up :: "ddl list" where
  "addSyncRerunCompatibility_up = [
    Create_table ''entity_history''
      [col ''entity_id'' Varchar True None,
       col ''file_id'' Uuid True None,
       col ''sync_id'' Uuid True None,
       col ''changeset_id'' Uuid False None,
       col ''status'' (Enum_type ''entity_status_enum'') True None,
       col ''action'' (Enum_type ''entity_action_enum'') False None,
       col ''fail_reason'' Text False None]
      [(''PK_b6deb3c1e2ca280a4e40c102f77'', Primary_key [''entity_id'', ''file_id'', ''sync_id''])],
    Add_column ''sync'' (col ''base_sync_id'' Uuid False None),
    Add_column ''sync'' (col ''run_number'' Integer True (Some ''0'')),
    Rename_type ''entity_status_enum'' ''entity_status_enum_old'',
    Create_type ''entity_status_enum'' [''inprogress'', ''completed'', ''not_synced'', ''failed'', ''inrerun''],
    Drop_default ''entity'' ''status'',
    Set_type ''entity'' ''status'' (Enum_type ''entity_status_enum''),
    Set_type ''entity_history'' ''status'' (Enum_type ''entity_status_enum''),
    Set_default ''entity'' ''status'' ''inprogress'',
    Drop_type ''entity_status_enum_old'',
    Rename_type ''file_status_enum'' ''file_status_enum_old'',
    Create_type ''file_status_enum'' [''inprogress'', ''completed'', ''failed''],
    Drop_default ''file'' ''status'',
    Set_type ''file'' ''status'' (Enum_type ''file_status_enum''),
    Set_default ''file'' ''status'' ''inprogress'',
    Drop_type ''file_status_enum_old'',
    Rename_type ''sync_status_enum'' ''sync_status_enum_old'',
    Create_type ''sync_status_enum'' [''inprogress'', ''completed'', ''failed''],
    Drop_default ''sync'' ''status'',
    Set_type ''sync'' ''status'' (Enum_type ''sync_status_enum''),
    Set_default ''sync'' ''status'' ''inprogress'',
    Drop_type ''sync_status_enum_old'',
    Add_constraint ''sync'' ''FK_292a83d0034acd2443b6621105e''
      (Foreign_key ''base_sync_id'' ''sync'' ''id'' Cascade),
    Add_constraint ''entity_history'' ''FK_7007cc0fa39162086ab809dc7d2''
      (Foreign_key ''file_id'' ''file'' ''file_id'' No_action),
    Add_constraint ''entity_history'' ''FK_903243c8e78626eff434dd1c0dd''
      (Foreign_key ''changeset_id'' ''changeset'' ''changeset_id'' No_action)]"

definition addSyncRerunCompatibility_down :: "ddl list" where
  "addSyncRerunCompatibility_down = [
    Drop_constraint ''entity_history'' ''FK_903243c8e78626eff434dd1c0dd'',
    Drop_constraint ''entity_history'' ''FK_7007cc0fa39162086ab809dc7d2'',
    Drop_constraint ''sync'' ''FK_292a83d0034acd2443b6621105e'',
    Create_type ''sync_status_enum_old'' [''inprogress'', ''completed''],
    Drop_default ''sync'' ''status'',
    Set_type ''sync'' ''status'' (Enum_type ''sync_status_enum_old''),
    Set_default ''sync'' ''status'' ''inprogress'',
    Drop_type ''sync_status_enum'',
    Rename_type ''sync_status_enum_old'' ''sync_status_enum'',
    Create_type ''file_status_enum_old'' [''inprogress'', ''completed''],
    Drop_default ''file'' ''status'',
    Set_type ''file'' ''status'' (Enum_type ''file_status_enum_old''),
    Set_default ''file'' ''status'' ''inprogress'',
    Drop_type ''file_status_enum'',
    Rename_type ''file_status_enum_old'' ''file_status_enum'',
    Create_type ''entity_status_enum_old'' [''inprogress'', ''completed'', ''not_synced'', ''failed''],
    Drop_default ''entity'' ''status'',
    Set_type ''entity_history'' ''status'' (Enum_type ''entity_status_enum_old''),
    Set_type ''entity'' ''status'' (Enum_type ''entity_status_enum_old''),
    Set_default ''entity'' ''status'' ''inprogress'',
    Drop_type ''entity_status_enum'',
    Rename_type ''entity_status_enum_old'' ''entity_status_enum'',
    Drop_column ''sync'' ''run_number'',
    Drop_column ''sync'' ''base_sync_id'',
    Drop_table ''entity_history'']"

text \<open>\<^verbatim>\<open>1655191060812-addOnDeleteCascadeToManyToOneRelations.ts\<close>\<close>

definition addOnDeleteCascadeToManyToOneRelations_up :: "ddl list" where
  "addOnDeleteCascadeToManyToOneRelations_up = [
    Drop_constraint ''entity'' ''FK_a4165c9d0cac4bdf8acd5282661'',
    Drop_constraint ''entity'' ''FK_12f1d58bf4136f5c79f54272b66'',
    Drop_constraint ''file'' ''FK_1c39660cbdc3080f4aa879b4cf3'',
    Drop_constraint ''sync'' ''FK_292a83d0034acd2443b6621105e'',
    Drop_constraint ''entity_history'' ''FK_7007cc0fa39162086ab809dc7d2'',
    Drop_constraint ''entity_history'' ''FK_903243c8e78626eff434dd1c0dd'',
    Drop_index False ''entity_file_id_entity_id_idx'',
    Add_constraint ''entity'' ''FK_2d7ba486d8557ffd4255a2d6079''
      (Foreign_key ''file_id'' ''file'' ''file_id'' Cascade),
    Add_constraint ''entity'' ''FK_70a6f46890b72752922665b70a6''
      (Foreign_key ''changeset_id'' ''changeset'' ''changeset_id'' Cascade),
    Add_constraint ''file'' ''FK_dd9a1a2f4793462dec25c0bfd1e''
      (Foreign_key ''sync_id'' ''sync'' ''id'' Cascade),
    Add_constraint ''sync'' ''FK_9bba1992a2c7993b5d2a13e2c81''
      (Foreign_key ''base_sync_id'' ''sync'' ''id'' Cascade),
    Add_constraint ''entity_history'' ''FK_9e2bef2400a2f604c496dfdb924''
      (Foreign_key ''file_id'' ''file'' ''file_id'' Cascade),
    Add_constraint ''entity_history'' ''FK_790b0f11fdd7d1ee0fe13a017e7''
      (Foreign_key ''changeset_id'' ''changeset'' ''changeset_id'' Cascade)]"

definition addOnDeleteCascadeToManyToOneRelations_down :: "ddl list" where
  "addOnDeleteCascadeToManyToOneRelations_down = [
    Drop_constraint ''entity_history'' ''FK_790b0f11fdd7d1ee0fe13a017e7'',
    Drop_constraint ''entity_history'' ''FK_9e2bef2400a2f604c496dfdb924'',
    Drop_constraint ''sync'' ''FK_9bba1992a2c7993b5d2a13e2c81'',
    Drop_constraint ''file'' ''FK_dd9a1a2f4793462dec25c0bfd1e'',
    Drop_constraint ''entity'' ''FK_70a6f46890b72752922665b70a6'',
    Drop_constraint ''entity'' ''FK_2d7ba486d8557ffd4255a2d6079'',
    Create_index False ''entity_file_id_entity_id_idx''
      \<lparr>ix_table = ''entity'', ix_unique = True, ix_columns = [''entity_id'', ''file_id'', ''status''], ix_include = [],
       ix_where = None\<rparr>,
    Add_constraint ''entity_history'' ''FK_903243c8e78626eff434dd1c0dd''
      (Foreign_key ''changeset_id'' ''changeset'' ''changeset_id'' No_action),
    Add_constraint ''entity_history'' ''FK_7007cc0fa39162086ab809dc7d2''
      (Foreign_key ''file_id'' ''file'' ''file_id'' No_action),
    Add_constraint ''sync'' ''FK_292a83d0034acd2443b6621105e''
      (Foreign_key ''base_sync_id'' ''sync'' ''id'' Cascade),
    Add_constraint ''file'' ''FK_1c39660cbdc3080f4aa879b4cf3''
      (Foreign_key ''sync_id'' ''sync'' ''id'' No_action),
    Add_constraint ''entity'' ''FK_12f1d58bf4136f5c79f54272b66''
      (Foreign_key ''changeset_id'' ''changeset'' ''changeset_id'' No_action),
    Add_constraint ''entity'' ''FK_a4165c9d0cac4bdf8acd5282661''
      (Foreign_key ''file_id'' ''file'' ''file_id'' No_action)]"

text \<open>\<^verbatim>\<open>1655293587845-addBaseSyncIdToEntityHistory.ts\<close>\<close>

definition addBaseSyncIdToEntityHistory_up :: "ddl list" where
  "addBaseSyncIdToEntityHistory_up = [
    Add_column ''entity_history'' (col ''base_sync_id'' Uuid False None),
    Add_constraint ''entity_history'' ''FK_fdea55efea678dfb91caecc1dcb''
      (Foreign_key ''sync_id'' ''sync'' ''id'' Cascade),
    Add_constraint ''entity_history'' ''FK_9be25a56ae82b667f551d117014''
      (Foreign_key ''base_sync_id'' ''sync'' ''id'' Cascade)]"

definition addBaseSyncIdToEntityHistory_down :: "ddl list" where
  "addBaseSyncIdToEntityHistory_down = [
    Drop_constraint ''entity_history'' ''FK_9be25a56ae82b667f551d117014'',
    Drop_constraint ''entity_history'' ''FK_fdea55efea678dfb91caecc1dcb'',
    Drop_column ''entity_history'' ''base_sync_id'']"

text \<open>\<^verbatim>\<open>1702209748468-addSyncMetadata.ts\<close>\<close>

definition addSyncMetadata_up :: "ddl list" where
  "addSyncMetadata_up = [
    Add_column ''sync'' (col ''metadata'' Jsonb False None)]"

definition addSyncMetadata_down :: "ddl list" where
  "addSyncMetadata_down = [
    Drop_column ''sync'' ''metadata'']"

text \<open>\<^verbatim>\<open>1768731644992-addIndexing.ts\<close>\<close>

definition addIndexing_up :: "ddl list" where
  "addIndexing_up = [
    Create_index True ''idx_entity_file_closed''
      \<lparr>ix_table = ''entity'', ix_unique = False, ix_columns = [''file_id''], ix_include = [],
       ix_where = Some (Column_in ''status'' [''completed'', ''not_synced''])\<rparr>,
    Create_index True ''idx_entity_file_status''
      \<lparr>ix_table = ''entity'', ix_unique = False, ix_columns = [''file_id'', ''status''], ix_include = [],
       ix_where = None\<rparr>,
    Create_index True ''idx_entity_changeset_file''
      \<lparr>ix_table = ''entity'', ix_unique = False, ix_columns = [''changeset_id'', ''file_id''], ix_include = [],
       ix_where = None\<rparr>,
    Create_index True ''idx_file_sync_completed''
      \<lparr>ix_table = ''file'', ix_unique = False, ix_columns = [''sync_id''], ix_include = [],
       ix_where = Some (Column_equals ''status'' ''completed'')\<rparr>,
    Create_index True ''idx_file_sync_status''
      \<lparr>ix_table = ''file'', ix_unique = False, ix_columns = [''sync_id'', ''status''], ix_include = [],
       ix_where = None\<rparr>,
    Create_index True ''idx_file_status''
      \<lparr>ix_table = ''file'', ix_unique = False, ix_columns = [''status''], ix_include = [],
       ix_where = None\<rparr>,
    Create_index True ''idx_sync_base_status''
      \<lparr>ix_table = ''sync'', ix_unique = False, ix_columns = [''base_sync_id'', ''status''], ix_include = [],
       ix_where = None\<rparr>]"

definition addIndexing_down :: "ddl list" where
  "addIndexing_down = [
    Drop_index True ''idx_sync_base_status'',
    Drop_index True ''idx_file_status'',
    Drop_index True ''idx_file_sync_status'',
    Drop_index True ''idx_file_sync_completed'',
    Drop_index True ''idx_entity_changeset_file'',
    Drop_index True ''idx_entity_file_status'',
    Drop_index True ''idx_entity_file_closed'']"

definition migrations :: "(ddl list \<times> ddl list) list" where
  "migrations = [
    (initialMigration_up, initialMigration_down),
    (addFileIdConstraintToEntity_up, addFileIdConstraintToEntity_down),
    (addEntityIndex_up, addEntityIndex_down),
    (addSyncGeometryType_up, addSyncGeometryType_down),
    (addSyncRerunCompatibility_up, addSyncRerunCompatibility_down),
    (addOnDeleteCascadeToManyToOneRelations_up, addOnDeleteCascadeToManyToOneRelations_down),
    (addBaseSyncIdToEntityHistory_up, addBaseSyncIdToEntityHistory_down),
    (addSyncMetadata_up, addSyncMetadata_down),
    (addIndexing_up, addIndexing_down)]"

definition all_ups :: "ddl list" where
  "all_ups = concat (map fst migrations)"

definition all_downs :: "ddl list" where
  "all_downs = concat (map snd (rev migrations))"

end
