(* ===== verification/Migration_Properties.thy ===== *)
theory Migration_Properties
  imports Migrations
begin

text \<open>
  What the migrations do: whether each can be reverted, and that together they build the schema
  the entity classes of \<^verbatim>\<open>src/src/*/DAL\<close> declare.
\<close>

section \<open>Up and down again\<close>

text \<open>
  Two schemas agree when they have the same types, tables, columns and constraints, in whatever
  order; their indexes are compared apart.
\<close>

definition same_entries :: "('a \<Rightarrow> 'b \<Rightarrow> bool) \<Rightarrow> (string \<times> 'a) list \<Rightarrow> (string \<times> 'b) list \<Rightarrow> bool" where
  "same_entries R ps qs \<longleftrightarrow> length ps = length qs \<and>
     list_all (\<lambda>(k, x). case map_of qs k of None \<Rightarrow> False | Some y \<Rightarrow> R x y) ps"

definition same_table :: "table \<Rightarrow> table \<Rightarrow> bool" where
  "same_table t u \<longleftrightarrow> set (tb_columns t) = set (tb_columns u) \<and>
     set (tb_constraints t) = set (tb_constraints u)"

definition same_tables :: "db_schema \<Rightarrow> db_schema \<Rightarrow> bool" where
  "same_tables s t \<longleftrightarrow> same_entries (=) (sc_types s) (sc_types t) \<and>
     same_entries same_table (sc_tables s) (sc_tables t)"

definition same_indexes :: "db_schema \<Rightarrow> db_schema \<Rightarrow> bool" where
  "same_indexes s t \<longleftrightarrow> same_entries (=) (sc_indexes s) (sc_indexes t)"

text \<open>
  Going through the migrations: each one is applied and reverted, and what its \<open>down\<close> left is
  compared with what its \<open>up\<close> found.  \<open>None\<close>: a statement failed.
\<close>

fun reverts :: "(string \<Rightarrow> bool) \<Rightarrow> (ddl list \<times> ddl list) list \<Rightarrow> db_schema \<Rightarrow> (bool \<times> bool) list option" where
  "reverts populated [] s = Some []"
| "reverts populated ((up, down) # ms) s =
     (case run_ddl populated up s of
        Inl _ \<Rightarrow> None
      | Inr s' \<Rightarrow> (case run_ddl populated down s' of
          Inl _ \<Rightarrow> None
        | Inr s'' \<Rightarrow> map_option ((#) (same_tables s'' s, same_indexes s'' s)) (reverts populated ms s')))"

section \<open>What the entity classes declare\<close>

text \<open>
  \<open>@Column\<close> and \<open>@PrimaryColumn\<close>, \<open>@ManyToOne\<close> with its \<open>@JoinColumn\<close>, and \<open>@Index\<close>, which
  names properties.  A column without a type has the one TypeORM derives from the type of its
  property.
\<close>

datatype declared_type = Of_type sql_type | One_of "string list"

record declared_column =
  dc_property :: string
  dc_name :: string
  dc_type :: declared_type
  dc_nullable :: bool
  dc_default :: "string option"

definition dc :: "string \<Rightarrow> string \<Rightarrow> declared_type \<Rightarrow> bool \<Rightarrow> string option \<Rightarrow> declared_column" where
  "dc p n t nullable v = \<lparr>dc_property = p, dc_name = n, dc_type = t, dc_nullable = nullable, dc_default = v\<rparr>"

record entity_class =
  ec_table :: string
  ec_primary :: "string list"
  ec_columns :: "declared_column list"
  ec_relations :: "constraint_def list"
  ec_indexes :: "(string \<times> string list \<times> index_where option) list"

definition status_labels :: "string list" where
  "status_labels = map status_value [IN_PROGRESS, COMPLETED, FAILED]"

definition entity_status_labels :: "string list" where
  "entity_status_labels = map entity_status_value [E_IN_PROGRESS, E_COMPLETED, E_NOT_SYNCED, E_FAILED, E_IN_RERUN]"

fun action_value :: "action_type \<Rightarrow> string" where
  "action_value CREATE = ''create''"
| "action_value MODIFY = ''modify''"
| "action_value DELTE = ''delete''"

fun geometry_value :: "geometry_type \<Rightarrow> string" where
  "geometry_value POINT = ''point''"
| "geometry_value LINESTRING = ''linestring''"
| "geometry_value POLYGON = ''polygon''"

definition SyncDb :: entity_class where
  "SyncDb = \<lparr>ec_table = ''sync'', ec_primary = [''id''],
     ec_columns =
       [dc ''id'' ''id'' (Of_type Uuid) False None,
        dc ''dumpDate'' ''dump_date'' (Of_type Timestamp) False None,
        dc ''startDate'' ''start_date'' (Of_type Timestamp) False None,
        dc ''endDate'' ''end_date'' (Of_type Timestamp) True None,
        dc ''status'' ''status'' (One_of status_labels) False (Some (status_value IN_PROGRESS)),
        dc ''layerId'' ''layer_id'' (Of_type Integer) False None,
        dc ''isFull'' ''is_full'' (Of_type Boolean) False None,
        dc ''totalFiles'' ''total_files'' (Of_type Integer) True None,
        dc ''geometryType'' ''geometry_type'' (One_of (map geometry_value [POINT, LINESTRING, POLYGON])) False None,
        dc ''baseSyncId'' ''base_sync_id'' (Of_type Uuid) True None,
        dc ''runNumber'' ''run_number'' (Of_type Integer) False (Some ''0''),
        dc ''metadata'' ''metadata'' (Of_type Jsonb) True None],
     ec_relations = [Foreign_key ''base_sync_id'' ''sync'' ''id'' Cascade],
     ec_indexes = [(''idx_sync_base_status'', [''baseSyncId'', ''status''], None)]\<rparr>"

definition FileDb :: entity_class where
  "FileDb = \<lparr>ec_table = ''file'', ec_primary = [''fileId''],
     ec_columns =
       [dc ''fileId'' ''file_id'' (Of_type Uuid) False None,
        dc ''syncId'' ''sync_id'' (Of_type Uuid) False None,
        dc ''startDate'' ''start_date'' (Of_type Timestamp) False None,
        dc ''endDate'' ''end_date'' (Of_type Timestamp) True None,
        dc ''status'' ''status'' (One_of status_labels) False (Some (status_value IN_PROGRESS)),
        dc ''totalEntities'' ''total_entities'' (Of_type Integer) True None],
     ec_relations = [Foreign_key ''sync_id'' ''sync'' ''id'' Cascade],
     ec_indexes =
       [(''idx_file_status'', [''status''], None),
        (''idx_file_sync_status'', [''syncId'', ''status''], None),
        (''idx_file_sync_completed'', [''syncId''], Some (Column_equals ''status'' (status_value COMPLETED)))]\<rparr>"

definition EntityDb :: entity_class where
  "EntityDb = \<lparr>ec_table = ''entity'', ec_primary = [''entityId'', ''fileId''],
     ec_columns =
       [dc ''entityId'' ''entity_id'' (Of_type Varchar) False None,
        dc ''fileId'' ''file_id'' (Of_type Uuid) False None,
        dc ''changesetId'' ''changeset_id'' (Of_type Uuid) True None,
        dc ''status'' ''status'' (One_of entity_status_labels) False (Some (entity_status_value E_IN_PROGRESS)),
        dc ''action'' ''action'' (One_of (map action_value [CREATE, MODIFY, DELTE])) True None,
        dc ''failReason'' ''fail_reason'' (Of_type Text) True None],
     ec_relations =
       [Foreign_key ''file_id'' ''file'' ''file_id'' Cascade,
        Foreign_key ''changeset_id'' ''changeset'' ''changeset_id'' Cascade],
     ec_indexes =
       [(''idx_entity_changeset_file'', [''changesetId'', ''fileId''], None),
        (''idx_entity_file_status'', [''fileId'', ''status''], None),
        (''idx_entity_file_closed'', [''fileId''], Some (Column_in ''status''
          [entity_status_value E_COMPLETED, entity_status_value E_NOT_SYNCED]))]\<rparr>"

definition EntityHistoryDb :: entity_class where
  "EntityHistoryDb = \<lparr>ec_table = ''entity_history'', ec_primary = [''syncId'', ''entityId'', ''fileId''],
     ec_columns =
       [dc ''syncId'' ''sync_id'' (Of_type Uuid) False None,
        dc ''baseSyncId'' ''base_sync_id'' (Of_type Uuid) True None,
        dc ''entityId'' ''entity_id'' (Of_type Varchar) False None,
        dc ''fileId'' ''file_id'' (Of_type Uuid) False None,
        dc ''changesetId'' ''changeset_id'' (Of_type Uuid) True None,
        dc ''status'' ''status'' (One_of entity_status_labels) False None,
        dc ''action'' ''action'' (One_of (map action_value [CREATE, MODIFY, DELTE])) True None,
        dc ''failReason'' ''fail_reason'' (Of_type Text) True None],
     ec_relations =
       [Foreign_key ''sync_id'' ''sync'' ''id'' Cascade,
        Foreign_key ''base_sync_id'' ''sync'' ''id'' Cascade,
        Foreign_key ''file_id'' ''file'' ''file_id'' Cascade,
        Foreign_key ''changeset_id'' ''changeset'' ''changeset_id'' Cascade],
     ec_indexes = []\<rparr>"

definition ChangesetDb :: entity_class where
  "ChangesetDb = \<lparr>ec_table = ''changeset'', ec_primary = [''changesetId''],
     ec_columns =
       [dc ''changesetId'' ''changeset_id'' (Of_type Uuid) False None,
        dc ''osmId'' ''osm_id'' (Of_type Integer) True None],
     ec_relations = [], ec_indexes = []\<rparr>"

definition entity_classes :: "entity_class list" where
  "entity_classes = [ChangesetDb, SyncDb, FileDb, EntityDb, EntityHistoryDb]"

text \<open>
  A schema implements a class: its table has exactly the columns, the primary key, the foreign keys
  and the indexes the class declares.  The names of constraints and of enumerations are free.
\<close>

definition declared_as :: "db_schema \<Rightarrow> column \<Rightarrow> string \<times> declared_type option \<times> bool \<times> string option" where
  "declared_as s c = (col_name c,
     (case col_type c of Enum_type n \<Rightarrow> map_option One_of (map_of (sc_types s) n) | t \<Rightarrow> Some (Of_type t)),
     \<not> not_null c, col_default c)"

definition column_names :: "entity_class \<Rightarrow> string list \<Rightarrow> string list option" where
  "column_names ec ps = those (map (\<lambda>p. map_option dc_name (find (\<lambda>c. dc_property c = p) (ec_columns ec))) ps)"

definition implements :: "db_schema \<Rightarrow> entity_class \<Rightarrow> bool" where
  "implements s ec \<longleftrightarrow>
     (case (map_of (sc_tables s) (ec_table ec), column_names ec (ec_primary ec)) of
        (Some tab, Some key) \<Rightarrow>
          set (map (declared_as s) (tb_columns tab)) =
            set (map (\<lambda>c. (dc_name c, Some (dc_type c), dc_nullable c, dc_default c)) (ec_columns ec)) \<and>
          set (filter (\<lambda>k. \<not> is_primary k) (map snd (tb_constraints tab))) = set (ec_relations ec) \<and>
          list_ex (\<lambda>(_, k). case k of Primary_key cs \<Rightarrow> set cs = set key | _ \<Rightarrow> False) (tb_constraints tab) \<and>
          set (filter (\<lambda>(_, ix). ix_table ix = ec_table ec) (sc_indexes s)) =
            set (map (\<lambda>(n, ps, w). (n, \<lparr>ix_table = ec_table ec, ix_unique = False,
              ix_columns = (case column_names ec ps of None \<Rightarrow> [] | Some cs \<Rightarrow> cs),
              ix_include = [], ix_where = w\<rparr>)) (ec_indexes ec))
      | _ \<Rightarrow> False)"

definition implements_all :: "db_schema ddl_result \<Rightarrow> bool" where
  "implements_all r = (case r of Inl _ \<Rightarrow> False | Inr s \<Rightarrow>
     length (sc_tables s) = length entity_classes \<and> list_all (implements s) entity_classes)"

section \<open>Properties\<close>



text \<open>
  The migrations cannot be applied to a database whose \<open>sync\<close> table has rows when the geometry type
  is added: the column is NOT NULL and has no default.
\<close>

lemma geometry_type_needs_empty_sync:
  "run_ddl (\<lambda>t. t = ''sync'') all_ups empty_schema = Inl (Null_values ''geometry_type'')"
  by code_simp

end
