(* ===== verification/Routing.thy ===== *)
theory Routing
  imports Main "HOL-Library.Multiset" "HOL-Library.Char_ord"
begin

text \<open>
  The routers of the four components (\<^verbatim>\<open>src/src/*/routes\<close>) as \<^verbatim>\<open>serverBuilder.ts\<close> mounts them.  A
  path is a list of segments; the router of express takes the first route whose method and path
  match, literals without regard to case, and passes a request on when no route of it does.  The
  middlewares before the routers (metrics, access log, body parser, request validation) and the
  documentation are libraries and not modelled.
\<close>

section \<open>Paths and routes\<close>

datatype http_method = GET | POST | PATCH

datatype segment = Lit string | Param string

datatype handler =
    Get_syncs | Post_sync | Get_latest_sync | Post_syncs_closure | Patch_sync | Rerun_sync
  | Post_file | Post_files | Patch_file | Post_files_closure
  | Post_entity | Post_entities | Patch_entity | Patch_entities
  | Post_changeset | Post_changesets_closure | Get_changeset | Patch_changeset | Patch_changeset_entities

type_synonym route = "http_method \<times> segment list \<times> handler"

definition lower_char :: "char \<Rightarrow> char" where
  "lower_char c = (if CHR ''A'' \<le> c \<and> c \<le> CHR ''Z'' then char_of (of_char c + (32 :: nat)) else c)"

definition lower :: "string \<Rightarrow> string" where
  "lower s = map lower_char s"

fun match_path :: "segment list \<Rightarrow> string list \<Rightarrow> (string \<times> string) list option" where
  "match_path [] [] = Some []"
| "match_path (Lit l # ps) (x # xs) = (if lower x = l then match_path ps xs else None)"
| "match_path (Param n # ps) (x # xs) = map_option ((#) (n, x)) (match_path ps xs)"
| "match_path _ _ = None"

fun dispatch :: "route list \<Rightarrow> http_method \<Rightarrow> string list \<Rightarrow> (handler \<times> (string \<times> string) list) option" where
  "dispatch [] m p = None"
| "dispatch ((m', path, h) # routes) m p =
     (case (if m' = m then match_path path p else None) of
        Some params \<Rightarrow> Some (h, params)
      | None \<Rightarrow> dispatch routes m p)"

section \<open>The routers\<close>

definition syncRouter :: "route list" where
  "syncRouter =
     [(GET, [], Get_syncs),
      (POST, [], Post_sync),
      (GET, [Lit ''latest''], Get_latest_sync),
      (POST, [Lit ''closure''], Post_syncs_closure),
      (PATCH, [Param ''syncId''], Patch_sync),
      (POST, [Param ''syncId'', Lit ''file''], Post_file),
      (POST, [Param ''syncId'', Lit ''file'', Lit ''_bulk''], Post_files),
      (PATCH, [Param ''syncId'', Lit ''file'', Param ''fileId''], Patch_file),
      (POST, [Param ''syncId'', Lit ''rerun''], Rerun_sync)]"

definition fileRouter :: "route list" where
  "fileRouter =
     [(POST, [Lit ''closure''], Post_files_closure),
      (POST, [Param ''fileId'', Lit ''entity''], Post_entity),
      (POST, [Param ''fileId'', Lit ''entity'', Lit ''_bulk''], Post_entities),
      (PATCH, [Param ''fileId'', Lit ''entity'', Param ''entityId''], Patch_entity)]"

definition entityRouter :: "route list" where
  "entityRouter = [(PATCH, [Lit ''_bulk''], Patch_entities)]"

definition changesetRouter :: "route list" where
  "changesetRouter =
     [(POST, [], Post_changeset),
      (POST, [Lit ''closure''], Post_changesets_closure),
      (GET, [Param ''changesetId''], Get_changeset),
      (PATCH, [Param ''changesetId''], Patch_changeset),
      (PATCH, [Param ''changesetId'', Lit ''entities''], Patch_changeset_entities)]"

definition mounted :: "string \<Rightarrow> route list \<Rightarrow> route list" where
  "mounted prefix router = map (\<lambda>(m, path, h). (m, Lit prefix # path, h)) router"

definition buildRoutes :: "route list" where
  "buildRoutes = mounted ''sync'' syncRouter @ mounted ''file'' fileRouter @
     mounted ''entity'' entityRouter @ mounted ''changeset'' changesetRouter"

section \<open>The documented operations\<close>

text \<open>The methods and paths under \<open>paths\<close> in \<^verbatim>\<open>src/openapi3.yaml\<close>.\<close>

definition documented :: "(http_method \<times> segment list) list" where
  "documented =
     [(GET, [Lit ''sync'']), (POST, [Lit ''sync'']),
      (GET, [Lit ''sync'', Lit ''latest'']),
      (POST, [Lit ''sync'', Lit ''closure'']),
      (PATCH, [Lit ''sync'', Param ''syncId'']),
      (POST, [Lit ''sync'', Param ''syncId'', Lit ''file'']),
      (POST, [Lit ''sync'', Param ''syncId'', Lit ''file'', Lit ''_bulk'']),
      (PATCH, [Lit ''sync'', Param ''syncId'', Lit ''file'', Param ''fileId'']),
      (POST, [Lit ''sync'', Param ''syncId'', Lit ''rerun'']),
      (POST, [Lit ''file'', Lit ''closure'']),
      (POST, [Lit ''file'', Param ''fileId'', Lit ''entity'']),
      (POST, [Lit ''file'', Param ''fileId'', Lit ''entity'', Lit ''_bulk'']),
      (PATCH, [Lit ''file'', Param ''fileId'', Lit ''entity'', Param ''entityId'']),
      (PATCH, [Lit ''entity'', Lit ''_bulk'']),
      (POST, [Lit ''changeset'']),
      (GET, [Lit ''changeset'', Param ''changesetId'']),
      (PATCH, [Lit ''changeset'', Param ''changesetId'']),
      (PATCH, [Lit ''changeset'', Param ''changesetId'', Lit ''entities'']),
      (POST, [Lit ''changeset'', Lit ''closure''])]"

section \<open>Routes that match\<close>

definition matches :: "route \<Rightarrow> http_method \<Rightarrow> string list \<Rightarrow> bool" where
  "matches r m p \<longleftrightarrow> fst r = m \<and> match_path (fst (snd r)) p \<noteq> None"

lemma dispatch_None_iff: "dispatch routes m p = None \<longleftrightarrow> (\<forall>r \<in> set routes. \<not> matches r m p)"
  by (induction routes m p rule: dispatch.induct) (auto simp: matches_def split: option.splits)

lemma dispatch_SomeD:
  assumes "dispatch routes m p = Some (h, params)"
  shows "\<exists>path. (m, path, h) \<in> set routes \<and> match_path path p = Some params"
  using assms
  by (induction routes m p rule: dispatch.induct) (auto split: option.splits if_splits)

text \<open>Two paths overlap when a request can match both.\<close>

fun overlap :: "segment list \<Rightarrow> segment list \<Rightarrow> bool" where
  "overlap [] [] \<longleftrightarrow> True"
| "overlap (Lit a # ps) (Lit b # qs) \<longleftrightarrow> a = b \<and> overlap ps qs"
| "overlap (_ # ps) (_ # qs) \<longleftrightarrow> overlap ps qs"
| "overlap _ _ \<longleftrightarrow> False"

lemma overlap_if_both_match:
  "match_path ps x \<noteq> None \<Longrightarrow> match_path qs x \<noteq> None \<Longrightarrow> overlap ps qs"
proof (induction ps x arbitrary: qs rule: match_path.induct)
  case (2 l ps x xs)
  then show ?case by (cases qs rule: list.exhaust; cases "hd qs") (auto split: if_splits)
next
  case (3 n ps x xs)
  then show ?case by (cases qs rule: list.exhaust; cases "hd qs") (auto split: if_splits)
qed (auto elim: match_path.elims)

definition unambiguous :: "route list \<Rightarrow> bool" where
  "unambiguous routes \<longleftrightarrow>
     sorted_wrt (\<lambda>(m, path, _) (m', path', _). \<not> (m = m' \<and> overlap path path')) routes"

lemma unambiguousD:
  assumes "unambiguous routes" and r: "r \<in> set routes" "matches r m p" and r': "r' \<in> set routes" "matches r' m p"
  shows "r = r'"
proof -
  let ?o = "\<lambda>r r'. fst r = fst r' \<and> overlap (fst (snd r)) (fst (snd r'))"
  have both: "?o r r'" "?o r' r"
    using r(2) r'(2) overlap_if_both_match by (auto simp: matches_def)
  obtain i j where ij: "i < length routes" "routes ! i = r" "j < length routes" "routes ! j = r'"
    using r(1) r'(1) by (auto simp: in_set_conv_nth)
  have "\<not> ?o (routes ! a) (routes ! b)" if "a < b" "b < length routes" for a b
    using assms(1) that unfolding unambiguous_def sorted_wrt_iff_nth_less case_prod_beta by blast
  with both ij have "\<not> i < j" "\<not> j < i" by auto
  with ij show ?thesis by simp
qed

lemma unambiguous_permuted:
  assumes "unambiguous routes" and "mset routes' = mset routes"
  shows "dispatch routes' m p = Some (h, params) \<longleftrightarrow>
    (\<exists>path. (m, path, h) \<in> set routes \<and> match_path path p = Some params)"
proof
  assume "\<exists>path. (m, path, h) \<in> set routes \<and> match_path path p = Some params"
  then obtain path where r: "(m, path, h) \<in> set routes'" "match_path path p = Some params"
    using mset_eq_setD [OF assms(2)] by blast
  then have "dispatch routes' m p \<noteq> None" unfolding dispatch_None_iff matches_def by fastforce
  then obtain h' params' where y: "dispatch routes' m p = Some (h', params')" by auto
  with dispatch_SomeD obtain path' where r': "(m, path', h') \<in> set routes'" "match_path path' p = Some params'"
    by blast
  have "(m, path, h) = (m, path', h')"
    using r r' mset_eq_setD [OF assms(2)]
    by (intro unambiguousD [OF assms(1), of _ m p]) (simp_all add: matches_def)
  with r(2) r'(2) y show "dispatch routes' m p = Some (h, params)" by simp
qed (use dispatch_SomeD mset_eq_setD [OF assms(2)] in blast)

lemma buildRoutes_unambiguous: "unambiguous buildRoutes"
  by code_simp

section \<open>Properties\<close>

text \<open>
  C39: routing.  The routes are exactly the documented operations, each served once; no request
  matches two of them, so that a literal such as \<open>latest\<close> or \<open>closure\<close> is never taken for an
  identifier of another route, and the routers answer the same in any order of their routes.
\<close>

theorem routes_exact_and_unambiguous:
  assumes "mset routes = mset buildRoutes"
  shows "mset (map (\<lambda>(m, path, _). (m, path)) routes) = mset documented \<and>
    dispatch routes m p = dispatch buildRoutes m p \<and>
    (\<forall>h params. dispatch routes m p = Some (h, params) \<longleftrightarrow>
      (\<exists>path. (m, path, h) \<in> set routes \<and> match_path path p = Some params))"
proof (intro conjI allI)
  have "mset (map (\<lambda>(m, path, _). (m, path)) buildRoutes) = mset documented" by code_simp
  then show "mset (map (\<lambda>(m, path, _). (m, path)) routes) = mset documented"
    using assms by (metis mset_map)
  note served = unambiguous_permuted [OF buildRoutes_unambiguous]
  show "dispatch routes m p = Some (h, params) \<longleftrightarrow>
      (\<exists>path. (m, path, h) \<in> set routes \<and> match_path path p = Some params)" for h params
    using served [OF assms, of m p h params] mset_eq_setD [OF assms] by simp
  show "dispatch routes m p = dispatch buildRoutes m p"
  proof -
    have "dispatch routes m p = Some x \<longleftrightarrow> dispatch buildRoutes m p = Some x" for x
      using served [OF assms] served [OF HOL.refl] by (cases x) simp
    then show ?thesis by (metis not_None_eq)
  qed
qed

theorem routes_exact_and_unambiguous_witness:
  "dispatch (rev buildRoutes) GET [''sync'', ''LATEST''] = Some (Get_latest_sync, []) \<and>
   dispatch (rev buildRoutes) PATCH [''file'', ''f1'', ''entity'', ''_bulk''] =
     Some (Patch_entity, [(''fileId'', ''f1''), (''entityId'', ''_bulk'')])"
proof -
  have rev: "mset (rev buildRoutes) = mset buildRoutes" by simp
  have "dispatch buildRoutes GET [''sync'', ''LATEST''] = Some (Get_latest_sync, [])" by code_simp
  moreover have "dispatch buildRoutes PATCH [''file'', ''f1'', ''entity'', ''_bulk''] =
     Some (Patch_entity, [(''fileId'', ''f1''), (''entityId'', ''_bulk'')])" by code_simp
  ultimately show ?thesis
    using routes_exact_and_unambiguous [OF rev, of GET "[''sync'', ''LATEST'']"]
      routes_exact_and_unambiguous [OF rev, of PATCH "[''file'', ''f1'', ''entity'', ''_bulk'']"] by simp
qed

end
