(* ===== verification/Server.thy ===== *)
theory Server
  imports Routing
begin

text \<open>
  The chain of middlewares \<^verbatim>\<open>src/src/serverBuilder.ts\<close> builds, and what becomes of a request in it.
  The middlewares of libraries are parameters: whether the body can be parsed, whether the request is
  valid for the API specification, and what the controller does.
\<close>

section \<open>Middlewares\<close>

type_synonym path = "string list"

datatype middleware =
    Collect_metrics | Http_logger | Compression | Json_body | Trace_header
  | Bull_board path | Openapi_validator path | Use_router string "route list" | Docs path
  | Error_handler

record server_config =
  compression_enabled :: bool
  uiPath :: path
  docsPath :: path

definition registerPreRoutesMiddleware :: "server_config \<Rightarrow> middleware list" where
  "registerPreRoutesMiddleware config =
     [Collect_metrics, Http_logger] @ (if compression_enabled config then [Compression] else []) @
     [Json_body, Trace_header, Bull_board (uiPath config), Openapi_validator (docsPath config)]"

definition buildDocsRoutes :: "server_config \<Rightarrow> middleware list" where
  "buildDocsRoutes config = [Docs (docsPath config)]"

definition use_routes :: "server_config \<Rightarrow> middleware list" where
  "use_routes config =
     [Use_router ''sync'' syncRouter, Use_router ''file'' fileRouter, Use_router ''entity'' entityRouter,
      Use_router ''changeset'' changesetRouter] @ buildDocsRoutes config"

definition registerPostRoutesMiddleware :: "middleware list" where
  "registerPostRoutesMiddleware = [Error_handler]"

definition build_server :: "server_config \<Rightarrow> middleware list" where
  "build_server config =
     registerPreRoutesMiddleware config @ use_routes config @ registerPostRoutesMiddleware"

section \<open>Serving a request\<close>

text \<open>\<open>'e\<close> are the errors that are passed to \<open>next\<close>.\<close>

record 'e libraries =
  parse_error :: "http_method \<Rightarrow> path \<Rightarrow> 'e option"
  invalid :: "http_method \<Rightarrow> path \<Rightarrow> 'e option"
  controller_error :: "handler \<Rightarrow> (string \<times> string) list \<Rightarrow> 'e option"

datatype 'e answer =
    Board | Documentation | Handled handler "(string \<times> string) list" | Error_answer 'e
  | Not_found | Unhandled 'e

text \<open>A path under \<open>use(prefix, ...)\<close>, and a path the validator ignores: below the documentation.\<close>

definition under :: "path \<Rightarrow> path \<Rightarrow> bool" where
  "under prefix p \<longleftrightarrow> map lower (take (length prefix) p) = map lower prefix"

definition ignored :: "path \<Rightarrow> path \<Rightarrow> bool" where
  "ignored docs p \<longleftrightarrow> under docs p \<and> length docs < length p"

text \<open>An error goes to the next error handler; without one express answers it by itself.\<close>

fun next_error :: "middleware list \<Rightarrow> 'e \<Rightarrow> 'e answer" where
  "next_error [] e = Unhandled e"
| "next_error (Error_handler # ms) e = Error_answer e"
| "next_error (_ # ms) e = next_error ms e"

fun serve :: "'e libraries \<Rightarrow> middleware list \<Rightarrow> http_method \<Rightarrow> path \<Rightarrow> 'e answer" where
  "serve L [] m p = Not_found"
| "serve L (Json_body # ms) m p =
     (case parse_error L m p of Some e \<Rightarrow> next_error ms e | None \<Rightarrow> serve L ms m p)"
| "serve L (Bull_board ui # ms) m p = (if under ui p then Board else serve L ms m p)"
| "serve L (Openapi_validator docs # ms) m p =
     (case (if ignored docs p then None else invalid L m p) of
        Some e \<Rightarrow> next_error ms e
      | None \<Rightarrow> serve L ms m p)"
| "serve L (Use_router prefix router # ms) m p =
     (case dispatch (mounted prefix router) m p of
        None \<Rightarrow> serve L ms m p
      | Some (h, params) \<Rightarrow> (case controller_error L h params of
            None \<Rightarrow> Handled h params
          | Some e \<Rightarrow> next_error ms e))"
| "serve L (Docs docs # ms) m p = (if under docs p then Documentation else serve L ms m p)"
| "serve L (_ # ms) m p = serve L ms m p"

section \<open>Results\<close>

lemma dispatch_append:
  "dispatch (rs @ rs') m p = (case dispatch rs m p of Some x \<Rightarrow> Some x | None \<Rightarrow> dispatch rs' m p)"
  by (induction rs m p rule: dispatch.induct) (auto split: option.splits)


end
