(* ===== verification/Dependency_Registration.thy ===== *)
theory Dependency_Registration
  imports Domain
begin

text \<open>
  \<^verbatim>\<open>src/src/common/dependencyRegistration.ts\<close>: registering a list of injection objects in a
  container.  The container (tsyringe) is a parameter; the locale \<open>container\<close> is what is used of it.
\<close>

record ('t, 'p, 's) injection_object =
  token :: 't
  provider :: 'p
  postInjectionHook :: "(js_error, 's, unit) stmt option"
  afterAllInjectionHook :: "(js_error, 's, unit) stmt option"

text \<open>\<open>override?.find(...) ?? dep\<close>; no override is the empty list.\<close>

definition injectionObj ::
  "('t, 'p, 's) injection_object list \<Rightarrow> ('t, 'p, 's) injection_object \<Rightarrow> ('t, 'p, 's) injection_object" where
  "injectionObj override dep =
     (case find (\<lambda>overrideObj. token overrideObj = token dep) override of
        Some overrideObj \<Rightarrow> overrideObj
      | None \<Rightarrow> dep)"

text \<open>
  Nothing else runs while the container is filled, so an asynchronous function is here the statement
  it amounts to: \<open>then_do\<close> goes on when the first one returned, \<open>catching\<close> when it threw.
\<close>

definition then_do ::
  "(js_error, 's, 'a) stmt \<Rightarrow> (js_error, 's, 'b) stmt \<Rightarrow> (js_error, 's, 'b) stmt" where
  "then_do m f s = (case m s of (Inl e, t) \<Rightarrow> (Inl e, t) | (Inr _, t) \<Rightarrow> f t)"

definition catching ::
  "(js_error, 's, 'a) stmt \<Rightarrow> (js_error \<Rightarrow> (js_error, 's, 'a) stmt) \<Rightarrow> (js_error, 's, 'a) stmt" where
  "catching m h s = (case m s of (Inl e, t) \<Rightarrow> h e t | (Inr x, t) \<Rightarrow> (Inr x, t))"

text \<open>\<open>await hook?.(container)\<close>\<close>

definition run_hook :: "(js_error, 's, unit) stmt option \<Rightarrow> (js_error, 's, unit) stmt" where
  "run_hook hook s = (case hook of None \<Rightarrow> (Inr (), s) | Some m \<Rightarrow> m s)"

text \<open>
  The two loops.  The hooks that run are those of the dependency, also when its provider is
  overridden.
\<close>

fun inject_each ::
  "('t \<Rightarrow> 'p \<Rightarrow> 's \<Rightarrow> 's) \<Rightarrow> ('t, 'p, 's) injection_object list \<Rightarrow> ('t, 'p, 's) injection_object list \<Rightarrow>
    (js_error, 's, unit) stmt" where
  "inject_each register override [] s = (Inr (), s)"
| "inject_each register override (dep # deps) s =
     (let obj = injectionObj override dep
      in case run_hook (postInjectionHook dep) (register (token obj) (provider obj) s) of
           (Inl e, t) \<Rightarrow> (Inl e, t)
         | (Inr _, t) \<Rightarrow> inject_each register override deps t)"

fun after_each :: "('t, 'p, 's) injection_object list \<Rightarrow> (js_error, 's, unit) stmt" where
  "after_each [] s = (Inr (), s)"
| "after_each (dep # deps) s =
     (case run_hook (afterAllInjectionHook dep) s of
        (Inl e, t) \<Rightarrow> (Inl e, t)
      | (Inr _, t) \<Rightarrow> after_each deps t)"

definition registerDependencies ::
  "('t \<Rightarrow> 'p \<Rightarrow> 's \<Rightarrow> 's) \<Rightarrow> ('t, 'p, 's) injection_object list \<Rightarrow> ('t, 'p, 's) injection_object list \<Rightarrow>
    (js_error, 's, unit) stmt" where
  "registerDependencies register dependencies override =
     then_do (inject_each register override dependencies) (after_each dependencies)"

lemma token_injectionObj [simp]: "token (injectionObj override dep) = token dep"
  by (auto simp: injectionObj_def find_Some_iff split: option.splits)

lemma then_do_Inr: "then_do m f s = (Inr x, t) \<longleftrightarrow> (\<exists>y u. m s = (Inr y, u) \<and> f u = (Inr x, t))"
  by (auto simp: then_do_def split: prod.splits sum.splits)

section \<open>The container\<close>

text \<open>
  A registration replaces what a token provided before and no other token; \<open>provided\<close> is what the
  container would resolve.
\<close>

locale container =
  fixes register :: "'t \<Rightarrow> 'p \<Rightarrow> 's \<Rightarrow> 's"
    and provided :: "'s \<Rightarrow> 't \<Rightarrow> 'p option"
  assumes provided_register: "provided (register t p s) t' = (if t' = t then Some p else provided s t')"
begin

text \<open>A hook that leaves the registrations of the tokens \<open>ts\<close> alone.\<close>

definition hook_keeps :: "'t set \<Rightarrow> (js_error, 's, unit) stmt option \<Rightarrow> bool" where
  "hook_keeps ts hook \<longleftrightarrow>
     (\<forall>m s t. hook = Some m \<longrightarrow> t \<in> ts \<longrightarrow> provided (snd (m s)) t = provided s t)"

lemma run_hook_keeps:
  "hook_keeps ts hook \<Longrightarrow> t \<in> ts \<Longrightarrow> provided (snd (run_hook hook s)) t = provided s t"
  by (cases hook) (auto simp: hook_keeps_def run_hook_def)

lemma after_each_keeps:
  assumes "\<And>dep. dep \<in> set deps \<Longrightarrow> hook_keeps ts (afterAllInjectionHook dep)"
    and "after_each deps s = (r, s')" and "t \<in> ts"
  shows "provided s' t = provided s t"
  using assms
proof (induction deps arbitrary: s)
  case Nil
  then show ?case by simp
next
  case (Cons dep deps)
  then have "provided (snd (run_hook (afterAllInjectionHook dep) s)) t = provided s t"
    by (intro run_hook_keeps) auto
  with Cons show ?case by (auto split: prod.splits sum.splits)
qed

lemma inject_each_provides:
  assumes "distinct (map token deps)" and "token ` set deps \<subseteq> ts"
    and "\<And>dep. dep \<in> set deps \<Longrightarrow> hook_keeps ts (postInjectionHook dep)"
    and "inject_each register override deps s = (Inr u, s')"
  shows "(\<forall>dep \<in> set deps. provided s' (token dep) = Some (provider (injectionObj override dep))) \<and>
    (\<forall>t \<in> ts - token ` set deps. provided s' t = provided s t)"
  using assms
proof (induction deps arbitrary: s)
  case Nil
  then show ?case by simp
next
  case (Cons dep deps)
  let ?s = "register (token dep) (provider (injectionObj override dep)) s"
  obtain s1 where hook: "snd (run_hook (postInjectionHook dep) ?s) = s1"
    and rest: "inject_each register override deps s1 = (Inr u, s')"
    using Cons.prems(4) by (auto simp: Let_def split: prod.splits sum.splits)
  have s1: "provided s1 t = provided ?s t" if "t \<in> ts" for t
    using run_hook_keeps [OF Cons.prems(3) [OF list.set_intros(1)] that, of ?s] hook by simp
  have IH: "(\<forall>dep \<in> set deps. provided s' (token dep) = Some (provider (injectionObj override dep))) \<and>
    (\<forall>t \<in> ts - token ` set deps. provided s' t = provided s1 t)"
    using Cons.prems(1-3) rest by (intro Cons.IH) auto
  have dep: "token dep \<in> ts - token ` set deps" using Cons.prems(1,2) by auto
  with IH s1 have "provided s' (token dep) = Some (provider (injectionObj override dep))"
    by (simp add: provided_register)
  with IH s1 Cons.prems(2) show ?case by (auto simp: provided_register)
qed

lemma registerDependencies_provides:
  assumes "distinct (map token deps)"
    and "\<And>dep. dep \<in> set deps \<Longrightarrow> hook_keeps (token ` set deps) (postInjectionHook dep) \<and>
      hook_keeps (token ` set deps) (afterAllInjectionHook dep)"
    and "registerDependencies register deps override s = (Inr u, s')" and "dep \<in> set deps"
  shows "provided s' (token dep) = Some (provider (injectionObj override dep))"
proof -
  from assms(3) obtain v s1 where s1: "inject_each register override deps s = (Inr v, s1)"
      "after_each deps s1 = (Inr u, s')"
    by (auto simp: registerDependencies_def then_do_Inr)
  have "provided s1 (token dep) = Some (provider (injectionObj override dep))"
    using inject_each_provides [OF assms(1) order_refl _ s1(1)] assms(2,4) by blast
  moreover have "provided s' (token dep) = provided s1 (token dep)"
    by (rule after_each_keeps [OF _ s1(2), of "token ` set deps"]) (use assms(2,4) in auto)
  ultimately show ?thesis by simp
qed

end

end
