(* ===== verification/Startup.thy ===== *)
theory Startup
  imports Dependency_Registration
begin

text \<open>
  \<^verbatim>\<open>containerConfig.ts\<close>, \<^verbatim>\<open>app.ts\<close>, \<^verbatim>\<open>index.ts\<close>, \<^verbatim>\<open>instrumentation.mts\<close> and \<^verbatim>\<open>common/tracing.ts\<close>
  under \<^verbatim>\<open>src/src\<close>: what is registered in the container and in which order, what each factory
  resolves, what is registered for cleanup, and how the process starts and fails.  The state is what
  the container and the cleanup registry hold; loading the configuration, connecting the data
  source, building the application and running the workers are calls of libraries whose outcome is
  a parameter.  The class \<open>CleanupRegistry\<close> is a library too: of \<open>trigger\<close> the state records which
  items it was asked to clean up.
\<close>

section \<open>Tokens and providers\<close>

datatype queue_name = Changesets | Files | Syncs

text \<open>\<open>Object.values\<close> of the enumeration of the workers.\<close>

instantiation queue_name :: enum
begin

definition enum_queue_name :: "queue_name list" where
  "enum_queue_name = [Changesets, Files, Syncs]"

definition enum_all_queue_name :: "(queue_name \<Rightarrow> bool) \<Rightarrow> bool" where
  "enum_all_queue_name P \<longleftrightarrow> P Changesets \<and> P Files \<and> P Syncs"

definition enum_ex_queue_name :: "(queue_name \<Rightarrow> bool) \<Rightarrow> bool" where
  "enum_ex_queue_name P \<longleftrightarrow> P Changesets \<or> P Files \<or> P Syncs"

instance
  by standard
    (auto simp: enum_queue_name_def enum_all_queue_name_def enum_ex_queue_name_def,
      (metis queue_name.exhaust)+)

end

datatype token =
    CONFIG | CLEANUP_REGISTRY | LOGGER | TRACER | METRICS | DATA_SOURCE_PROVIDER
  | FILE_REPOSITORY | CHANGESET_REPOSITORY | SYNC_REPOSITORY | ENTITY_REPOSITORY
  | SYNC_ROUTER | FILE_ROUTER | ENTITY_ROUTER | CHANGESET_ROUTER
  | HEALTHCHECK | ON_SIGNAL
  | REDIS_CONNECTION_OPTIONS | REDIS_WORKER_CONNECTION | REDIS_QUEUE_CONNECTION
  | QUEUE_PROVIDER_FACTORY | Queue queue_name | Worker queue_name
  | CLOSURE_WORKERS_INITIALIZER

text \<open>
  A provider: a value, a factory that runs at every \<open>resolve\<close>, or one that runs once.  A factory is
  the tokens it resolves; the second list of \<open>Once\<close> is what it registers for cleanup.  A class is
  the factory that resolves the tokens its constructor is injected with, those of the classes among
  its parameters included.  \<open>Traced\<close> is the factory of the tracer, which runs once, resolves the
  cleanup registry and needs the tracing of the process.
\<close>

datatype app_provider = Value | Each_time "token list" | Once "token list" "token list" | Traced

record app_state =
  configInstance :: bool
  tracing :: bool
  tracingStarted :: bool
  registered :: "(token \<times> app_provider) list"
  instances :: "token list"
  cleanups :: "token list"
  cleanedUp :: "token list list"
  dataSourceInitialized :: bool
  depContainer :: bool
  listening :: bool
  exitCode :: "int option"

definition new_process :: app_state where
  "new_process = \<lparr>configInstance = False, tracing = False, tracingStarted = False, registered = [],
     instances = [], cleanups = [], cleanedUp = [], dataSourceInitialized = False, depContainer = False,
     listening = False, exitCode = None\<rparr>"

definition register :: "token \<Rightarrow> app_provider \<Rightarrow> app_state \<Rightarrow> app_state" where
  "register t p s = s\<lparr>registered := (t, p) # registered s\<rparr>"

definition provided :: "app_state \<Rightarrow> token \<Rightarrow> app_provider option" where
  "provided s t = map_of (registered s) t"

definition registerCleanup :: "token list \<Rightarrow> app_state \<Rightarrow> app_state" where
  "registerCleanup ids s = s\<lparr>cleanups := cleanups s @ ids\<rparr>"

text \<open>\<^verbatim>\<open>common/tracing.ts\<close>: \<open>tracing\<close> is whether its variable holds a \<open>Tracing\<close>.\<close>

definition tracingFactory :: "(js_error, app_state, unit) stmt" where
  "tracingFactory s = (Inr (), s\<lparr>tracing := True\<rparr>)"

definition getTracing :: "(js_error, app_state, unit) stmt" where
  "getTracing s = (if tracing s then Inr () else Inl (OtherError ''tracing not initialized''), s)"

text \<open>
  \<open>resolve\<close>, for several tokens one after the other; what was made before a failure stays made.  The
  number is the depth of the stack: factories that resolve each other in a circle exhaust every stack.
\<close>

fun resolve_all :: "nat \<Rightarrow> token list \<Rightarrow> (js_error, app_state, unit) stmt" where
  "resolve_all stack [] s = (Inr (), s)"
| "resolve_all 0 (t # ts) s = (Inl (OtherError ''Maximum call stack size exceeded''), s)"
| "resolve_all (Suc stack) (t # ts) s =
     (case provided s t of
        None \<Rightarrow> (Inl (OtherError ''Attempted to resolve unregistered dependency token''), s)
      | Some Value \<Rightarrow> resolve_all (Suc stack) ts s
      | Some (Each_time us) \<Rightarrow> (case resolve_all stack us s of
            (Inl e, s') \<Rightarrow> (Inl e, s')
          | (Inr _, s') \<Rightarrow> resolve_all (Suc stack) ts s')
      | Some (Once us ids) \<Rightarrow>
          if List.member (instances s) t then resolve_all (Suc stack) ts s
          else (case resolve_all stack us s of
              (Inl e, s') \<Rightarrow> (Inl e, s')
            | (Inr _, s') \<Rightarrow> resolve_all (Suc stack) ts
                (registerCleanup ids (s'\<lparr>instances := t # instances s'\<rparr>)))
      | Some Traced \<Rightarrow>
          if List.member (instances s) t then resolve_all (Suc stack) ts s
          else (case resolve_all stack [CLEANUP_REGISTRY] s of
              (Inl e, s') \<Rightarrow> (Inl e, s')
            | (Inr _, s') \<Rightarrow> (case getTracing s' of
                (Inl e, s'') \<Rightarrow> (Inl e, s'')
              | (Inr _, s'') \<Rightarrow> resolve_all (Suc stack) ts
                  (registerCleanup [TRACER] (s''\<lparr>instances := t # instances s''\<rparr>)))))"

definition stack_depth :: nat where "stack_depth = 12"

definition resolve :: "token list \<Rightarrow> (js_error, app_state, unit) stmt" where
  "resolve = resolve_all stack_depth"

section \<open>The injected constructors\<close>

definition changesetManager :: "token list" where
  "changesetManager = [CHANGESET_REPOSITORY, LOGGER, Queue Changesets]"

definition fileManager :: "token list" where
  "fileManager = [FILE_REPOSITORY, SYNC_REPOSITORY, LOGGER, Queue Files]"

definition entityManager :: "token list" where
  "entityManager = [ENTITY_REPOSITORY, FILE_REPOSITORY, SYNC_REPOSITORY, LOGGER]"

definition syncManager :: "token list" where
  "syncManager = [SYNC_REPOSITORY, LOGGER, CONFIG, Queue Syncs]"

definition bullQueueProviderFactory :: "token list" where
  "bullQueueProviderFactory =
     [LOGGER, CONFIG, REDIS_QUEUE_CONNECTION, REDIS_CONNECTION_OPTIONS, METRICS]"

fun workerIdToClass :: "queue_name \<Rightarrow> token list" where
  "workerIdToClass Changesets =
     [LOGGER, METRICS, REDIS_WORKER_CONNECTION, CONFIG, ENTITY_REPOSITORY, Queue Files]"
| "workerIdToClass Files =
     [LOGGER, METRICS, REDIS_WORKER_CONNECTION, CONFIG, FILE_REPOSITORY, Queue Syncs]"
| "workerIdToClass Syncs = [LOGGER, METRICS, REDIS_WORKER_CONNECTION, CONFIG, SYNC_REPOSITORY]"

definition bullBoard :: "token list" where
  "bullBoard = [CONFIG, REDIS_QUEUE_CONNECTION]"

definition serverBuilder :: "token list" where
  "serverBuilder = [CONFIG, LOGGER, METRICS, FILE_ROUTER, SYNC_ROUTER, ENTITY_ROUTER, CHANGESET_ROUTER] @
     bullBoard"

definition changesetController :: "token list" where
  "changesetController = LOGGER # changesetManager"

definition fileController :: "token list" where
  "fileController = LOGGER # fileManager"

definition entityController :: "token list" where
  "entityController = LOGGER # entityManager"

definition syncController :: "token list" where
  "syncController = LOGGER # syncManager"

section \<open>The factories\<close>

definition syncRepositoryFactory :: "token list" where
  "syncRepositoryFactory = [LOGGER, DATA_SOURCE_PROVIDER]"

definition fileRepositoryFactory :: "token list" where
  "fileRepositoryFactory = [DATA_SOURCE_PROVIDER]"

definition entityRepositoryFactory :: "token list" where
  "entityRepositoryFactory = [DATA_SOURCE_PROVIDER]"

definition changesetRepositoryFactory :: "token list" where
  "changesetRepositoryFactory = [DATA_SOURCE_PROVIDER]"

definition syncRouterFactory :: "token list" where
  "syncRouterFactory = syncController @ fileController"

definition fileRouterFactory :: "token list" where
  "fileRouterFactory = entityController @ fileController"

definition entityRouterFactory :: "token list" where
  "entityRouterFactory = entityController"

definition changesetRouterFactory :: "token list" where
  "changesetRouterFactory = changesetController"

definition dataSourceFactory :: "token list" where
  "dataSourceFactory = [CONFIG]"

definition createConnectionOptionsFactory :: "token list" where
  "createConnectionOptionsFactory = [CONFIG]"

text \<open>The two factories of Redis connections register the connection they make for cleanup.\<close>

definition createReusableRedisWorkerConnectionFactory :: "token list \<times> token list" where
  "createReusableRedisWorkerConnectionFactory =
     ([REDIS_CONNECTION_OPTIONS, CLEANUP_REGISTRY], [REDIS_WORKER_CONNECTION])"

definition createReusableRedisQueueConnectionFactory :: "token list \<times> token list" where
  "createReusableRedisQueueConnectionFactory =
     ([REDIS_CONNECTION_OPTIONS, CLEANUP_REGISTRY], [REDIS_QUEUE_CONNECTION])"

lemmas factory_defs = changesetManager_def fileManager_def entityManager_def syncManager_def
  changesetController_def fileController_def entityController_def syncController_def
  syncRepositoryFactory_def fileRepositoryFactory_def entityRepositoryFactory_def
  changesetRepositoryFactory_def syncRouterFactory_def fileRouterFactory_def entityRouterFactory_def
  changesetRouterFactory_def dataSourceFactory_def createConnectionOptionsFactory_def
  createReusableRedisWorkerConnectionFactory_def createReusableRedisQueueConnectionFactory_def
  bullQueueProviderFactory_def bullBoard_def serverBuilder_def

section \<open>containerConfig.ts\<close>

type_synonym dependency = "(token, app_provider, app_state) injection_object"

definition dep :: "token \<Rightarrow> app_provider \<Rightarrow> dependency" where
  "dep t p = \<lparr>token = t, provider = p, postInjectionHook = None, afterAllInjectionHook = None\<rparr>"

definition dataSourceHook :: "js_error + unit \<Rightarrow> (js_error, app_state, unit) stmt" where
  "dataSourceHook initialize = then_do (resolve [DATA_SOURCE_PROVIDER]) (\<lambda>s.
     if dataSourceInitialized s then (Inr (), s)
     else (case initialize of
         Inl e \<Rightarrow> (Inl e, s)
       | Inr _ \<Rightarrow> (Inr (), registerCleanup [DATA_SOURCE_PROVIDER] (s\<lparr>dataSourceInitialized := True\<rparr>))))"

definition queueFactoryHook :: "(js_error, app_state, unit) stmt" where
  "queueFactoryHook = then_do (resolve [QUEUE_PROVIDER_FACTORY, CLEANUP_REGISTRY]) (\<lambda>s.
     (Inr (), fold (\<lambda>q s. registerCleanup [Queue q] (register (Queue q) Value s))
       [Changesets, Files, Syncs] s))"

definition workerHook :: "queue_name \<Rightarrow> (js_error, app_state, unit) stmt" where
  "workerHook q = then_do (resolve [Worker q, CLEANUP_REGISTRY]) (\<lambda>s.
     (Inr (), registerCleanup [Worker q] s))"

definition registerClosureDeps :: "dependency list" where
  "registerClosureDeps =
     [dep REDIS_CONNECTION_OPTIONS (Once createConnectionOptionsFactory []),
      dep REDIS_WORKER_CONNECTION
        (case_prod Once createReusableRedisWorkerConnectionFactory),
      dep REDIS_QUEUE_CONNECTION
        (case_prod Once createReusableRedisQueueConnectionFactory),
      (dep QUEUE_PROVIDER_FACTORY (Once bullQueueProviderFactory []))
        \<lparr>postInjectionHook := Some queueFactoryHook\<rparr>] @
     map (\<lambda>q. (dep (Worker q) (Once (workerIdToClass q) []))\<lparr>postInjectionHook := Some (workerHook q)\<rparr>)
       Enum.enum @
     [dep CLOSURE_WORKERS_INITIALIZER (Each_time (map Worker Enum.enum))]"

definition dependencies :: "js_error + unit \<Rightarrow> dependency list" where
  "dependencies initialize =
     [dep CONFIG Value,
      (dep CLEANUP_REGISTRY Value)\<lparr>afterAllInjectionHook := Some (resolve [LOGGER])\<rparr>,
      dep LOGGER (Once [CONFIG] []),
      dep TRACER Traced,
      dep METRICS (Once [CONFIG] []),
      (dep DATA_SOURCE_PROVIDER (Once dataSourceFactory []))
        \<lparr>postInjectionHook := Some (dataSourceHook initialize)\<rparr>,
      dep FILE_REPOSITORY (Each_time fileRepositoryFactory),
      dep CHANGESET_REPOSITORY (Each_time changesetRepositoryFactory),
      dep SYNC_REPOSITORY (Each_time syncRepositoryFactory),
      dep ENTITY_REPOSITORY (Each_time entityRepositoryFactory),
      dep SYNC_ROUTER (Each_time syncRouterFactory),
      dep FILE_ROUTER (Each_time fileRouterFactory),
      dep ENTITY_ROUTER (Each_time entityRouterFactory),
      dep CHANGESET_ROUTER (Each_time changesetRouterFactory),
      dep HEALTHCHECK (Each_time [DATA_SOURCE_PROVIDER]),
      dep ON_SIGNAL Value] @
     registerClosureDeps"

definition trigger :: "(js_error, app_state, unit) stmt" where
  "trigger s = (Inr (), s\<lparr>cleanedUp := cleanedUp s @ [cleanups s]\<rparr>)"

definition getConfig :: "(js_error, app_state, unit) stmt" where
  "getConfig s = (if configInstance s then Inr () else Inl (OtherError ''config not initialized''), s)"

definition registerExternalValues ::
  "js_error + unit \<Rightarrow> dependency list \<Rightarrow> (js_error, app_state, unit) stmt" where
  "registerExternalValues initialize override =
     catching (then_do getConfig (registerDependencies register (dependencies initialize) override))
       (\<lambda>e. then_do trigger (\<lambda>s. (Inl e, s)))"

section \<open>app.ts and index.ts\<close>

record outcomes =
  initialize :: "js_error + unit"
  build :: "js_error + unit"
  workers_run :: "js_error + unit"

definition getApp :: "outcomes \<Rightarrow> (js_error, app_state, unit) stmt" where
  "getApp oc = then_do (registerExternalValues (initialize oc) [])
     (then_do (resolve serverBuilder) (\<lambda>s. (build oc, s)))"

text \<open>
  \<open>getApp().then(...).catch(...)\<close>: the container is known to the \<open>catch\<close> only once \<open>then\<close> has run.
\<close>

definition start_server :: "outcomes \<Rightarrow> (js_error, app_state, unit) stmt" where
  "start_server oc =
     then_do (\<lambda>s. resolve [LOGGER, CONFIG, HEALTHCHECK, ON_SIGNAL] (s\<lparr>depContainer := True\<rparr>))
     (then_do (\<lambda>s. resolve [CLOSURE_WORKERS_INITIALIZER] (s\<lparr>listening := True\<rparr>))
     (\<lambda>s. (workers_run oc, s)))"

definition main :: "outcomes \<Rightarrow> (js_error, app_state, unit) stmt" where
  "main oc = catching (then_do (getApp oc) (start_server oc))
     (\<lambda>e. then_do (\<lambda>s. if depContainer s then trigger s else (Inr (), s))
       (\<lambda>s. (Inr (), s\<lparr>exitCode := Some 1\<rparr>)))"

section \<open>instrumentation.mts\<close>

text \<open>
  The module that runs before the application.  Loading the configuration is the library's: \<open>load\<close>
  is its outcome, with or without \<open>offlineMode\<close>.  The options of the tracing are read from it.
\<close>

definition initConfig :: "(bool \<Rightarrow> js_error + unit) \<Rightarrow> bool \<Rightarrow> (js_error, app_state, unit) stmt" where
  "initConfig load offlineMode s = (case load offlineMode of Inl e \<Rightarrow> (Inl e, s) | Inr _ \<Rightarrow> (Inr (), s\<lparr>configInstance := True\<rparr>))"

definition instrumentation :: "(bool \<Rightarrow> js_error + unit) \<Rightarrow> (js_error, app_state, unit) stmt" where
  "instrumentation load =
     then_do (initConfig load True)
     (then_do getConfig
     (then_do tracingFactory
     (\<lambda>s. (Inr (), s\<lparr>tracingStarted := True\<rparr>))))"

text \<open>
  The process, with the module imported or not.  An error of a module ends it: the application is
  not even loaded.
\<close>

definition process ::
  "bool \<Rightarrow> (bool \<Rightarrow> js_error + unit) \<Rightarrow> outcomes \<Rightarrow> (js_error, app_state, unit) stmt" where
  "process imported load oc =
     catching (then_do (if imported then instrumentation load else (\<lambda>s. (Inr (), s))) (main oc))
       (\<lambda>e s. (Inr (), s\<lparr>exitCode := Some 1\<rparr>))"

definition instrumented :: app_state where
  "instrumented = snd (instrumentation (\<lambda>_. Inr ()) new_process)"

section \<open>The container\<close>

interpretation app: container register provided
  by unfold_locales (simp add: register_def provided_def)

lemma registered_registerCleanup [simp]: "registered (registerCleanup ids s) = registered s"
  by (simp add: registerCleanup_def)

lemma resolve_all_registered: "registered (snd (resolve_all stack ts s)) = registered s"
proof (induction stack ts s rule: resolve_all.induct)
  case (3 stack t ts s)
  then show ?case
    by (fastforce simp: getTracing_def split: option.splits app_provider.splits sum.splits prod.splits if_splits)
qed simp_all

lemma resolve_provided [simp]: "provided (snd (resolve ts s)) = provided s"
  by (simp add: resolve_def provided_def fun_eq_iff resolve_all_registered)

lemma provided_simps [simp]:
  "provided (registerCleanup ids s) = provided s"
  "provided (s\<lparr>dataSourceInitialized := b\<rparr>) = provided s"
  by (simp_all add: provided_def registerCleanup_def fun_eq_iff)

lemma then_do_provided:
  assumes "\<And>s. provided (snd (m s)) t = provided s t" and "\<And>s. provided (snd (f s)) t = provided s t"
  shows "provided (snd (then_do m f s)) t = provided s t"
  using assms(1) [of s] assms(2) by (auto simp: then_do_def split: prod.splits sum.splits)

lemma tokens: "token ` set (dependencies init) = UNIV - range Queue"
proof -
  have "t \<in> token ` set (dependencies init) \<longleftrightarrow> t \<notin> range Queue" for t
  proof (cases t)
    case (Worker q)
    then show ?thesis by (cases q) (auto simp: dependencies_def registerClosureDeps_def enum_queue_name_def dep_def)
  qed (auto simp: dependencies_def registerClosureDeps_def enum_queue_name_def dep_def)
  then show ?thesis by blast
qed

lemma hooks_keep:
  assumes "d \<in> set (dependencies init)"
  shows "app.hook_keeps (token ` set (dependencies init)) (postInjectionHook d) \<and>
    app.hook_keeps (token ` set (dependencies init)) (afterAllInjectionHook d)"
proof -
  have "provided (snd (dataSourceHook init s)) t = provided s t" for s t
    unfolding dataSourceHook_def by (rule then_do_provided) (auto split: sum.splits)
  moreover have "provided (snd (queueFactoryHook s)) t = provided s t" if "t \<notin> range Queue" for s t
    using that unfolding queueFactoryHook_def
    by (intro then_do_provided) (auto simp: app.provided_register)
  moreover have "provided (snd (workerHook q s)) t = provided s t" for q s t
    unfolding workerHook_def by (rule then_do_provided) simp_all
  ultimately show ?thesis
    using assms unfolding tokens
    by (auto simp: app.hook_keeps_def dependencies_def registerClosureDeps_def enum_queue_name_def dep_def)
qed

text \<open>What is provided after a successful start-up, and what can be resolved without a new instance.\<close>

lemma registered_providers:
  assumes "registerExternalValues init override s = (Inr (), s')" and "d \<in> set (dependencies init)"
  shows "provided s' (token d) = Some (provider (injectionObj override d))"
proof -
  have "registerDependencies register (dependencies init) override s = (Inr (), s')"
    using assms(1) by (auto simp: registerExternalValues_def catching_def then_do_def getConfig_def trigger_def
      split: prod.splits sum.splits if_splits)
  moreover have "distinct (map token (dependencies init))"
    by (simp add: dependencies_def registerClosureDeps_def enum_queue_name_def dep_def)
  ultimately show ?thesis using app.registerDependencies_provides hooks_keep assms(2) by blast
qed

fun ready :: "nat \<Rightarrow> (token \<Rightarrow> app_provider option) \<Rightarrow> token list \<Rightarrow> token \<Rightarrow> bool" where
  "ready 0 P made t \<longleftrightarrow> False"
| "ready (Suc stack) P made t \<longleftrightarrow>
     (case P t of
        None \<Rightarrow> False
      | Some Value \<Rightarrow> True
      | Some (Each_time us) \<Rightarrow> list_all (ready stack P made) us
      | Some _ \<Rightarrow> List.member made t)"

lemma resolve_ready:
  "list_all (ready stack (provided s) (instances s)) ts \<Longrightarrow> resolve_all stack ts s = (Inr (), s)"
proof (induction stack ts s rule: resolve_all.induct)
  case (3 stack t ts s)
  then show ?case by (auto split: option.splits app_provider.splits)
qed simp_all

definition started :: app_state where
  "started = snd (registerExternalValues (Inr ()) [] instrumented)"

definition held :: "token list" where
  "held = [DATA_SOURCE_PROVIDER, REDIS_QUEUE_CONNECTION, Queue Changesets, Queue Files, Queue Syncs,
     REDIS_WORKER_CONNECTION, Worker Changesets, Worker Files, Worker Syncs]"

lemma started_parts:
  "(\<lambda>(r, s). (r, set (instances s), map (\<lambda>q. provided s (Queue q)) [Changesets, Files, Syncs], cleanups s,
      cleanedUp s, depContainer s, listening s, exitCode s))
    (registerExternalValues (Inr ()) [] instrumented) =
   (Inr (), {LOGGER, METRICS, DATA_SOURCE_PROVIDER, REDIS_CONNECTION_OPTIONS, REDIS_WORKER_CONNECTION,
       REDIS_QUEUE_CONNECTION, QUEUE_PROVIDER_FACTORY, Worker Changesets, Worker Files, Worker Syncs},
     [Some Value, Some Value, Some Value], held, [], False, False, None)"
  unfolding held_def by code_simp

lemma register_started: "registerExternalValues (Inr ()) [] instrumented = (Inr (), started)"
  using started_parts by (simp add: started_def case_prod_beta prod_eq_iff)

lemma started_state:
  "provided started (Queue q) = Some Value" "cleanups started = held" "cleanedUp started = []"
  "\<not> depContainer started" "\<not> listening started" "exitCode started = None"
  using started_parts unfolding register_started by (cases q; simp)+

lemma started_instances:
  "List.member (instances started) t \<longleftrightarrow> t \<in> {LOGGER, METRICS, DATA_SOURCE_PROVIDER, REDIS_CONNECTION_OPTIONS,
    REDIS_WORKER_CONNECTION, REDIS_QUEUE_CONNECTION, QUEUE_PROVIDER_FACTORY, Worker Changesets, Worker Files, Worker Syncs}"
  using started_parts unfolding register_started by simp

lemma started_provided:
  "d \<in> set (dependencies (Inr ())) \<Longrightarrow> provided started (token d) = Some (provider d)"
  using registered_providers [OF register_started] by (simp add: injectionObj_def)

text \<open>Every token but the tracer's can be resolved, without a new instance.\<close>

lemma started_ready:
  assumes "t \<noteq> TRACER"
  shows "ready stack_depth (provided started) (instances started) t"
proof -
  have provs: "list_all (\<lambda>d. provided started (token d) = Some (provider d)) (dependencies (Inr ()))"
    using started_provided by (simp add: list_all_iff)
  note facts = provs [unfolded dependencies_def registerClosureDeps_def enum_queue_name_def dep_def, simplified]
  show ?thesis
  proof (cases t)
    case (Worker q)
    with facts started_instances show ?thesis by (cases q) (simp_all add: stack_depth_def numeral_eq_Suc)
  qed (use assms facts started_instances started_state(1) in
      \<open>simp_all add: stack_depth_def numeral_eq_Suc factory_defs\<close>)
qed

lemma resolve_started:
  assumes "TRACER \<notin> set ts"
  shows "resolve ts (started\<lparr>depContainer := b, listening := b'\<rparr>) = (Inr (), started\<lparr>depContainer := b, listening := b'\<rparr>)"
proof -
  let ?s = "started\<lparr>depContainer := b, listening := b'\<rparr>"
  have "provided ?s = provided started" by (simp add: provided_def fun_eq_iff)
  moreover have "ready stack_depth (provided started) (instances started) t" if "t \<in> set ts" for t
    using that assms by (intro started_ready) auto
  ultimately have "list_all (ready stack_depth (provided ?s) (instances ?s)) ts"
    by (simp add: list_all_iff)
  then show ?thesis by (simp add: resolve_def resolve_ready)
qed

section \<open>Properties\<close>

text \<open>
  Overriding.  When start-up succeeds, every token of the application resolves to the provider
  of the first override with its token, and to its own provider when there is none, whatever the
  hooks did in between.
\<close>

lemma registerExternalValues_overrides:
  assumes "registerExternalValues init override s = (Inr (), s')"
    and "d \<in> set (dependencies init)"
  shows "provided s' (token d) =
    Some (case find (\<lambda>obj. token obj = token d) override of Some obj \<Rightarrow> provider obj | None \<Rightarrow> provider d)"
  using registered_providers [OF assms] by (simp add: injectionObj_def split: option.splits)

lemma main_outcome:
  assumes "initialize oc = Inr u"
  shows "(\<lambda>s. (listening s, exitCode s, cleanups s, cleanedUp s)) (snd (main oc instrumented)) =
    (case (build oc, workers_run oc) of
       (Inl _, _) \<Rightarrow> (False, Some 1, held, [])
     | (Inr _, Inl _) \<Rightarrow> (True, Some 1, held, [held])
     | (Inr _, Inr _) \<Rightarrow> (True, None, held, []))"
proof -
  have self: "started\<lparr>depContainer := False, listening := False\<rparr> = started"
    using started_state(4,5) by simp
  have "resolve serverBuilder started = (Inr (), started)"
    using resolve_started [of serverBuilder False False] by (simp add: self serverBuilder_def bullBoard_def)
  with assms register_started have app: "getApp oc instrumented = (build oc, started)"
    by (simp add: getApp_def then_do_def)
  have up: "started\<lparr>depContainer := True, listening := False\<rparr> = started\<lparr>depContainer := True\<rparr>"
    using started_state(5) by simp
  have server: "start_server oc started = (workers_run oc, started\<lparr>depContainer := True, listening := True\<rparr>)"
    using resolve_started [where b = True and b' = False, of "[LOGGER, CONFIG, HEALTHCHECK, ON_SIGNAL]"]
      resolve_started [where b = True and b' = True, of "[CLOSURE_WORKERS_INITIALIZER]"] up
    by (simp add: start_server_def then_do_def)
  show ?thesis
    using app server started_state
    by (auto simp: main_def catching_def then_do_def trigger_def split: sum.splits)
qed

lemma main_returns: "\<exists>s'. main oc s = (Inr (), s')"
  by (auto simp: main_def catching_def then_do_def trigger_def split: prod.splits sum.splits)

lemma process_main:
  assumes "load True = Inr u"
  shows "snd (process True load oc new_process) = snd (main oc instrumented)"
proof -
  have "instrumentation load new_process = (Inr (), instrumented)"
    using assms by (simp add: instrumentation_def instrumented_def initConfig_def getConfig_def tracingFactory_def then_do_def)
  moreover obtain s where "main oc instrumented = (Inr (), s)" using main_returns by blast
  ultimately show ?thesis by (simp add: process_def catching_def then_do_def)
qed


text \<open>The tracer itself, which nothing in the application resolves, can be resolved and registers its cleanup.\<close>

lemma resolve_tracer:
  "(\<lambda>(r, s). (r, cleanups s)) (resolve [TRACER] started) = (Inr (), held @ [TRACER])"
  unfolding started_def instrumented_def held_def by code_simp

lemma resolve_tracer_uninstrumented:
  assumes "provided s TRACER = Some Traced" and "provided s CLEANUP_REGISTRY = Some Value"
    and "\<not> tracing s" and "TRACER \<notin> set (instances s)"
  shows "resolve [TRACER] s = (Inl (OtherError ''tracing not initialized''), s)"
  using assms by (simp add: resolve_def stack_depth_def getTracing_def numeral_eq_Suc)

end
