(* ===== verification/Connections.thy ===== *)
theory Connections
  imports Domain
begin

text \<open>
  The options of the connections to Redis (\<^verbatim>\<open>queueProvider/connection.ts\<close>) and to the database
  (\<^verbatim>\<open>common/db/index.ts\<close>), the data source that is shared, and the health check with its timeout
  (\<^verbatim>\<open>common/utils/promiseTimeout.ts\<close>).  Reading a certificate is a parameter that may throw; the
  options the program only passes on are a list of properties.
\<close>

section \<open>Redis\<close>

record ssl_paths =
  ssl_ca :: string
  ssl_cert :: string
  ssl_key :: string

record redis_config =
  rc_host :: string
  rc_port :: int
  rc_enableSslAuth :: bool
  rc_sslPaths :: ssl_paths
  rc_clientOptions :: json_object

record tls_options =
  tls_host :: string
  tls_port :: int
  tls_key :: "string option"
  tls_cert :: "string option"
  tls_ca :: "string option"

text \<open>\<open>ro_retryStrategy\<close> is what the function answers: a delay, or \<open>null\<close> to give up.\<close>

record redis_options =
  ro_host :: string
  ro_port :: int
  ro_clientOptions :: json_object
  ro_retryStrategy :: "int option"
  ro_tls :: "tls_options option"

definition RETRY_CONNECTION_DELAY :: int where "RETRY_CONNECTION_DELAY = 1000"

type_synonym read_file = "string \<Rightarrow> js_error + string"

text \<open>\<open>path ? readFileSync(path) : undefined\<close>\<close>

definition read_if_named :: "read_file \<Rightarrow> string \<Rightarrow> js_error + string option" where
  "read_if_named readFileSync path =
     (if path = [] then Inr None
      else (case readFileSync path of Inl e \<Rightarrow> Inl e | Inr content \<Rightarrow> Inr (Some content)))"

definition constructConnectionOptions ::
  "read_file \<Rightarrow> bool \<Rightarrow> redis_config \<Rightarrow> js_error + redis_options" where
  "constructConnectionOptions readFileSync isTestEnv redisConfig =
     (let connectionOptions = \<lparr>ro_host = rc_host redisConfig, ro_port = rc_port redisConfig,
           ro_clientOptions = rc_clientOptions redisConfig,
           ro_retryStrategy = (if isTestEnv then None else Some RETRY_CONNECTION_DELAY), ro_tls = None\<rparr>;
         paths = rc_sslPaths redisConfig
      in if \<not> rc_enableSslAuth redisConfig then Inr connectionOptions
      else (case read_if_named readFileSync (ssl_key paths) of
          Inl e \<Rightarrow> Inl e
        | Inr key \<Rightarrow> (case read_if_named readFileSync (ssl_cert paths) of
          Inl e \<Rightarrow> Inl e
        | Inr cert \<Rightarrow> (case read_if_named readFileSync (ssl_ca paths) of
          Inl e \<Rightarrow> Inl e
        | Inr ca \<Rightarrow> Inr (connectionOptions\<lparr>ro_tls := Some
            \<lparr>tls_host = rc_host redisConfig, tls_port = rc_port redisConfig,
             tls_key = key, tls_cert = cert, tls_ca = ca\<rparr>\<rparr>)))))"

text \<open>The two reusable connections: what each adds to the options, over what is there.\<close>

definition workerConnectionOptions :: "json_object \<Rightarrow> json_object" where
  "workerConnectionOptions options =
     spread options [(''maxRetriesPerRequest'', JNull), (''enableOfflineQueue'', JBool True)]"

definition queueConnectionOptions :: "json_object \<Rightarrow> json_object" where
  "queueConnectionOptions options = spread options [(''enableOfflineQueue'', JBool False)]"

text \<open>\<open>redisQuitSafely\<close>: closing a connection that is already closed is no error.\<close>

definition CONNECTION_CLOSED_ERROR_MESSAGE :: string where
  "CONNECTION_CLOSED_ERROR_MESSAGE = ''Connection is closed.''"

definition redisQuitSafely :: "(js_error, 'r, unit) stmt \<Rightarrow> (js_error, 'r, unit) stmt" where
  "redisQuitSafely quit s =
     (case quit s of
        (Inl e, t) \<Rightarrow> if e = OtherError CONNECTION_CLOSED_ERROR_MESSAGE then (Inr (), t) else (Inl e, t)
      | (Inr _, t) \<Rightarrow> (Inr (), t))"

section \<open>The database\<close>

text \<open>The options are spread over the entities: a configuration that has entities of its own wins.\<close>

record db_config =
  cfg_enableSslAuth :: bool
  cfg_sslPaths :: ssl_paths
  cfg_type :: string
  cfg_password :: "string option"
  cfg_entities :: "string list option"
  cfg_others :: json_object

record data_source_options =
  ds_entities :: "string list"
  ds_type :: string
  ds_password :: "string option"
  ds_ssl :: "(string \<times> string \<times> string) option"
  ds_others :: json_object

definition DB_ENTITIES :: "string list" where
  "DB_ENTITIES = [''Changeset'', ''Entity'', ''File'', ''SyncDb'', ''EntityHistory'']"

definition createDataSourceOptions :: "read_file \<Rightarrow> db_config \<Rightarrow> js_error + data_source_options" where
  "createDataSourceOptions readFileSync dbConfig =
     (let options = \<lparr>ds_entities = (case cfg_entities dbConfig of
             None \<Rightarrow> DB_ENTITIES @ [''**/DAL/*.js''] | Some es \<Rightarrow> es), ds_type = cfg_type dbConfig,
           ds_password = cfg_password dbConfig, ds_ssl = None, ds_others = cfg_others dbConfig\<rparr>;
         paths = cfg_sslPaths dbConfig
      in if \<not> (cfg_enableSslAuth dbConfig \<and> cfg_type dbConfig = ''postgres'') then Inr options
      else (case readFileSync (ssl_key paths) of
          Inl e \<Rightarrow> Inl e
        | Inr key \<Rightarrow> (case readFileSync (ssl_cert paths) of
          Inl e \<Rightarrow> Inl e
        | Inr cert \<Rightarrow> (case readFileSync (ssl_ca paths) of
          Inl e \<Rightarrow> Inl e
        | Inr ca \<Rightarrow> Inr (options\<lparr>ds_password := None, ds_ssl := Some (key, cert, ca)\<rparr>)))))"

text \<open>\<open>dataSource.ts\<close> of the repository, for the command line: the same options with other entities and the migrations.\<close>

record cli_options = data_source_options +
  cli_migrationsTableName :: string
  cli_migrations :: "string list"

definition cliDataSourceOptions :: "read_file \<Rightarrow> db_config \<Rightarrow> js_error + cli_options" where
  "cliDataSourceOptions readFileSync connectionOptions =
     map_sum id (\<lambda>options. data_source_options.extend (options\<lparr>ds_entities := [''src/**/DAL/*.ts'']\<rparr>)
         \<lparr>cli_migrationsTableName = ''migrations_table'', cli_migrations = [''db/migrations/*.ts'']\<rparr>)
       (createDataSourceOptions readFileSync connectionOptions)"

text \<open>
  \<open>getCachedDataSource\<close>: the module's one data source.  A data source is the number of times one
  was constructed before it, with whether it is initialized; \<open>made\<close> counts the constructions.
\<close>

record data_source_state =
  connectionSingleton :: "(nat \<times> bool) option"
  made :: nat

definition getCachedDataSource ::
  "read_file \<Rightarrow> db_config \<Rightarrow> data_source_state \<Rightarrow> (js_error + nat) \<times> data_source_state" where
  "getCachedDataSource readFileSync dbConfig s =
     (case connectionSingleton s of
        Some (ds, True) \<Rightarrow> (Inr ds, s)
      | _ \<Rightarrow> (case createDataSourceOptions readFileSync dbConfig of
            Inl e \<Rightarrow> (Inl e, s)
          | Inr _ \<Rightarrow> (Inr (made s), s\<lparr>connectionSingleton := Some (made s, False), made := Suc (made s)\<rparr>)))"

section \<open>The health check\<close>

text \<open>
  A promise is the moment it settles, in milliseconds from now, with its outcome, or never settles.
  \<open>Promise.race\<close> takes the first to settle; when both do at the same moment the promise is the one
  of the two that was given first.
\<close>

type_synonym 'a promise = "(nat \<times> (js_error + 'a)) option"

definition race :: "'a promise \<Rightarrow> 'a promise \<Rightarrow> 'a promise" where
  "race p q =
     (case (p, q) of
        (None, _) \<Rightarrow> q
      | (_, None) \<Rightarrow> p
      | (Some (t, _), Some (u, _)) \<Rightarrow> if t \<le> u then p else q)"

definition promiseTimeout :: "nat \<Rightarrow> 'a promise \<Rightarrow> 'a promise" where
  "promiseTimeout ms promise = race promise (Some (ms, Inl (TimeoutError ms)))"

definition DB_TIMEOUT :: nat where "DB_TIMEOUT = 5000"

definition getDbHealthCheckFunction :: "unit promise \<Rightarrow> unit promise" where
  "getDbHealthCheckFunction check = promiseTimeout DB_TIMEOUT check"

section \<open>Results\<close>

lemma constructConnectionOptions_plain:
  "\<not> rc_enableSslAuth c \<Longrightarrow> \<exists>r. constructConnectionOptions rd t c = Inr r \<and> ro_tls r = None \<and>
    ro_host r = rc_host c \<and> ro_port r = rc_port c"
  by (simp add: constructConnectionOptions_def Let_def)

text \<open>With authentication, no option is made without the certificates that have a path.\<close>

lemma constructConnectionOptions_tls:
  assumes "rc_enableSslAuth c" and "constructConnectionOptions rd t c = Inr r"
  shows "\<exists>tls. ro_tls r = Some tls \<and>
    (tls_key tls = None \<longleftrightarrow> ssl_key (rc_sslPaths c) = []) \<and>
    (tls_cert tls = None \<longleftrightarrow> ssl_cert (rc_sslPaths c) = []) \<and>
    (tls_ca tls = None \<longleftrightarrow> ssl_ca (rc_sslPaths c) = [])"
  using assms
  by (auto simp: constructConnectionOptions_def read_if_named_def Let_def split: sum.splits if_splits)

lemma connections_differ:
  "map_of (workerConnectionOptions options) ''enableOfflineQueue'' = Some (JBool True)"
  "map_of (queueConnectionOptions options) ''enableOfflineQueue'' = Some (JBool False)"
  by (simp_all add: workerConnectionOptions_def queueConnectionOptions_def map_of_spread)

text \<open>No password travels next to a client certificate.\<close>

lemma createDataSourceOptions_secret:
  "createDataSourceOptions rd c = Inr r \<Longrightarrow> ds_ssl r = None \<or> ds_password r = None"
  by (auto simp: createDataSourceOptions_def Let_def split: if_splits sum.splits)

text \<open>As long as the data source is initialized, every request gets the same one.\<close>

lemma getCachedDataSource_same:
  "connectionSingleton s = Some (ds, True) \<Longrightarrow> getCachedDataSource rd c s = (Inr ds, s)"
  by (simp add: getCachedDataSource_def)

lemma getCachedDataSource_new:
  assumes "connectionSingleton s \<in> {None, Some (ds, False)}" and "getCachedDataSource rd c s = (Inr n, t)"
  shows "n = made s \<and> connectionSingleton t = Some (n, False) \<and> made t = Suc (made s)"
  using assms by (auto simp: getCachedDataSource_def split: sum.splits)

text \<open>The health check always settles, within the timeout, and an early answer is passed on.\<close>

lemma promiseTimeout_settles: "\<exists>t r. promiseTimeout ms p = Some (t, r) \<and> t \<le> ms"
  by (auto simp: promiseTimeout_def race_def split: option.splits)

lemma promiseTimeout_early: "t \<le> ms \<Longrightarrow> promiseTimeout ms (Some (t, r)) = Some (t, r)"
  by (simp add: promiseTimeout_def race_def)

lemma promiseTimeout_late:
  "(\<And>t r. p = Some (t, r) \<Longrightarrow> ms < t) \<Longrightarrow> promiseTimeout ms p = Some (ms, Inl (TimeoutError ms))"
  by (cases p) (auto simp: promiseTimeout_def race_def)

lemma redisQuitSafely_closed:
  "fst (quit s) = Inl (OtherError CONNECTION_CLOSED_ERROR_MESSAGE) \<Longrightarrow> fst (redisQuitSafely quit s) = Inr ()"
  "fst (quit s) = Inl e \<Longrightarrow> e \<noteq> OtherError CONNECTION_CLOSED_ERROR_MESSAGE \<Longrightarrow>
    fst (redisQuitSafely quit s) = Inl e"
  by (auto simp: redisQuitSafely_def split: prod.splits sum.splits)

end
