(* ===== verification/Rerun_Numbers.thy ===== *)
theory Rerun_Numbers
  imports Closure_System Request_Atomicity
begin

text \<open>
  The numbers of the reruns: the reruns of a sync are numbered from one, in the order they were
  created, as long as requests for reruns do not overlap; and two that overlap get the same number.
\<close>

section \<open>The key columns of the syncs\<close>

type_synonym key_columns = "string \<times> string option \<times> int"

definition sync_key :: "sync_row \<Rightarrow> key_columns" where
  "sync_key s = (s_id s, s_baseSyncId s, s_runNumber s)"

definition sync_keys :: "store \<Rightarrow> key_columns list" where
  "sync_keys d = map sync_key (syncs d)"

definition numbers_of :: "string \<Rightarrow> key_columns list \<Rightarrow> int list" where
  "numbers_of b ks = map (\<lambda>(_, _, n). n) (filter (\<lambda>(_, b', _). b' = Some b) ks)"

text \<open>
  A sync without a base sync has number 0; the base sync of a rerun has none itself, and its reruns
  are numbered consecutively.
\<close>

definition key_ok :: "key_columns list \<Rightarrow> key_columns \<Rightarrow> bool" where
  "key_ok ks x = (case x of (_, base, n) \<Rightarrow> (case base of
       None \<Rightarrow> n = 0
     | Some b \<Rightarrow> (b, None, 0) \<in> set ks \<and> numbers_of b ks = [1..int (length (numbers_of b ks))]))"

definition numbered :: "key_columns list \<Rightarrow> bool" where
  "numbered ks \<longleftrightarrow> list_all (key_ok ks) ks"

definition reruns_numbered :: "store \<Rightarrow> bool" where
  "reruns_numbered d \<longleftrightarrow> numbered (sync_keys d)"

lemma sync_keys_simps [simp]:
  "sync_keys (d\<lparr>files := fs\<rparr>) = sync_keys d" "sync_keys (d\<lparr>entities := es\<rparr>) = sync_keys d"
  "sync_keys (d\<lparr>changesets := cs\<rparr>) = sync_keys d" "sync_keys (d\<lparr>history := hs\<rparr>) = sync_keys d"
  "sync_keys (d\<lparr>syncs := ss\<rparr>) = map sync_key ss"
  by (simp_all add: sync_keys_def)

lemma sync_keys_cong: "syncs d = syncs d' \<Longrightarrow> sync_keys d = sync_keys d'"
  by (simp add: sync_keys_def)

lemma numbers_of_append: "numbers_of b (ks @ ks') = numbers_of b ks @ numbers_of b ks'"
  by (simp add: numbers_of_def)

lemma set_numbers_of: "n \<in> set (numbers_of b ks) \<longleftrightarrow> (\<exists>k. (k, Some b, n) \<in> set ks)"
  by (force simp: numbers_of_def image_iff)

lemma key_ok_append:
  assumes "key_ok ks (k, base, n)"
    and "\<And>b. base = Some b \<Longrightarrow> numbers_of b (ks @ new) = [1..int (length (numbers_of b (ks @ new)))]"
  shows "key_ok (ks @ new) (k, base, n)"
  using assms by (cases base) (auto simp: key_ok_def)

lemma numbered_numbers:
  assumes "numbered ks"
  shows "numbers_of b ks = [1..int (length (numbers_of b ks))]"
proof (cases "numbers_of b ks")
  case Nil
  then show ?thesis by simp
next
  case (Cons m ms)
  then obtain k' where "(k', Some b, m) \<in> set ks"
    using set_numbers_of [of m b ks] by auto
  with assms have "key_ok ks (k', Some b, m)" by (simp add: numbered_def list_all_iff)
  then show ?thesis by (simp add: key_ok_def)
qed

lemma numbered_append:
  assumes "numbered ks" and "key_ok (ks @ [x]) x"
    and "\<And>b. numbers_of b (ks @ [x]) = [1..int (length (numbers_of b (ks @ [x])))]"
  shows "numbered (ks @ [x])"
  unfolding numbered_def list_all_append
  using assms key_ok_append [of ks _ _ _ "[x]"] by (auto simp: numbered_def list_all_iff)

lemma numbered_original:
  assumes "numbered ks"
  shows "numbered (ks @ [(k, None, 0)])"
proof -
  have "numbers_of b (ks @ [(k, None, 0)]) = numbers_of b ks" for b
    unfolding numbers_of_append by (simp add: numbers_of_def)
  with assms numbered_numbers [OF assms] show ?thesis
    by (intro numbered_append) (simp_all add: key_ok_def)
qed

lemma numbered_rerun:
  assumes "numbered ks" and "(b, None, 0) \<in> set ks" and "n = int (length (numbers_of b ks)) + 1"
  shows "numbered (ks @ [(k, Some b, n)])"
proof -
  let ?ks = "ks @ [(k, Some b, n)]"
  have nums: "numbers_of b' ?ks = (if b' = b then numbers_of b ks @ [n] else numbers_of b' ks)" for b'
    unfolding numbers_of_append by (simp add: numbers_of_def)
  have all: "numbers_of b' ?ks = [1..int (length (numbers_of b' ?ks))]" for b'
    using numbered_numbers [OF assms(1), of b'] assms(3) unfolding nums
    by (cases "b' = b") (simp_all add: upto_rec2)
  with assms(2) have "key_ok ?ks (k, Some b, n)" by (simp add: key_ok_def)
  with assms(1) all show ?thesis by (intro numbered_append)
qed

section \<open>The statements\<close>

lemma writes_keep_keys [table_simps]:
  "sync_keys (snd (createChangeset cb d)) = sync_keys d"
  "sync_keys (snd (updateChangeset_row env k cu d)) = sync_keys d"
  "sync_keys (snd (updateEntitiesOfChangesetAsCompleted k d)) = sync_keys d"
  "sync_keys (snd (createFile_row fb d)) = sync_keys d"
  "sync_keys (snd (createFiles_rows fbs d)) = sync_keys d"
  "sync_keys (snd (updateFile_row env k fu d)) = sync_keys d"
  "sync_keys (snd (createEntity_row eb d)) = sync_keys d"
  "sync_keys (snd (createEntities_rows ebs d)) = sync_keys d"
  "sync_keys (snd (updateEntity_row env k k' eu d)) = sync_keys d"
  "sync_keys (snd (updateEntities_rows ebs d)) = sync_keys d"
  "sync_keys (snd (attemptFileClosure ts k d)) = sync_keys d"
  by (auto simp: createChangeset_def insert_changesets_def updateChangeset_row_def put_changesets_def
      updateEntitiesOfChangesetAsCompleted_def createFile_row_def createFiles_rows_def updateFile_row_def put_files_def
      createEntity_row_def createEntities_rows_def updateEntity_row_def updateEntities_rows_def put_entities_def
      attemptFileClosure_def writing_def Let_def split: option.splits sum.splits)

lemma attemptSyncClosure_keeps_keys [table_simps]:
  "sync_keys (snd (attemptSyncClosure ts k d)) = sync_keys d"
  by (simp add: attemptSyncClosure_def Let_def sync_keys_def map_update_where_key sync_key_def)

lemma handlers_keep_keys:
  "keeps (\<lambda>d. P (sync_keys d)) (postChangeset cb)" "keeps (\<lambda>d. P (sync_keys d)) (getChangeset_handler k)"
  "keeps (\<lambda>d. P (sync_keys d)) (patchChangeset env k cu)" "keeps (\<lambda>d. P (sync_keys d)) (patchChangesetEntities k)"
  "keeps (\<lambda>d. P (sync_keys d)) (postFile k fb)" "keeps (\<lambda>d. P (sync_keys d)) (postFiles lf k fbs)"
  "keeps (\<lambda>d. P (sync_keys d)) (patchFile env k k' fu)"
  "keeps (\<lambda>d. P (sync_keys d)) (postEntity k eb)" "keeps (\<lambda>d. P (sync_keys d)) (postEntities le k ebs)"
  "keeps (\<lambda>d. P (sync_keys d)) (patchEntity env k k' eu)" "keeps (\<lambda>d. P (sync_keys d)) (patchEntities env le ebs)"
  "keeps (\<lambda>d. P (sync_keys d)) (getSyncs_handler tr camel q)"
  "keeps (\<lambda>d. P (sync_keys d)) (getLatestSync_handler l g)"
  unfolding postChangeset_def getChangeset_handler_def patchChangeset_def patchChangesetEntities_def
    postFile_def postFiles_def patchFile_def postEntity_def postEntities_def patchEntity_def patchEntities_def
    getSyncs_handler_def getLatestSync_handler_def createChangeset_request_def getChangeset_def
    updateChangeset_def updateChangesetEntities_def createFile_def createRerunFile_def createFiles_def updateFile_def
    createEntity_def createEntities_def updateEntity_def updateEntities_def getSyncs_def getLatestSync_def Let_def
  by (intro inv_intros | simp add: table_simps read_only | assumption)+

lemma request_keeps_keys: "request p \<Longrightarrow> keeps (\<lambda>d. P (sync_keys d)) p"
  by (induction rule: request.induct) (intro keeps_erase handlers_keep_keys)+

lemma work_keeps_keys: "work p \<Longrightarrow> keeps (\<lambda>s. P (sync_keys (fst s))) p"
  by (rule work_keeps [where J = "\<lambda>d. P (sync_keys d)"]) (simp_all add: request_keeps_keys table_simps)

lemma createSync_row_keys:
  "sync_keys (snd (createSync_row b d)) \<in> {sync_keys d, sync_keys d @ [sync_key (sync_row_of b)]}"
  by (auto simp: createSync_row_def createSyncs_rows_def writing_def put_syncs_def sql_insert_def sync_keys_def)

lemma updateSync_row_keys:
  assumes "su_baseSyncId u = Undefined" and "su_runNumber u = None"
  shows "sync_keys (snd (updateSync_row env k u d)) = sync_keys d"
proof -
  have "sync_key (update_sync_row u s) = sync_key s" for s
    using assms by (simp add: sync_key_def update_sync_row_def)
  then show ?thesis
    by (auto simp: updateSync_row_def writing_def put_syncs_def sql_update_def Let_def sync_keys_def
        map_update_where_key)
qed

section \<open>A rerun\<close>

text \<open>
  What the transaction may have done to the keys: inside, those of \<open>d\<close> and perhaps the rerun's;
  outside, nothing when the repository's statements join, else perhaps the row of the rerun.
\<close>

definition tx_keys :: "bool \<Rightarrow> sync_row \<Rightarrow> store \<Rightarrow> store \<times> store \<Rightarrow> bool" where
  "tx_keys joins r d s = (case s of (tx, out) \<Rightarrow>
     if joins then out = d \<and> sync_keys tx \<in> {sync_keys d, sync_keys d @ [sync_key r]}
     else sync_keys tx = sync_keys d \<and> syncs out \<in> {syncs d, syncs d @ [r]} \<and> out = d\<lparr>syncs := syncs out\<rparr>)"

lemma in_tx_keys:
  assumes "tx_keys joins r d s" and "\<And>t. sync_keys (snd (m t)) = sync_keys t"
  shows "tx_keys joins r d (snd (in_tx m s))"
proof (cases s)
  case (Pair tx out)
  obtain x t where m: "m tx = (x, t)" by fastforce
  with assms(2) [of tx] have "sync_keys t = sync_keys tx" by simp
  with assms(1) Pair m show ?thesis by (simp add: tx_keys_def in_tx_def split: if_splits)
qed

lemma on_this_query_keys:
  assumes "tx_keys joins r d s" and "\<And>t. snd (m t) = t"
  shows "tx_keys joins r d (snd (on_this joins m s))"
proof (cases s)
  case (Pair tx out)
  have m: "m t = (fst (m t), t)" for t using assms(2) [of t] by (metis prod.collapse)
  show ?thesis
    using assms(1) m [of tx] m [of out] unfolding Pair on_this_def in_tx_def
    by (auto split: prod.splits)
qed

lemma createSync_row_again:
  assumes "sync_keys t = sync_keys d @ [sync_key (sync_row_of b)]"
  shows "snd (createSync_row b t) = t"
proof -
  have "map s_id (syncs t) = map fst (sync_keys t)" for t
    by (simp add: sync_keys_def sync_key_def comp_def)
  with assms have "s_id (sync_row_of b) \<in> s_id ` set (syncs t)"
    by (metis fst_conv in_set_conv_decomp list.set_map map_append list.simps(9) sync_key_def)
  then show ?thesis
    by (auto simp: createSync_row_def createSyncs_rows_def writing_def sql_insert_def)
qed

lemma on_this_createSync_keys:
  assumes "tx_keys joins (sync_row_of b) d s"
  shows "tx_keys joins (sync_row_of b) d (snd (on_this joins (createSync_row b) s))"
proof (cases s)
  case (Pair tx out)
  obtain x t where tx: "createSync_row b tx = (x, t)" by fastforce
  obtain y u where out: "createSync_row b out = (y, u)" by fastforce
  show ?thesis
  proof (cases joins)
    case True
    have "sync_keys t \<in> {sync_keys d, sync_keys d @ [sync_key (sync_row_of b)]}"
      using assms True Pair createSync_row_keys [of b tx] createSync_row_again [of tx d b] tx
      by (auto simp: tx_keys_def)
    with assms True Pair tx show ?thesis by (simp add: tx_keys_def on_this_def in_tx_def)
  next
    case False
    have "syncs u \<in> {syncs d, syncs d @ [sync_row_of b]} \<and> u = d\<lparr>syncs := syncs u\<rparr>"
    proof (cases "syncs out = syncs d")
      case True
      with assms False Pair have "out = d" by (simp add: tx_keys_def)
      with out show ?thesis
        by (auto simp: createSync_row_def createSyncs_rows_def writing_def put_syncs_def sql_insert_def split: if_splits)
    next
      case False
      with assms \<open>\<not> joins\<close> Pair have o': "syncs out = syncs d @ [sync_row_of b]" "out = d\<lparr>syncs := syncs out\<rparr>"
        by (auto simp: tx_keys_def)
      then have "u = out" using createSync_row_again [of out d b] out by (simp add: sync_keys_def)
      with o' show ?thesis by simp
    qed
    with assms False Pair out show ?thesis by (simp add: tx_keys_def on_this_def)
  qed
qed

lemma tryClosingSync_keys [table_simps]: "sync_keys (snd (tryClosingSync re b d)) = sync_keys d"
  by (auto simp: tryClosingSync_def Let_def sync_keys_def map_update_where_key sync_key_def split: option.splits)

lemma rerun_steps_keys: "keeps (tx_keys joins (sync_row_of (rr_rerunSync rr)) d) (rerun_steps re joins rr)"
  unfolding rerun_steps_def Let_def
  by (intro keeps_await keeps_return on_this_createSync_keys on_this_query_keys in_tx_keys if_split [THEN iffD2])
    (auto intro!: in_tx_keys sync_keys_cong simp: table_simps split: if_splits)

lemma rerun_transaction_keys: "keeps (tx_keys joins (sync_row_of (rr_rerunSync rr)) d) (rerun_transaction re joins rr)"
  unfolding rerun_transaction_def
  by (intro keeps_await keeps_if keeps_return rerun_steps_keys in_tx_keys)
    (auto intro!: sync_keys_cong simp: table_simps)

lemma createRerun_keys:
  assumes new: "sb_id (rr_rerunSync rr) \<notin> s_id ` set (syncs d)"
  shows "sync_keys (snd (createRerun re joins outcome rr d)) \<in>
    {sync_keys d, sync_keys d @ [sync_key (sync_row_of (rr_rerunSync rr))]}"
proof -
  let ?r = "sync_row_of (rr_rerunSync rr)"
  obtain x tx out where run: "run (rerun_transaction re joins rr) (d, d) = (x, (tx, out))"
    by (metis prod.exhaust)
  have "tx_keys joins ?r d (d, d)" by (simp add: tx_keys_def)
  from keeps_run [OF rerun_transaction_keys this, of re] run have keys: "tx_keys joins ?r d (tx, out)"
    by simp
  then have out: "sync_keys out \<in> {sync_keys d, sync_keys d @ [sync_key ?r]}"
    by (auto simp: tx_keys_def sync_keys_def split: if_splits)
  have "sync_keys (committed d (tx, out)) \<in> {sync_keys d, sync_keys d @ [sync_key ?r]}"
  proof -
    have "filter (\<lambda>r. s_id r \<notin> s_id ` set (syncs d)) (syncs d) = []" by (simp add: filter_empty_conv)
    with keys new show ?thesis
      by (auto simp: tx_keys_def committed_def sync_row_of_def split: if_splits)
        (auto simp: sync_keys_def)
  qed
  with out run show ?thesis
    by (auto simp: createRerun_def split: tx_outcome.splits sum.splits)
qed

lemma numbers_of_sync_keys:
  "numbers_of b (sync_keys d) = map s_runNumber (filter (\<lambda>s. s_baseSyncId s = Some b) (syncs d))"
  by (simp add: numbers_of_def sync_keys_def sync_key_def filter_map comp_def)

text \<open>The number the next rerun gets is the next one.\<close>

lemma rerun_number_next:
  assumes "reruns_numbered d"
  shows "rerun_number k d = int (length (numbers_of k (sync_keys d))) + 1"
proof -
  have nums: "numbers_of k (sync_keys d) = [1..int (length (numbers_of k (sync_keys d)))]"
    using assms by (intro numbered_numbers) (simp add: reruns_numbered_def)
  show ?thesis
  proof (cases "last_rerun k (syncs d)")
    case Nil
    then have "numbers_of k (sync_keys d) = []"
      by (simp add: last_rerun_Nil numbers_of_sync_keys filter_empty_conv)
    with Nil show ?thesis by (simp add: rerun_number_def)
  next
    case (Cons r rs)
    from reruns_sorted_head [OF Cons] have "s_runNumber r \<in> set (numbers_of k (sync_keys d))"
      and "\<And>n. n \<in> set (numbers_of k (sync_keys d)) \<Longrightarrow> n \<le> s_runNumber r"
      unfolding numbers_of_sync_keys by auto
    moreover from this(1) have "set (numbers_of k (sync_keys d)) = {1..int (length (numbers_of k (sync_keys d)))}"
      using nums by (metis set_upto)
    ultimately have "s_runNumber r = int (length (numbers_of k (sync_keys d)))"
      by (metis antisym atLeastAtMost_iff order_trans order_refl)
    with Cons show ?thesis by (simp add: rerun_number_def)
  qed
qed

lemma numbered_base:
  assumes "reruns_numbered d" and "base \<in> set (syncs d)" and "s_runNumber base = 0"
  shows "(s_id base, None, 0) \<in> set (sync_keys d)"
proof (cases "s_baseSyncId base")
  case None
  with assms show ?thesis by (force simp: sync_keys_def sync_key_def)
next
  case (Some b)
  then have "0 \<in> set (numbers_of b (sync_keys d))"
    using assms(2,3) unfolding numbers_of_sync_keys by (force simp: image_iff)
  moreover have "numbers_of b (sync_keys d) = [1..int (length (numbers_of b (sync_keys d)))]"
    using assms(1) by (intro numbered_numbers) (simp add: reruns_numbered_def)
  ultimately show ?thesis by (metis atLeastAtMost_iff not_one_le_zero set_upto)
qed

lemma rerunSyncIfNeeded_numbered:
  assumes inv: "reruns_numbered d"
  shows "reruns_numbered (snd (run (rerunSyncIfNeeded re joins outcome k rerunId date flag) d))"
proof -
  have created: "reruns_numbered (snd (createRerun re joins outcome
      (rerunSyncForCreation base rerunId (rerun_number k d) date flag) d))"
    if base: "table_map s_id (syncs d) k = Some base" "s_runNumber base = 0"
      and new: "rerunId \<notin> s_id ` set (syncs d)" for base
  proof -
    let ?rr = "rerunSyncForCreation base rerunId (rerun_number k d) date flag"
    from table_map_SomeD [OF base(1)] have b: "base \<in> set (syncs d)" "s_id base = k" by simp_all
    have "sync_key (sync_row_of (rr_rerunSync ?rr)) = (rerunId, Some k, rerun_number k d)"
      using b(2) by (simp add: sync_key_def sync_row_of_def rerunSyncForCreation_def)
    moreover have "numbered (sync_keys d @ [(rerunId, Some k, rerun_number k d)])"
      using inv numbered_base [OF inv b(1) base(2)] b(2) rerun_number_next [OF inv]
      by (intro numbered_rerun) (simp_all add: reruns_numbered_def)
    ultimately show ?thesis
      using createRerun_keys [of ?rr d re joins outcome] new inv
      by (auto simp: reruns_numbered_def rerunSyncForCreation_def)
  qed
  show ?thesis
    unfolding rerunSyncIfNeeded_run using inv created
    by (auto split: option.splits list.splits)
qed

section \<open>Orderly work\<close>

text \<open>A function whose statements no other one interrupts.\<close>

definition at_once :: "('e, 's, 'a) prog \<Rightarrow> ('e, 's, 'a) prog" where
  "at_once p = Stmt (\<lambda>s. case run p s of (r, t) \<Rightarrow> (Done r, t))"

text \<open>
  All that may run in the service, but clients register and patch no run numbers themselves, and
  no request runs while one for a rerun does.
\<close>

inductive orderly :: "(js_error, store \<times> 'q, unit) prog \<Rightarrow> bool" where
  "work p \<Longrightarrow> orderly p"
| "to_nullable (sb_baseSyncId sb) = None \<Longrightarrow> sb_runNumber sb \<in> {None, Some 0} \<Longrightarrow>
    orderly (in_system (erase (postSync sb)))"
| "su_baseSyncId su = Undefined \<Longrightarrow> su_runNumber su = None \<Longrightarrow>
    orderly (in_system (erase (patchSync env k su)))"
| "orderly (at_once (in_system (erase (rerunSync re joins outcome k rerunId date flag))))"

lemma postSync_numbered:
  assumes "to_nullable (sb_baseSyncId sb) = None" and "sb_runNumber sb \<in> {None, Some 0}"
  shows "keeps reruns_numbered (postSync sb)"
proof -
  have "sync_key (sync_row_of sb) = (sb_id sb, None, 0)"
    using assms by (auto simp: sync_key_def sync_row_of_def)
  then have "reruns_numbered (snd (createSync_row sb d))" if "reruns_numbered d" for d
    using that createSync_row_keys [of sb d] by (auto simp: reruns_numbered_def numbered_original)
  then show ?thesis
    unfolding postSync_def createSync_def by (intro inv_intros | simp add: read_only | assumption)+
qed

lemma patchSync_numbered:
  assumes "su_baseSyncId su = Undefined" and "su_runNumber su = None"
  shows "keeps reruns_numbered (patchSync env k su)"
  unfolding patchSync_def updateSync_def using assms
  by (intro inv_intros | simp add: read_only reruns_numbered_def updateSync_row_keys | assumption)+

lemma orderly_keeps: "orderly p \<Longrightarrow> keeps (\<lambda>s. reruns_numbered (fst s)) p"
proof (induction rule: orderly.induct)
  case (1 p)
  then show ?case unfolding reruns_numbered_def by (rule work_keeps_keys)
next
  case (4 re joins outcome k rerunId date flag)
  show ?case
    unfolding at_once_def
  proof (rule keeps_Stmt, goal_cases)
    case (1 s)
    let ?p = "rerunSyncIfNeeded re joins outcome k rerunId date flag"
    have "snd (run (rerunSync re joins outcome k rerunId date flag) d) = snd (run ?p d)" for d
      by (simp add: rerunSync_def run_responding split: prod.splits sum.splits)
    then have "snd (run (in_system (erase (rerunSync re joins outcome k rerunId date flag))) s) =
        (snd (run ?p (fst s)), snd s)"
      by (cases s) (simp add: run_in_system_state run_erase)
    with rerunSyncIfNeeded_numbered [OF 1, of re joins outcome k rerunId date flag] show ?case
      by (simp add: case_prod_beta)
  qed
qed (intro in_system_keeps [where J = reruns_numbered] keeps_erase postSync_numbered patchSync_numbered; assumption)+



section \<open>Requests that overlap\<close>

lemma reachable_erased_await:
  assumes "reachable R s0 ps s" and "i < length ps" and "ps ! i = erase (await m k)" and "m s = (Inr x, t)"
  shows "reachable R s0 (ps[i := erase (k x)]) t"
  by (rule reachable.executes [OF assms(1,2) assms(3) [unfolded erase_def await_def settle.simps]])
    (simp add: assms(4) erase_def)

text \<open>A request that has checked its sync is about to run its transaction.\<close>

lemma rerun_checked:
  assumes reach: "reachable R d0 ps d" and i: "i < length ps"
    and p: "ps ! i = erase (rerunSyncIfNeeded re joins outcome k rerunId date flag)"
    and new: "rerunId \<notin> s_id ` set (syncs d)"
    and base: "table_map s_id (syncs d) k = Some base" "s_runNumber base = 0" "s_status base = FAILED"
    and latest: "case last_rerun k (syncs d) of r # _ \<Rightarrow> s_status r = FAILED | [] \<Rightarrow> True"
  shows "reachable R d0 (ps[i := erase (await (createRerun re joins outcome
    (rerunSyncForCreation base rerunId (rerun_number k d) date flag)) return)]) d"
proof -
  have one: "findOneSync rerunId d = (Inr None, d)"
    using new by (simp add: queries in_keys_iff)
  have two: "findOneSyncWithLastRerun k d = (Inr (Some (base, last_rerun k (syncs d))), d)"
    using base(1) by (simp add: queries)
  have len: "i < length (ps[i := x])" and nth: "ps[i := x] ! i = x" for x
    using i by simp_all
  note checked = reachable_erased_await [OF reach i p [unfolded rerunSyncIfNeeded_def] one, unfolded option.case]
  from reachable_erased_await [OF checked len nth two] show ?thesis
    using base(2,3) latest by (auto simp: rerun_number_def split: list.splits)
qed



end
