(* ===== verification/Queue_Monitoring.thy ===== *)
theory Queue_Monitoring
  imports Worker_Provider
begin

text \<open>
  The parts of the queues and the workers around the jobs: the configuration each queue and worker
  is made with (\<^verbatim>\<open>queues/bullQueueProviderFactory.ts\<close>, the constructors under \<^verbatim>\<open>workers\<close>, the board of
  \<^verbatim>\<open>ui/bullBoard.ts\<close>), the deduplication event of a queue, closing it, and the counters of
  \<^verbatim>\<open>bullQueueProvider.ts\<close> and \<^verbatim>\<open>bullWorkerProvider.ts\<close>.  The registry of the metrics is a
  library: a counter is a number that is only incremented, and there is none without a registry.
\<close>

section \<open>The queues and the workers\<close>

record queue_config =
  qc_queueOptions :: queue_options
  qc_jobOptions :: job_options
  qc_workerOptions :: worker_options

record closure_config =
  keyPrefix :: string
  queues :: "string \<Rightarrow> queue_config"

definition CHANGESETS_QUEUE_NAME :: string where "CHANGESETS_QUEUE_NAME = ''changesets''"

definition FILES_QUEUE_NAME :: string where "FILES_QUEUE_NAME = ''files''"

definition SYNCS_QUEUE_NAME :: string where "SYNCS_QUEUE_NAME = ''syncs''"

lemmas queue_names = CHANGESETS_QUEUE_NAME_def FILES_QUEUE_NAME_def SYNCS_QUEUE_NAME_def

text \<open>A queue with its provider; \<open>qu_events\<close>: whether it listens to the events of the queue.\<close>

record queue =
  qu_name :: string
  qu_prefix :: string
  qu_events :: bool
  qu_provider :: provider

definition createQueue ::
  "closure_config \<Rightarrow> (string \<Rightarrow> string \<Rightarrow> int) \<Rightarrow> (string \<Rightarrow> string) \<Rightarrow> string \<Rightarrow> queue" where
  "createQueue config localeCompare digest queueName =
     (let queueConfig = queues config queueName
      in \<lparr>qu_name = queueName, qu_prefix = keyPrefix config,
          qu_events = (deduplicationDelay (qc_jobOptions queueConfig) \<noteq> None),
          qu_provider = \<lparr>queueOptions = qc_queueOptions queueConfig, jobOptions = qc_jobOptions queueConfig,
            compareIds = localeCompare, sha256 = digest\<rparr>\<rparr>)"

text \<open>A worker consumes the queue of its name among those with its prefix.\<close>

record queue_worker =
  qw_name :: string
  qw_prefix :: string
  qw_options :: worker_options

definition changesetsWorker :: "closure_config \<Rightarrow> queue_worker" where
  "changesetsWorker config = \<lparr>qw_name = CHANGESETS_QUEUE_NAME, qw_prefix = keyPrefix config,
     qw_options = qc_workerOptions (queues config CHANGESETS_QUEUE_NAME)\<rparr>"

definition filesWorker :: "closure_config \<Rightarrow> queue_worker" where
  "filesWorker config = \<lparr>qw_name = FILES_QUEUE_NAME, qw_prefix = keyPrefix config,
     qw_options = qc_workerOptions (queues config FILES_QUEUE_NAME)\<rparr>"

definition syncsWorker :: "closure_config \<Rightarrow> queue_worker" where
  "syncsWorker config = \<lparr>qw_name = SYNCS_QUEUE_NAME, qw_prefix = keyPrefix config,
     qw_options = qc_workerOptions (queues config SYNCS_QUEUE_NAME)\<rparr>"

text \<open>The queues the board shows, by name and prefix.\<close>

definition getBullBoardRouter :: "closure_config \<Rightarrow> (string \<times> string) list" where
  "getBullBoardRouter config =
     map (\<lambda>queueName. (queueName, keyPrefix config)) [CHANGESETS_QUEUE_NAME, FILES_QUEUE_NAME, SYNCS_QUEUE_NAME]"

text \<open>Every queue that is shown is consumed by exactly one of the workers, with the options of that queue.\<close>

lemma one_worker_per_queue:
  assumes "(n, prefix) \<in> set (getBullBoardRouter config)"
  shows "qu_name (createQueue config cmp dig n) = n" and "qu_prefix (createQueue config cmp dig n) = prefix"
    and "map qw_options (filter (\<lambda>w. qw_name w = n \<and> qw_prefix w = prefix)
      [changesetsWorker config, filesWorker config, syncsWorker config]) = [qc_workerOptions (queues config n)]"
proof -
  from assms consider "n = ''changesets''" | "n = ''files''" | "n = ''syncs''"
    by (auto simp: getBullBoardRouter_def queue_names)
  moreover have "prefix = keyPrefix config" using assms by (auto simp: getBullBoardRouter_def)
  ultimately show "map qw_options (filter (\<lambda>w. qw_name w = n \<and> qw_prefix w = prefix)
      [changesetsWorker config, filesWorker config, syncsWorker config]) = [qc_workerOptions (queues config n)]"
    by cases (simp_all add: changesetsWorker_def filesWorker_def syncsWorker_def queue_names)
  show "qu_name (createQueue config cmp dig n) = n" and "qu_prefix (createQueue config cmp dig n) = prefix"
    using \<open>prefix = keyPrefix config\<close> by (simp_all add: createQueue_def Let_def)
qed

section \<open>The queue\<close>

text \<open>
  The listener of the event \<open>deduplicated\<close>, which exists only with the events: the job that was
  deduplicated is delayed anew.
\<close>

definition onDeduplicated :: "'q bullmq \<Rightarrow> queue \<Rightarrow> string \<Rightarrow> (js_error, 'q, unit) prog" where
  "onDeduplicated bq qu jobId =
     (if \<not> qu_events qu then return ()
      else changeJobDelay bq (qu_provider qu) jobId (the (deduplicationDelay (jobOptions (qu_provider qu)))))"

text \<open>\<open>close\<close>: the queue first, and then its events if it has them.\<close>

definition close_queue ::
  "(js_error, 'q, unit) stmt \<Rightarrow> (js_error, 'q, unit) stmt \<Rightarrow> queue \<Rightarrow> (js_error, 'q, unit) prog" where
  "close_queue queueClose eventsClose qu =
     await queueClose (\<lambda>_. if qu_events qu then await eventsClose return else return ())"

section \<open>The counters of a queue\<close>

record added_counter =
  ac_single :: nat
  ac_bulk :: nat
  ac_total :: nat

definition count_single :: "added_counter \<Rightarrow> added_counter" where
  "count_single c = c\<lparr>ac_single := Suc (ac_single c), ac_total := Suc (ac_total c)\<rparr>"

definition count_bulk :: "nat \<Rightarrow> added_counter \<Rightarrow> added_counter" where
  "count_bulk n c = c\<lparr>ac_bulk := Suc (ac_bulk c), ac_total := ac_total c + n\<rparr>"

text \<open>The counters after a push that succeeded: a single job, a bulk, or a bulk of batches.\<close>

definition counted_push :: "provider \<Rightarrow> job_data list \<Rightarrow> added_counter \<Rightarrow> added_counter option" where
  "counted_push p jobs c =
     (if length jobs = 1 then Some (count_single c)
      else if \<not> enabledBatchJobs (queueOptions p) then Some (count_bulk (length jobs) c)
      else map_option (\<lambda>bulk. count_bulk (length bulk) c) (bulk_of p jobs))"

section \<open>The counters of a worker\<close>

record job_event =
  ev_attempts :: "nat option"
  ev_attemptsMade :: "nat option"
  ev_finishedOn :: "int option"
  ev_processedOn :: "int option"

datatype worker_event = Completed job_event | Failed "job_event option" | Stalled string | Worker_error js_error

record worker_counter =
  wc_completed :: nat
  wc_retry :: nat
  wc_failed :: nat
  wc_stalled :: nat
  wc_internalErrors :: nat
  wc_durations :: "rat list"

definition no_events :: worker_counter where
  "no_events = \<lparr>wc_completed = 0, wc_retry = 0, wc_failed = 0, wc_stalled = 0, wc_internalErrors = 0,
     wc_durations = []\<rparr>"

text \<open>A failed job is counted as a retry when it has attempts left, so far as these are known.\<close>

definition will_retry :: "job_event option \<Rightarrow> bool" where
  "will_retry job =
     (case job of
        None \<Rightarrow> False
      | Some ev \<Rightarrow> (case (ev_attempts ev, ev_attemptsMade ev) of
            (Some attempts, Some attemptsMade) \<Rightarrow> attempts > attemptsMade
          | _ \<Rightarrow> False))"

fun listen :: "worker_event \<Rightarrow> worker_counter \<Rightarrow> worker_counter" where
  "listen (Completed ev) c =
     (let c' = c\<lparr>wc_completed := Suc (wc_completed c)\<rparr>
      in case (ev_finishedOn ev, ev_processedOn ev) of
           (Some finishedOn, Some processedOn) \<Rightarrow>
             c'\<lparr>wc_durations := wc_durations c' @ [of_int (finishedOn - processedOn) / 1000]\<rparr>
         | _ \<Rightarrow> c')"
| "listen (Failed job) c =
     (if will_retry job then c\<lparr>wc_retry := Suc (wc_retry c)\<rparr> else c\<lparr>wc_failed := Suc (wc_failed c)\<rparr>)"
| "listen (Stalled jobId) c = c\<lparr>wc_stalled := Suc (wc_stalled c)\<rparr>"
| "listen (Worker_error e) c = c\<lparr>wc_internalErrors := Suc (wc_internalErrors c)\<rparr>"

section \<open>Results\<close>

text \<open>\<open>changeJobDelay\<close> catches every error, and so the event never has an unhandled rejection.\<close>

lemma run_changeJobDelay_returns: "fst (run (changeJobDelay bq p jobId delay) s) = Inr ()"
  by (auto simp: changeJobDelay_def Let_def split: prod.splits sum.splits option.splits)

lemma onDeduplicated_returns: "fst (run (onDeduplicated bq qu jobId) s) = Inr ()"
  by (simp add: onDeduplicated_def run_changeJobDelay_returns)

text \<open>A queue listens to its events exactly when it has a delay to apply.\<close>

lemma createQueue_events:
  "qu_events (createQueue config cmp dig n) \<longleftrightarrow>
    (\<exists>delay. deduplicationDelay (jobOptions (qu_provider (createQueue config cmp dig n))) = Some delay)"
  by (simp add: createQueue_def Let_def)

text \<open>The total counts the jobs the library was given: with batches, the batches.\<close>

lemma counted_push_total:
  assumes "counted_push p jobs c = Some c'" and "ac_total c = ac_single c + n"
  shows "ac_total c' = ac_total c +
    (if length jobs = 1 \<or> \<not> enabledBatchJobs (queueOptions p) then length jobs else length (the (bulk_of p jobs)))"
  using assms by (auto simp: counted_push_def count_single_def count_bulk_def split: if_splits)

text \<open>Every event is counted exactly once.\<close>

definition events_counted :: "worker_counter \<Rightarrow> nat" where
  "events_counted c = wc_completed c + wc_retry c + wc_failed c + wc_stalled c + wc_internalErrors c"

lemma listen_counts_one: "events_counted (listen ev c) = Suc (events_counted c)"
  by (cases ev) (auto simp: events_counted_def Let_def split: option.splits)

lemma fold_listen_counts: "events_counted (fold listen evs c) = events_counted c + length evs"
  by (induction evs arbitrary: c) (simp_all add: listen_counts_one)

lemma durations_bounded: "length (wc_durations (fold listen evs no_events)) \<le> wc_completed (fold listen evs no_events)"
proof -
  have "length (wc_durations (fold listen evs c)) \<le> wc_completed (fold listen evs c)"
    if "length (wc_durations c) \<le> wc_completed c" for c
    using that
  proof (induction evs arbitrary: c)
    case Nil
    then show ?case by simp
  next
    case (Cons ev evs)
    have "length (wc_durations (listen ev c)) \<le> wc_completed (listen ev c)"
      using Cons.prems by (cases ev) (auto simp: Let_def split: option.splits)
    with Cons.IH show ?case by simp
  qed
  then show ?thesis by (simp add: no_events_def)
qed

end
