(* ===== verification/Telemetry.thy ===== *)
theory Telemetry
  imports Queue_Monitoring "HOL-Library.Sublist"
begin

text \<open>
  What the service reports about itself: which requests are traced (\<^verbatim>\<open>common/tracing.ts\<close> with the
  patterns of \<^verbatim>\<open>common/constants.ts\<close>), the names of tracers (\<^verbatim>\<open>queueProvider/telemetry\<close>), and the
  metrics that queues and workers register.  That the tracing exists before it is used is in
  \<open>Startup\<close>.
\<close>

section \<open>Traced requests\<close>

text \<open>
  A pattern of the form \<^verbatim>\<open>/^.*word.*$/\<close>: a dot matches any character but the four line terminators
  of JavaScript, of which a string of bytes can hold two.
\<close>

datatype pattern = Anywhere string

definition line_terminator :: "char \<Rightarrow> bool" where
  "line_terminator c \<longleftrightarrow> c = CHR 0x0A \<or> c = CHR 0x0D"

fun test :: "pattern \<Rightarrow> string \<Rightarrow> bool" where
  "test (Anywhere word) s \<longleftrightarrow> sublist word s \<and> \<not> list_ex line_terminator s"

definition IGNORED_OUTGOING_TRACE_ROUTES :: "pattern list" where
  "IGNORED_OUTGOING_TRACE_ROUTES = [Anywhere ''/v1/metrics'']"

definition IGNORED_INCOMING_TRACE_ROUTES :: "pattern list" where
  "IGNORED_INCOMING_TRACE_ROUTES = [Anywhere ''/docs'']"

text \<open>\<open>request.url\<close> may be undefined, and \<open>request.path\<close> may be no string.\<close>

definition ignoreIncomingRequestHook :: "string option \<Rightarrow> bool" where
  "ignoreIncomingRequestHook url =
     list_ex (\<lambda>route. case url of None \<Rightarrow> False | Some u \<Rightarrow> test route u) IGNORED_INCOMING_TRACE_ROUTES"

definition ignoreOutgoingRequestHook :: "string option \<Rightarrow> bool" where
  "ignoreOutgoingRequestHook path =
     list_ex (\<lambda>route. case path of None \<Rightarrow> False | Some p \<Rightarrow> test route p) IGNORED_OUTGOING_TRACE_ROUTES"

text \<open>The test is the match of the pattern: the word between two parts without line terminators.\<close>

lemma test_matches:
  assumes "\<not> list_ex line_terminator word"
  shows "test (Anywhere word) s \<longleftrightarrow> (\<exists>before after. s = before @ word @ after \<and>
    \<not> list_ex line_terminator before \<and> \<not> list_ex line_terminator after)"
proof
  assume "test (Anywhere word) s"
  then obtain before after where "s = before @ word @ after" "\<not> list_ex line_terminator s"
    by (auto simp: sublist_def)
  then show "\<exists>before after. s = before @ word @ after \<and>
      \<not> list_ex line_terminator before \<and> \<not> list_ex line_terminator after" by auto
qed (use assms in auto)

text \<open>A request of the documentation is not traced, whatever its query; a request of an entity is.\<close>

lemma docs_not_traced:
  "\<not> list_ex line_terminator rest \<Longrightarrow> ignoreIncomingRequestHook (Some (''/docs'' @ rest))"
  by (auto simp: ignoreIncomingRequestHook_def IGNORED_INCOMING_TRACE_ROUTES_def line_terminator_def sublist_def
      intro: exI [of _ "[]"])

lemma requests_traced:
  "\<not> ignoreIncomingRequestHook (Some ''/entity/_bulk'')" "\<not> ignoreIncomingRequestHook None"
  "\<not> ignoreOutgoingRequestHook (Some ''/docs'')"
  by code_simp+

section \<open>Tracers\<close>

definition SERVICE_NAME :: "string option \<Rightarrow> string" where
  "SERVICE_NAME name = (case name of None \<Rightarrow> ''unknown_service'' | Some n \<Rightarrow> n)"

definition bullMqOtelFactory :: "string option \<Rightarrow> string option \<Rightarrow> string" where
  "bullMqOtelFactory name component =
     SERVICE_NAME name @ ''_bullmq'' @ (case component of None \<Rightarrow> '''' | Some c \<Rightarrow> ''_'' @ c)"

section \<open>Metrics\<close>

text \<open>
  The registry is a library: it holds metrics by their names, and refuses a name it has.  \<open>snakeCase\<close>
  is lodash's.
\<close>

definition register_metric :: "string \<Rightarrow> (js_error, string list, unit) stmt" where
  "register_metric name registry =
     (if List.member registry name then (Inl (OtherError ''A metric with the name has already been registered.''), registry)
      else (Inr (), registry @ [name]))"

fun register_metrics :: "string list \<Rightarrow> (js_error, string list, unit) stmt" where
  "register_metrics [] registry = (Inr (), registry)"
| "register_metrics (name # names) registry =
     (case register_metric name registry of
        (Inl e, registry') \<Rightarrow> (Inl e, registry')
      | (Inr _, registry') \<Rightarrow> register_metrics names registry')"

definition queue_metrics :: "(string \<Rightarrow> string) \<Rightarrow> string \<Rightarrow> string list" where
  "queue_metrics snakeCase queueName =
     [''osm_sync_tracker_'' @ snakeCase queueName @ ''_state_counts'',
      ''osm_sync_tracker_'' @ snakeCase queueName @ ''_added'']"

definition worker_metrics :: "(string \<Rightarrow> string) \<Rightarrow> string \<Rightarrow> string list" where
  "worker_metrics snakeCase queueName =
     [''osm_sync_tracker_'' @ snakeCase queueName @ ''_job_processing_duration_seconds'',
      ''osm_sync_tracker_'' @ snakeCase queueName @ ''_job_count'',
      ''osm_sync_tracker_'' @ snakeCase queueName @ ''_internal_error_total'']"

lemma register_metrics_ok:
  "fst (register_metrics names registry) = Inr () \<longleftrightarrow> distinct names \<and> set names \<inter> set registry = {}"
  by (induction names arbitrary: registry) (auto simp: register_metric_def)

text \<open>
  The queues and workers of the application register names that differ, so that no constructor
  throws; two queues of one name, or a worker made twice, would.
\<close>

lemma service_metrics_register:
  assumes snake: "\<And>n. n \<in> {CHANGESETS_QUEUE_NAME, FILES_QUEUE_NAME, SYNCS_QUEUE_NAME} \<Longrightarrow> snakeCase n = n"
  shows "fst (register_metrics (concat (map (queue_metrics snakeCase) [CHANGESETS_QUEUE_NAME, FILES_QUEUE_NAME, SYNCS_QUEUE_NAME]) @
    concat (map (worker_metrics snakeCase) [CHANGESETS_QUEUE_NAME, FILES_QUEUE_NAME, SYNCS_QUEUE_NAME])) []) = Inr ()"
  unfolding register_metrics_ok queue_metrics_def worker_metrics_def by (simp add: snake) (simp add: queue_names)

lemma same_queue_twice: "fst (register_metrics (queue_metrics snakeCase n @ queue_metrics snakeCase n) []) \<noteq> Inr ()"
  unfolding register_metrics_ok by (simp add: queue_metrics_def)

section \<open>The state of a queue\<close>

definition JOB_STATES :: "string list" where
  "JOB_STATES = [''active'', ''completed'', ''delayed'', ''failed'', ''paused'', ''wait'', ''waiting'', ''waiting-children'']"

text \<open>\<open>collect\<close>: the gauge takes the count of every state; when the counts cannot be read it stays.\<close>

definition collect_gauge ::
  "js_error + (string \<Rightarrow> nat) \<Rightarrow> (js_error, string \<rightharpoonup> nat, unit) stmt" where
  "collect_gauge jobCounts gauge =
     (case jobCounts of
        Inl e \<Rightarrow> (Inl e, gauge)
      | Inr statesCount \<Rightarrow> (Inr (), fold (\<lambda>jobState g. g(jobState \<mapsto> statesCount jobState)) JOB_STATES gauge))"

lemma fold_update: "fold (\<lambda>k g. g(k \<mapsto> f k)) ks g x = (if x \<in> set ks then Some (f x) else g x)"
  by (induction ks arbitrary: g) auto

lemma collect_gauge_counts:
  "snd (collect_gauge (Inr f) gauge) x = (if x \<in> set JOB_STATES then Some (f x) else gauge x)"
  by (simp add: collect_gauge_def fold_update)

end
