(* ===== verification/Spec2Isabelle.thy ===== *)
theory Spec2Isabelle
  imports Closure_System Closure_Progress Rerun_Recovery Error_Statuses Migration_Properties Server Startup Connections
    Rerun_Numbers Telemetry
begin

text \<open>
  A verification of osm-sync-tracker, the service that follows the synchronisation of map data to
  OSM.  A sync has files, a file has entities, an entity may belong to a changeset.  Clients report
  progress by HTTP; when the entities of a file and the files of a sync are done, jobs on three
  queues close the file and the sync; a failed sync can be run again.

  \<^bold>\<open>The program and its theories\<close> (paths below \<^verbatim>\<open>src/src\<close> unless they start with \<^verbatim>\<open>db\<close>)

  \<^item> \<open>Prelude\<close>: lists, JavaScript's optional and nullable values, and asynchronous functions.  A
    function is a \<open>prog\<close>: a sequence of statements, each atomic on the state, between which others
    may run; \<open>run\<close> executes it alone, \<open>keeps I\<close> says that each of its statements keeps \<open>I\<close>.
  \<^item> \<open>Domain\<close>: \<^verbatim>\<open>common/enums.ts\<close> and every exception class (\<^verbatim>\<open>common/errors.ts\<close>, \<^verbatim>\<open>*/models/errors.ts\<close>) as a
    constructor of \<open>js_error\<close>.  An exception is the \<open>Inl\<close> of a sum.
  \<^item> \<open>Sql\<close>, \<open>Schema\<close>, \<open>Repository\<close>: a table is the list of its rows; the five tables of the entity
    classes in \<^verbatim>\<open>*/DAL\<close> with primary keys, references, cascades and the range of \<open>integer\<close>; \<open>db_wf\<close> is
    the invariant.  The locale \<open>repository\<close> is what the managers rely on, \<open>closing\<close> what the workers
    do; the four repositories and the two closures are instances.
  \<^item> \<open>Changeset_Repository\<close>, \<open>File_Repository\<close>, \<open>Entity_Repository\<close>, \<open>Sync_Repository\<close>: the methods of
    \<^verbatim>\<open>*/DAL/*Repository.ts\<close>; \<open>Rerun_Creation\<close>: the raw SQL and the transaction of \<open>createRerun\<close>.
  \<^item> \<open>Transactions\<close>: \<^verbatim>\<open>common/db/transactions.ts\<close>; \<open>Lodash\<close>: the functions of lodash in use.
  \<^item> \<open>Changeset_Manager\<close>, \<open>File_Manager\<close>, \<open>Entity_Manager\<close>, \<open>Sync_Manager\<close>: \<^verbatim>\<open>*/models/*Manager.ts\<close>;
    \<open>Controllers\<close>: the handlers of \<^verbatim>\<open>*/controllers\<close> with the statuses they send or attach.
  \<^item> \<open>Utils\<close>: \<^verbatim>\<open>common/utils\<close>.  \<open>Queue_Provider\<close>, \<open>Job_Queue\<close>, \<open>Worker_Provider\<close>, \<open>Queue_Monitoring\<close>:
    \<^verbatim>\<open>queueProvider\<close>, with the locale \<open>job_queue\<close> for the interface \<open>JobQueueProvider\<close>;
    \<open>Closure_Workers\<close>: \<open>processJob\<close> of the three workers, on the database and the queue they push to.
  \<^item> \<open>Routing\<close>, \<open>Server\<close>: \<^verbatim>\<open>*/routes\<close> and \<^verbatim>\<open>serverBuilder.ts\<close>.  \<open>Dependency_Registration\<close>, \<open>Startup\<close>:
    \<^verbatim>\<open>common/dependencyRegistration.ts\<close>, \<^verbatim>\<open>containerConfig.ts\<close>, \<^verbatim>\<open>instrumentation.mts\<close>, \<^verbatim>\<open>app.ts\<close>, \<^verbatim>\<open>index.ts\<close>,
    with the locale \<open>container\<close>.  \<open>Connections\<close>: \<^verbatim>\<open>queueProvider/connection.ts\<close>, \<^verbatim>\<open>common/db/index.ts\<close>.
    \<open>Telemetry\<close>: \<^verbatim>\<open>common/tracing.ts\<close>, \<^verbatim>\<open>common/constants.ts\<close>, \<^verbatim>\<open>queueProvider/telemetry\<close> and the metrics.
  \<^item> \<open>Migrations\<close>: the nine files of \<^verbatim>\<open>db/migrations\<close> in both directions, on a catalogue of types, tables,
    constraints and indexes.

  \<^bold>\<open>What is shown\<close>

  \<^item> One operation: what each manager answers and stores on every branch, errors included
    (\<open>createFile_answers\<close>, \<open>createEntities_on_rerun\<close>, \<open>rerunSyncIfNeeded_refuses\<close> and their like), what
    creating a rerun does to every table (\<open>Rerun_Outcome\<close>), what closing does (\<open>attemptFileClosure_correct\<close>,
    \<open>attemptSyncClosure_correct\<close>) and that its order is irrelevant.
  \<^item> All requests: one that fails leaves the database as it was (\<open>Request_Atomicity\<close>), every exception
    class has one status (\<open>Error_Statuses\<close>), the repositories refine maps (below).
  \<^item> Interleavings: \<open>reachable\<close> and \<open>closing_work\<close> let statements of any number of functions
    alternate.  The database stays well formed (\<open>Closure_System\<close>); jobs close only what is complete,
    and no closure of a sync gets lost while pushes succeed (\<open>Closure_Progress\<close>).  The reruns of a
    sync are numbered from one unless requests for reruns overlap, and then two may get one number
    (\<open>Rerun_Numbers\<close>).
  \<^item> Whole runs: from a completed changeset to a closed sync (\<open>Closure_Pipeline\<close>), and from the request
    of a rerun through the client's reports to the closed sync and rerun (\<open>Rerun_Recovery\<close>).
  \<^item> The library around it: batches, closures and retries of the queue, the server as a flat decision,
    routes against the API document, migrations against the entity classes, the ends of the process.

  \<^bold>\<open>Parameters and hypotheses.\<close>  Libraries are arguments with their documented behaviour as named
  predicates: \<open>lodash_ok\<close>, \<open>transform_ok\<close>, \<open>total_comparison\<close>, \<open>bullmq_ok\<close> and \<open>reliable\<close> (a push that
  succeeds is remembered, delaying ends no waiting), \<open>atomic_tx\<close> (a transaction commits as a whole or
  leaves no trace), \<open>env_foreign\<close> (an error of the library is none of the program's classes).  The outcome of
  the transaction of a rerun (\<open>tx_outcome\<close>) and whether the repository's own statements join it (\<open>joins\<close>)
  are parameters too.  Each hypothesis is satisfied by a concrete instance in a witness.

  \<^bold>\<open>Bounds.\<close>  \<open>push\<close> may not end, so \<open>batches\<close> is a partial function and \<open>push_returns_iff\<close> says when it
  does.  \<open>stack_depth\<close> bounds factories that resolve each other; the deepest chain of the application is
  shorter (\<open>started_ready\<close>).  The retry loop recurses on the number of retries.  Integers of columns are
  checked against 32 bits where they are written; JavaScript numbers are mathematical integers.

  \<^bold>\<open>Not modelled.\<close>  The libraries of tracing, metrics, logging and of the user interface, and the
  listeners that only log: what the program decides about them is in \<open>Telemetry\<close>, \<open>Queue_Monitoring\<close>
  and \<open>Startup\<close>, and logging keeps no state of the program.  Isolation below a statement: a
  statement and a transaction are atomic, and what the database aborts is a parameter.  Strings are
  not checked for being UUIDs; validation of requests is the library's, from the API document.
  Whether the configuration can be loaded is a parameter.
\<close>

section \<open>Properties that span components\<close>


end
